(* ===== verification/Bytes.thy ===== *)
theory Bytes
  imports Prelude "HOL-Library.Word"
begin

text \<open>
  Byte slices as the Go sources use them: big-endian integers (\<^verbatim>\<open>encoding/binary\<close>), slices and indexing that
  panic out of range, and writing into a buffer of fixed size.  A byte is an \<^typ>\<open>8 word\<close>; a Go string is a
  \<^typ>\<open>string\<close> whose characters are its bytes.  A computation ends in a value, in an error it returns, or
  in a panic.
\<close>

unbundle bit_operations_syntax

type_synonym byte = "8 word"
type_synonym bytes = "byte list"

datatype go_error = Panic | Error string

definition go_bind :: "go_error + 'a \<Rightarrow> ('a \<Rightarrow> go_error + 'b) \<Rightarrow> go_error + 'b" where
  "go_bind m f = (case m of Inl e \<Rightarrow> Inl e | Inr x \<Rightarrow> f x)"

section \<open>Strings\<close>

definition str_bytes :: "string \<Rightarrow> bytes" where
  "str_bytes s = map (\<lambda>c. word_of_nat (of_char c)) s"

definition bytes_str :: "bytes \<Rightarrow> string" where
  "bytes_str bs = map (\<lambda>b. char_of (unat b)) bs"

section \<open>Big-endian integers\<close>

fun be_put :: "nat \<Rightarrow> 'a::len word \<Rightarrow> bytes" where
  "be_put 0 w = []"
| "be_put (Suc n) w = be_put n (drop_bit 8 w) @ [ucast w]"

definition be_get :: "bytes \<Rightarrow> 'a::len word" where
  "be_get bs = foldl (\<lambda>acc b. push_bit 8 acc OR ucast b) 0 bs"

text \<open>\<open>binary.BigEndian.PutUint16\<close>, \<open>PutUint32\<close> and \<open>PutUint64\<close>, by the type of the argument.\<close>

definition put_be :: "'a::len word \<Rightarrow> bytes" where
  "put_be w = be_put (LENGTH('a) div 8) w"

text \<open>\<open>binary.BigEndian.Uint16(data[pos:])\<close> and so on, by the type of the result.\<close>

definition word_at :: "bytes \<Rightarrow> nat \<Rightarrow> go_error + 'a::len word" where
  "word_at data pos = (if pos + LENGTH('a) div 8 \<le> length data
     then Inr (be_get (take (LENGTH('a) div 8) (drop pos data))) else Inl Panic)"

text \<open>\<open>data[a:b]\<close>, of a slice without spare capacity.\<close>

definition subslice :: "bytes \<Rightarrow> nat \<Rightarrow> nat \<Rightarrow> go_error + bytes" where
  "subslice data a b = (if a \<le> b \<and> b \<le> length data then Inr (take (b - a) (drop a data)) else Inl Panic)"

section \<open>Writing into a buffer\<close>

text \<open>\<open>Put\<close> stands for the assignments and \<open>PutUint\<close> functions, which panic when they do not fit; \<open>Copy\<close> for
  \<open>copy(buf[pos:], src)\<close> followed by \<open>pos += len(src)\<close>, which writes what fits; \<open>CopyN\<close> for
  \<open>pos += copy(buf[pos:], src)\<close>.\<close>

datatype buf_op = Put bytes | Copy bytes | CopyN bytes

definition blit :: "bytes \<Rightarrow> nat \<Rightarrow> bytes \<Rightarrow> bytes" where
  "blit buf pos src = take pos buf @ take (length buf - pos) src @ drop (pos + length src) buf"

fun run_write :: "buf_op \<Rightarrow> bytes \<times> nat \<Rightarrow> go_error + bytes \<times> nat" where
  "run_write (Put src) (buf, pos) =
     (if pos + length src \<le> length buf then Inr (blit buf pos src, pos + length src) else Inl Panic)"
| "run_write (Copy src) (buf, pos) =
     (if pos \<le> length buf then Inr (blit buf pos src, pos + length src) else Inl Panic)"
| "run_write (CopyN src) (buf, pos) =
     (if pos \<le> length buf then Inr (blit buf pos src, pos + min (length src) (length buf - pos)) else Inl Panic)"

fun run_writes :: "buf_op list \<Rightarrow> bytes \<times> nat \<Rightarrow> go_error + bytes \<times> nat" where
  "run_writes [] s = Inr s"
| "run_writes (w # ws) s = go_bind (run_write w s) (run_writes ws)"

fun written :: "buf_op \<Rightarrow> bytes" where
  "written (Put src) = src"
| "written (Copy src) = src"
| "written (CopyN src) = src"

section \<open>Lemmas\<close>

named_theorems go_simps \<open>evaluation of slices and binds\<close>

lemma go_bind_simps [simp, go_simps]: "go_bind (Inr x) f = f x" "go_bind (Inl e) f = Inl e"
  by (simp_all add: go_bind_def)

lemma go_bind_Inr_iff: "go_bind m f = Inr y \<longleftrightarrow> (\<exists>x. m = Inr x \<and> f x = Inr y)"
  by (cases m) auto

text \<open>A computation that does not panic and whose value, if it has one, satisfies \<open>P\<close>.\<close>

fun go_wp :: "('a \<Rightarrow> bool) \<Rightarrow> go_error + 'a \<Rightarrow> bool" where
  "go_wp P (Inl Panic) = False"
| "go_wp P (Inl (Error _)) = True"
| "go_wp P (Inr x) = P x"

lemma go_wp_bind [simp]: "go_wp P (go_bind m f) \<longleftrightarrow> go_wp (\<lambda>x. go_wp P (f x)) m"
  by (cases "(\<lambda>x. go_wp P (f x), m)" rule: go_wp.cases) simp_all

lemma go_wp_mono: "go_wp P m \<Longrightarrow> (\<And>x. P x \<Longrightarrow> Q x) \<Longrightarrow> go_wp Q m"
  by (cases "(P, m)" rule: go_wp.cases) simp_all

lemma go_wp_iff: "go_wp P m \<longleftrightarrow> m \<noteq> Inl Panic \<and> (\<forall>x. m = Inr x \<longrightarrow> P x)"
  by (cases "(P, m)" rule: go_wp.cases) simp_all

lemma go_bind_cong [fundef_cong]: "m = m' \<Longrightarrow> (\<And>x. m' = Inr x \<Longrightarrow> f x = g x) \<Longrightarrow> go_bind m f = go_bind m' g"
  by (cases m') simp_all

lemma length_str_bytes [simp]: "length (str_bytes s) = length s"
  by (simp add: str_bytes_def)

lemma length_bytes_str [simp]: "length (bytes_str bs) = length bs"
  by (simp add: bytes_str_def)

lemma bytes_str_bytes [simp]: "bytes_str (str_bytes s) = s"
proof -
  have "char_of (unat (word_of_nat (of_char c) :: byte)) = c" for c :: char
    by (simp add: unat_of_nat)
  then show ?thesis by (simp add: bytes_str_def str_bytes_def map_idI)
qed

lemma str_bytes_eq_Nil [simp]: "str_bytes s = [] \<longleftrightarrow> s = []"
  by (simp add: str_bytes_def)

lemma length_be_put [simp]: "length (be_put n w) = n"
  by (induction n arbitrary: w) simp_all

lemma length_put_be [simp]: "length (put_be (w :: 'a::len word)) = LENGTH('a) div 8"
  by (simp add: put_be_def)

lemma be_get_snoc: "be_get (bs @ [b]) = push_bit 8 (be_get bs) OR ucast b"
  by (simp add: be_get_def)

lemma be_get_put: "8 * n \<le> LENGTH('a) \<Longrightarrow> be_get (be_put n w) = take_bit (8 * n) (w :: 'a::len word)"
proof (induction n arbitrary: w)
  case 0
  then show ?case by (simp add: be_get_def)
next
  case (Suc n)
  have "be_get (be_put (Suc n) w) = push_bit 8 (take_bit (8 * n) (drop_bit 8 w)) OR ucast (ucast w :: byte)"
    using Suc by (simp add: be_get_snoc)
  also have "\<dots> = take_bit (8 * Suc n) w"
    by (rule bit_word_eqI) (auto simp: bit_simps)
  finally show ?case .
qed

lemma be_get_put_be:
  assumes "8 dvd LENGTH('a)"
  shows "be_get (put_be (w :: 'a::len word)) = w"
  using assms by (simp add: put_be_def be_get_put)

lemma word_at_here:
  "8 dvd LENGTH('a) \<Longrightarrow> word_at (put_be (w :: 'a::len word) @ post) 0 = Inr w"
  by (simp add: word_at_def be_get_put_be)

lemma word_at_skip:
  "length xs \<le> pos \<Longrightarrow> word_at (xs @ ys) pos = (word_at ys (pos - length xs) :: go_error + 'a::len word)"
  by (auto simp: word_at_def)

lemma go_wp_word_at:
  "pos + LENGTH('a) div 8 \<le> length data \<Longrightarrow> (\<And>w. P w) \<Longrightarrow> go_wp P (word_at data pos :: go_error + 'a::len word)"
  by (simp add: word_at_def)

lemma go_wp_subslice:
  "a \<le> b \<Longrightarrow> b \<le> length data \<Longrightarrow> (\<And>xs. length xs = b - a \<Longrightarrow> P xs) \<Longrightarrow> go_wp P (subslice data a b)"
  by (simp add: subslice_def)

lemma word_at_ok: "pos + LENGTH('a) div 8 \<le> length data \<Longrightarrow> \<exists>w. word_at data pos = Inr (w :: 'a::len word)"
  by (simp add: word_at_def)

lemma subslice_here: "length xs = n \<Longrightarrow> subslice (xs @ ys) 0 n = Inr xs"
  by (simp add: subslice_def)

lemma subslice_skip:
  "length xs \<le> a \<Longrightarrow> a \<le> b \<Longrightarrow> subslice (xs @ ys) a b = subslice ys (a - length xs) (b - length xs)"
  by (auto simp: subslice_def)

lemma subslice_all: "subslice xs 0 (length xs) = Inr xs"
  by (simp add: subslice_def)

lemma subslice_ok: "a \<le> b \<Longrightarrow> b \<le> length data \<Longrightarrow> subslice data a b = Inr (take (b - a) (drop a data))"
  by (simp add: subslice_def)

lemma length_blit [simp]: "pos \<le> length buf \<Longrightarrow> length (blit buf pos src) = length buf"
  by (auto simp: blit_def min_def)

text \<open>Writes that exactly fill a buffer never panic and leave nothing of what it held behind.\<close>

lemma run_write_fits:
  assumes "pos + length (written w) \<le> length buf"
  shows "run_write w (buf, pos) = Inr (take pos buf @ written w @ drop (pos + length (written w)) buf, pos + length (written w))"
  using assms by (cases w) (auto simp: blit_def)

lemma run_writes_fill:
  assumes "pos + length (concat (map written ws)) = length buf"
  shows "run_writes ws (buf, pos) = Inr (take pos buf @ concat (map written ws), length buf)"
  using assms
proof (induction ws arbitrary: buf pos)
  case Nil
  then show ?case by simp
next
  case (Cons w ws)
  let ?buf = "take pos buf @ written w @ drop (pos + length (written w)) buf"
  have "length ?buf = length buf" using Cons.prems by simp
  moreover from Cons.prems this have "run_writes ws (?buf, pos + length (written w)) =
      Inr (take (pos + length (written w)) ?buf @ concat (map written ws), length ?buf)"
    by (intro Cons.IH) simp
  ultimately show ?case using Cons.prems by (simp add: run_write_fits)
qed

end
