(* ===== verification/Message.thy ===== *)
theory Message
  imports Bytes
begin

text \<open>
  \<^verbatim>\<open>internal/message\<close>: the envelope of a message, its binary form, and the identifiers of messages.  \<open>Marshal\<close>
  writes into a buffer of the pool, whose earlier contents are an argument; the orders in which its
  two loops visit the map of headers are arguments too.  \<open>Unmarshal\<close> reads an arbitrary slice and
  panics where the Go code would index out of range.
\<close>

section \<open>Envelopes\<close>

definition FixedHeaderSize :: nat where "FixedHeaderSize = 64"
definition MaxMessageSize :: nat where "MaxMessageSize = 16 * 1024 * 1024"

definition FlagHasHeaders :: byte where "FlagHasHeaders = push_bit 0 1"
definition FlagHasRoutingKey :: byte where "FlagHasRoutingKey = push_bit 1 1"
definition FlagHasTrace :: byte where "FlagHasTrace = push_bit 2 1"
definition FlagHasTTL :: byte where "FlagHasTTL = push_bit 3 1"
definition FlagHasDelay :: byte where "FlagHasDelay = push_bit 4 1"

text \<open>A Go map that may be nil.\<close>

type_synonym msg_headers = "(string \<Rightarrow> bytes option) option"

definition hdr_map :: "msg_headers \<Rightarrow> string \<Rightarrow> bytes option" where
  "hdr_map h = (case h of None \<Rightarrow> Map.empty | Some m \<Rightarrow> m)"

record Envelope =
  MessageID :: bytes
  Timestamp :: "64 word"
  Sequence :: "64 word"
  Topic :: string
  PartitionID :: "32 word"
  RoutingKey :: string
  Headers :: msg_headers
  SchemaID :: "32 word"
  ContentType :: string
  Encoding :: byte
  Payload :: bytes
  Priority :: byte
  TTL :: "64 word"
  DeliverAt :: "64 word"
  DeliverCount :: "32 word"
  MaxRetries :: "32 word"
  TraceID :: bytes
  SpanID :: bytes
  SourceProto :: byte

text \<open>\<open>&Envelope{}\<close>, and the lengths of the arrays.\<close>

definition zero_envelope :: Envelope where
  "zero_envelope = \<lparr>MessageID = replicate 16 0, Timestamp = 0, Sequence = 0, Topic = '''', PartitionID = 0,
     RoutingKey = '''', Headers = None, SchemaID = 0, ContentType = '''', Encoding = 0, Payload = [],
     Priority = 0, TTL = 0, DeliverAt = 0, DeliverCount = 0, MaxRetries = 0, TraceID = replicate 16 0,
     SpanID = replicate 8 0, SourceProto = 0\<rparr>"

definition array_lengths :: "Envelope \<Rightarrow> bool" where
  "array_lengths e \<longleftrightarrow> length (MessageID e) = 16 \<and> length (TraceID e) = 16 \<and> length (SpanID e) = 8"

definition has_trace :: "Envelope \<Rightarrow> bool" where
  "has_trace e \<longleftrightarrow> TraceID e \<noteq> replicate 16 0"

definition protocol_name :: "byte \<Rightarrow> string" where
  "protocol_name p = (if p = 0 then ''chimera'' else if p = 1 then ''amqp'' else if p = 2 then ''mqtt''
     else if p = 3 then ''websocket'' else if p = 4 then ''http'' else if p = 5 then ''stomp''
     else if p = 6 then ''nats'' else if p = 7 then ''grpc'' else ''unknown'')"

section \<open>Marshal\<close>

type_synonym header_order = "(string \<times> bytes) list"

text \<open>An order in which a loop may visit the headers.\<close>

definition visits :: "header_order \<Rightarrow> msg_headers \<Rightarrow> bool" where
  "visits xs h \<longleftrightarrow> distinct (map fst xs) \<and> map_of xs = hdr_map h"

definition headers_size :: "header_order \<Rightarrow> nat" where
  "headers_size xs = fold (\<lambda>(k, v) size. size + (2 + length k + 4 + length v)) xs 0"

definition EstimateSize :: "header_order \<Rightarrow> Envelope \<Rightarrow> nat" where
  "EstimateSize order e = FixedHeaderSize + length (Topic e) + length (RoutingKey e) + length (Payload e) +
     headers_size order + (if has_trace e then 24 else 0)"

definition header_ops :: "string \<times> bytes \<Rightarrow> buf_op list" where
  "header_ops kv = (case kv of (k, v) \<Rightarrow>
     [Put (put_be (word_of_nat (length k) :: 16 word)), CopyN (str_bytes k),
      Put (put_be (word_of_nat (length v) :: 32 word)), CopyN v])"

definition marshalHeadersTo :: "header_order \<Rightarrow> buf_op list" where
  "marshalHeadersTo order = concat (map header_ops order)"

definition flags_of :: "Envelope \<Rightarrow> byte" where
  "flags_of e = (if dom (hdr_map (Headers e)) \<noteq> {} then FlagHasHeaders else 0) OR
     (if RoutingKey e \<noteq> '''' then FlagHasRoutingKey else 0) OR
     (if has_trace e then FlagHasTrace else 0) OR
     (if 0 <s TTL e then FlagHasTTL else 0) OR
     (if 0 <s DeliverAt e then FlagHasDelay else 0)"

definition conditional_field :: "Envelope \<Rightarrow> buf_op list" where
  "conditional_field e =
     (if flags_of e AND FlagHasTTL \<noteq> 0 then [Put (put_be (TTL e))]
      else if flags_of e AND FlagHasDelay \<noteq> 0 then [Put (put_be (DeliverAt e))]
      else [Put (put_be (DeliverCount e)), Put (put_be (MaxRetries e))])"

definition marshal_ops :: "nat \<Rightarrow> header_order \<Rightarrow> Envelope \<Rightarrow> buf_op list" where
  "marshal_ops hdrSize order e =
     [Copy (MessageID e), Put (put_be (Timestamp e)), Put (put_be (Sequence e)), Put (put_be (PartitionID e)),
      Put (put_be (SchemaID e)), Put [Priority e], Put [Encoding e], Put [SourceProto e], Put [flags_of e],
      Put (put_be (word_of_nat (length (Payload e)) :: 32 word)), Put (put_be (word_of_nat hdrSize :: 32 word)),
      Put (put_be (word_of_nat (length (Topic e)) :: 16 word)),
      Put (put_be (word_of_nat (length (RoutingKey e)) :: 16 word))] @
     conditional_field e @
     [Copy (str_bytes (Topic e))] @
     (if RoutingKey e \<noteq> '''' then [Copy (str_bytes (RoutingKey e))] else []) @
     (if hdrSize > 0 then marshalHeadersTo order else []) @
     (if has_trace e then [Copy (TraceID e), Copy (SpanID e)] else []) @
     [Copy (Payload e)]"

definition Marshal :: "bytes \<Rightarrow> header_order \<Rightarrow> header_order \<Rightarrow> Envelope \<Rightarrow> go_error + bytes" where
  "Marshal pooled order1 order2 e =
     (if length (Topic e) > 65535 then Inl (Error ''topic name too long'')
      else if length (RoutingKey e) > 65535 then Inl (Error ''routing key too long'')
      else if length (Payload e) > 0xFFFFFFFF then Inl (Error ''payload too large'')
      else let size = EstimateSize order1 e in
        if size > MaxMessageSize then Inl (Error ''message too large'')
        else let buf = (if length pooled < size then replicate size 0 else take size pooled)
          in go_bind (run_writes (marshal_ops (headers_size order1) order2 e) (buf, 0)) (\<lambda>(buf, pos). Inr buf))"

section \<open>Unmarshal\<close>

function unmarshalHeaders_from :: "bytes \<Rightarrow> nat \<Rightarrow> (string \<Rightarrow> bytes option) \<Rightarrow> go_error + (string \<Rightarrow> bytes option)" where
  "unmarshalHeaders_from data pos headers =
     (if pos < length data then
        if pos + 2 > length data then Inr headers
        else go_bind (word_at data pos) (\<lambda>kl :: 16 word.
          let keyLen = unat kl; pos = pos + 2 in
          if pos + keyLen > length data then Inr headers
          else go_bind (subslice data pos (pos + keyLen)) (\<lambda>key.
            let pos = pos + keyLen in
            if pos + 4 > length data then Inr headers
            else go_bind (word_at data pos) (\<lambda>vl :: 32 word.
              let valLen = unat vl; pos = pos + 4 in
              if pos + valLen > length data then Inr headers
              else go_bind (subslice data pos (pos + valLen)) (\<lambda>val.
                unmarshalHeaders_from data (pos + valLen) (headers(bytes_str key \<mapsto> val))))))
      else Inr headers)"
  by pat_completeness auto
termination by (relation "measure (\<lambda>(data, pos, headers). length data - pos)") auto

declare unmarshalHeaders_from.simps [simp del]

definition unmarshalHeaders :: "bytes \<Rightarrow> go_error + (string \<Rightarrow> bytes option)" where
  "unmarshalHeaders data = unmarshalHeaders_from data 0 Map.empty"

text \<open>The conditional field at bytes 56 to 63.\<close>

definition read_conditional :: "bytes \<Rightarrow> byte \<Rightarrow> Envelope \<Rightarrow> go_error + Envelope" where
  "read_conditional data flags e =
     (if flags AND FlagHasTTL \<noteq> 0 then go_bind (word_at data 56) (\<lambda>x. Inr (e\<lparr>TTL := x\<rparr>))
      else if flags AND FlagHasDelay \<noteq> 0 then go_bind (word_at data 56) (\<lambda>x. Inr (e\<lparr>DeliverAt := x\<rparr>))
      else go_bind (word_at data 56) (\<lambda>x. go_bind (word_at data 60) (\<lambda>y. Inr (e\<lparr>DeliverCount := x, MaxRetries := y\<rparr>))))"

text \<open>The fields of variable length, from \<open>pos\<close>.\<close>

definition read_payload :: "bytes \<Rightarrow> nat \<Rightarrow> nat \<Rightarrow> Envelope \<Rightarrow> go_error + Envelope" where
  "read_payload data pos payloadLen e =
     (if payloadLen > length data - pos then Inl (Error ''payload extends beyond data'')
      else go_bind (subslice data pos (pos + payloadLen)) (\<lambda>p. Inr (e\<lparr>Payload := p\<rparr>)))"

definition read_trace :: "bytes \<Rightarrow> nat \<Rightarrow> byte \<Rightarrow> Envelope \<Rightarrow> go_error + Envelope \<times> nat" where
  "read_trace data pos flags e =
     (if flags AND FlagHasTrace \<noteq> 0 then
        if pos + 24 > length data then Inl (Error ''trace extends beyond data'')
        else go_bind (subslice data pos (pos + 16)) (\<lambda>t.
          go_bind (subslice data (pos + 16) (pos + 24)) (\<lambda>s. Inr (e\<lparr>TraceID := t, SpanID := s\<rparr>, pos + 24)))
      else Inr (e, pos))"

definition read_headers :: "bytes \<Rightarrow> nat \<Rightarrow> nat \<Rightarrow> Envelope \<Rightarrow> go_error + Envelope \<times> nat" where
  "read_headers data pos headersLen e =
     (if headersLen > 0 then
        if headersLen > length data - pos then Inl (Error ''headers extend beyond data'')
        else go_bind (subslice data pos (pos + headersLen)) (\<lambda>h.
          go_bind (unmarshalHeaders h) (\<lambda>m. Inr (e\<lparr>Headers := Some m\<rparr>, pos + headersLen)))
      else Inr (e, pos))"

definition read_routing_key :: "bytes \<Rightarrow> nat \<Rightarrow> nat \<Rightarrow> Envelope \<Rightarrow> go_error + Envelope \<times> nat" where
  "read_routing_key data pos rkLen e =
     (if rkLen > 0 then
        if rkLen > length data - pos then Inl (Error ''routing key extends beyond data'')
        else go_bind (subslice data pos (pos + rkLen)) (\<lambda>k. Inr (e\<lparr>RoutingKey := bytes_str k\<rparr>, pos + rkLen))
      else Inr (e, pos))"

definition read_topic :: "bytes \<Rightarrow> nat \<Rightarrow> nat \<Rightarrow> Envelope \<Rightarrow> go_error + Envelope \<times> nat" where
  "read_topic data pos topicLen e =
     (if topicLen > length data - pos then Inl (Error ''topic extends beyond data'')
      else go_bind (subslice data pos (pos + topicLen)) (\<lambda>t. Inr (e\<lparr>Topic := bytes_str t\<rparr>, pos + topicLen)))"

definition Unmarshal :: "bytes \<Rightarrow> go_error + Envelope" where
  "Unmarshal data =
     (if length data < FixedHeaderSize then Inl (Error ''data too short'') else
      go_bind (subslice data 0 16) (\<lambda>mid.
      go_bind (word_at data 16) (\<lambda>ts.
      go_bind (word_at data 24) (\<lambda>sq.
      go_bind (word_at data 32) (\<lambda>pid.
      go_bind (word_at data 36) (\<lambda>sid.
      go_bind (word_at data 40) (\<lambda>prio.
      go_bind (word_at data 41) (\<lambda>enc.
      go_bind (word_at data 42) (\<lambda>src.
      go_bind (word_at data 43) (\<lambda>flags :: byte.
      go_bind (word_at data 44) (\<lambda>payloadLen :: 32 word.
      go_bind (word_at data 48) (\<lambda>headersLen :: 32 word.
      go_bind (word_at data 52) (\<lambda>topicLen :: 16 word.
      go_bind (word_at data 54) (\<lambda>rkLen :: 16 word.
      go_bind (read_conditional data flags (zero_envelope\<lparr>MessageID := mid, Timestamp := ts, Sequence := sq,
          PartitionID := pid, SchemaID := sid, Priority := prio, Encoding := enc, SourceProto := src\<rparr>)) (\<lambda>e.
      go_bind (read_topic data 64 (unat topicLen) e) (\<lambda>(e, pos).
      go_bind (read_routing_key data pos (unat rkLen) e) (\<lambda>(e, pos).
      go_bind (read_headers data pos (unat headersLen) e) (\<lambda>(e, pos).
      go_bind (read_trace data pos flags e) (\<lambda>(e, pos).
      read_payload data pos (unat payloadLen) e)))))))))))))))))))"

section \<open>Lemmas\<close>

subsection \<open>Unmarshal does not panic\<close>

lemma unmarshalHeaders_safe: "go_wp (\<lambda>_. True) (unmarshalHeaders_from data pos m)"
proof (induction "length data - pos" arbitrary: pos m rule: less_induct)
  case less
  show ?case
  proof (cases "pos + 2 \<le> length data")
    case False
    then show ?thesis by (subst unmarshalHeaders_from.simps) simp
  next
    case True
    then show ?thesis
      by (subst unmarshalHeaders_from.simps) (auto simp: Let_def intro!: go_wp_word_at go_wp_subslice less)
  qed
qed

text \<open>Each reader stays within the data when it starts within it, and fills arrays of the right lengths.\<close>

definition read_upto :: "bytes \<Rightarrow> Envelope \<times> nat \<Rightarrow> bool" where
  "read_upto data = (\<lambda>(e, pos). array_lengths e \<and> pos \<le> length data)"

lemma readers_safe:
  assumes "read_upto data (e, pos)"
  shows "go_wp (read_upto data) (read_topic data pos n e)"
    and "go_wp (read_upto data) (read_routing_key data pos n e)"
    and "go_wp (read_upto data) (read_headers data pos n e)"
    and "go_wp (read_upto data) (read_trace data pos flags e)"
    and "go_wp array_lengths (read_payload data pos n e)"
  using assms
  by (auto simp: read_topic_def read_routing_key_def read_headers_def read_trace_def read_payload_def read_upto_def
      array_lengths_def unmarshalHeaders_def intro!: go_wp_subslice intro: go_wp_mono [OF unmarshalHeaders_safe])

lemma read_conditional_safe:
  "64 \<le> length data \<Longrightarrow> array_lengths e \<Longrightarrow> go_wp array_lengths (read_conditional data flags e)"
  by (auto simp: read_conditional_def array_lengths_def intro!: go_wp_word_at)

lemma Unmarshal_safe: "go_wp array_lengths (Unmarshal data)"
proof (cases "length data < FixedHeaderSize")
  case True
  then show ?thesis by (simp add: Unmarshal_def)
next
  case False
  then have 64: "64 \<le> length data" by (simp add: FixedHeaderSize_def)
  have tail: "go_wp array_lengths (go_bind (read_topic data 64 n e) (\<lambda>(e, pos). go_bind (read_routing_key data pos k e) (\<lambda>(e, pos).
      go_bind (read_headers data pos h e) (\<lambda>(e, pos). go_bind (read_trace data pos flags e) (\<lambda>(e, pos).
      read_payload data pos p e)))))" if "array_lengths e" for n e k h flags p
  proof -
    have "read_upto data (e, 64)" using 64 that by (simp add: read_upto_def)
    then show ?thesis by (auto intro!: go_wp_mono [OF readers_safe(1)] go_wp_mono [OF readers_safe(2)]
          go_wp_mono [OF readers_safe(3)] go_wp_mono [OF readers_safe(4)] readers_safe(5))
  qed
  have "array_lengths (zero_envelope\<lparr>MessageID := mid, Timestamp := ts, Sequence := sq,
          PartitionID := pid, SchemaID := sid, Priority := prio, Encoding := enc, SourceProto := src\<rparr>)"
    if "length mid = 16" for mid ts sq pid sid prio enc src
    using that by (simp add: array_lengths_def zero_envelope_def)
  with 64 show ?thesis
    unfolding Unmarshal_def using False
    by (auto intro!: go_wp_subslice go_wp_word_at go_wp_mono [OF read_conditional_safe]
        tail [THEN go_wp_bind [THEN iffD1]])
qed

subsection \<open>What Marshal writes\<close>

definition header_bytes :: "string \<times> bytes \<Rightarrow> bytes" where
  "header_bytes kv = (case kv of (k, v) \<Rightarrow>
     put_be (word_of_nat (length k) :: 16 word) @ str_bytes k @ put_be (word_of_nat (length v) :: 32 word) @ v)"

definition headers_bytes :: "header_order \<Rightarrow> bytes" where
  "headers_bytes xs = concat (map header_bytes xs)"

lemma headers_size_eq: "headers_size xs = length (headers_bytes xs)"
proof -
  have "fold (\<lambda>(k, v) size. size + (2 + length k + 4 + length v)) xs n = n + length (headers_bytes xs)" for n
    by (induction xs arbitrary: n) (auto simp: headers_bytes_def header_bytes_def)
  then show ?thesis by (simp add: headers_size_def)
qed

lemma written_marshalHeadersTo: "concat (map written (marshalHeadersTo xs)) = headers_bytes xs"
  by (induction xs) (auto simp: marshalHeadersTo_def header_ops_def headers_bytes_def header_bytes_def)

lemma visits_unique:
  assumes "visits xs h" and "visits ys h"
  shows "headers_size xs = headers_size ys"
proof -
  from assms have "set xs = set ys"
    unfolding visits_def by (metis map_of_eq_Some_iff subset_antisym subsetI surj_pair map_of_inject_set)
  moreover from assms have "distinct xs" "distinct ys"
    by (auto simp: visits_def distinct_map)
  ultimately have "sum_list (map (length \<circ> header_bytes) xs) = sum_list (map (length \<circ> header_bytes) ys)"
    by (simp add: sum_list_distinct_conv_sum_set)
  then show ?thesis by (simp add: headers_size_eq headers_bytes_def length_concat)
qed

lemma visits_empty: "visits xs h \<Longrightarrow> dom (hdr_map h) = {} \<longleftrightarrow> xs = []"
  by (auto simp: visits_def)

text \<open>The bytes of a message, the orders of the two loops aside a function of the envelope alone.\<close>

definition wire :: "header_order \<Rightarrow> Envelope \<Rightarrow> bytes" where
  "wire order e = MessageID e @ put_be (Timestamp e) @ put_be (Sequence e) @ put_be (PartitionID e) @ put_be (SchemaID e) @
     put_be (Priority e) @ put_be (Encoding e) @ put_be (SourceProto e) @ put_be (flags_of e) @
     put_be (word_of_nat (length (Payload e)) :: 32 word) @ put_be (word_of_nat (headers_size order) :: 32 word) @
     put_be (word_of_nat (length (Topic e)) :: 16 word) @ put_be (word_of_nat (length (RoutingKey e)) :: 16 word) @
     concat (map written (conditional_field e)) @ str_bytes (Topic e) @ str_bytes (RoutingKey e) @ headers_bytes order @
     (if has_trace e then TraceID e @ SpanID e else []) @ Payload e"

lemma put_be_byte [simp]: "put_be (b :: byte) = [b]"
  using be_put.simps(2) [of 0 b] by (simp add: put_be_def)

lemma length_conditional [simp]: "length (concat (map written (conditional_field e))) = 8"
  by (simp add: conditional_field_def)

lemma written_marshal_ops:
  assumes "visits o1 h" and "visits o2 h"
  shows "concat (map written (marshal_ops (headers_size o1) o2 e)) = wire o2 e"
  using visits_unique [OF assms]
  by (auto simp: marshal_ops_def wire_def written_marshalHeadersTo headers_size_eq str_bytes_def)

lemma length_wire: "array_lengths e \<Longrightarrow> length (wire order e) = EstimateSize order e"
  by (auto simp: wire_def EstimateSize_def FixedHeaderSize_def headers_size_eq array_lengths_def length_conditional [simplified])

definition fits :: "header_order \<Rightarrow> Envelope \<Rightarrow> bool" where
  "fits order e \<longleftrightarrow> length (Topic e) \<le> 65535 \<and> length (RoutingKey e) \<le> 65535 \<and> EstimateSize order e \<le> MaxMessageSize"

lemma fits_payload: "fits order e \<Longrightarrow> length (Payload e) \<le> 16777216"
  by (simp add: fits_def EstimateSize_def MaxMessageSize_def)

lemma Marshal_fits:
  assumes "array_lengths e" and "visits o1 (Headers e)" and "visits o2 (Headers e)"
  shows "Marshal pooled o1 o2 e = (if fits o1 e then Inr (wire o2 e) else
     Inl (Error (if length (Topic e) > 65535 then ''topic name too long'' else if length (RoutingKey e) > 65535 then ''routing key too long''
       else if length (Payload e) > 0xFFFFFFFF then ''payload too large'' else ''message too large'')))"
proof -
  have size: "EstimateSize o1 e = EstimateSize o2 e"
    using visits_unique [OF assms(2,3)] by (simp add: EstimateSize_def)
  define buf where "buf = (if length pooled < EstimateSize o1 e then replicate (EstimateSize o1 e) 0 else take (EstimateSize o1 e) pooled)"
  have len: "length buf = EstimateSize o1 e" by (simp add: buf_def)
  have "run_writes (marshal_ops (headers_size o1) o2 e) (buf, 0) = Inr (wire o2 e, length buf)"
    by (subst run_writes_fill) (simp_all add: written_marshal_ops [OF assms(2,3)] length_wire [OF assms(1)] len size)
  then show ?thesis
    using fits_payload [of o1 e] by (auto simp: Marshal_def Let_def buf_def [symmetric] fits_def)
qed

subsection \<open>What Unmarshal reads back\<close>

definition short_headers :: "header_order \<Rightarrow> bool" where
  "short_headers xs \<longleftrightarrow> list_all (\<lambda>(k, v). length k \<le> 65535 \<and> length v < 4294967296) xs"

lemma unat_of_length16: "n \<le> 65535 \<Longrightarrow> unat (word_of_nat n :: 16 word) = n"
  by (simp add: unat_of_nat)

lemma unat_of_length32: "n < 4294967296 \<Longrightarrow> unat (word_of_nat n :: 32 word) = n"
  by (simp add: unat_of_nat)

lemma word_at_mid:
  "8 dvd LENGTH('a) \<Longrightarrow> length pre = pos \<Longrightarrow> word_at (pre @ put_be (w :: 'a::len word) @ post) pos = Inr w"
  by (simp add: word_at_skip word_at_here)

lemma subslice_mid: "length pre = a \<Longrightarrow> b = a + length xs \<Longrightarrow> subslice (pre @ xs @ post) a b = Inr xs"
  by (simp add: subslice_def)

lemma unmarshal_one_header:
  assumes "length k \<le> 65535" and "length v < 4294967296"
  shows "unmarshalHeaders_from (pre @ header_bytes (k, v) @ post) (length pre) m =
    unmarshalHeaders_from (pre @ header_bytes (k, v) @ post) (length (pre @ header_bytes (k, v))) (m(k \<mapsto> v))"
proof -
  let ?d = "pre @ header_bytes (k, v) @ post"
  define p1 where "p1 = pre @ put_be (word_of_nat (length k) :: 16 word)"
  define p2 where "p2 = p1 @ str_bytes k"
  define p3 where "p3 = p2 @ put_be (word_of_nat (length v) :: 32 word)"
  have len: "length p1 = length pre + 2" "length p2 = length pre + 2 + length k" "length p3 = length pre + 2 + length k + 4"
    by (simp_all add: p1_def p2_def p3_def)
  have d: "?d = pre @ put_be (word_of_nat (length k) :: 16 word) @ (str_bytes k @ put_be (word_of_nat (length v) :: 32 word) @ v @ post)"
    "?d = p1 @ str_bytes k @ (put_be (word_of_nat (length v) :: 32 word) @ v @ post)"
    "?d = p2 @ put_be (word_of_nat (length v) :: 32 word) @ (v @ post)" "?d = p3 @ v @ post"
    by (simp_all add: header_bytes_def p1_def p2_def p3_def)
  have dlen: "length ?d = length pre + 2 + length k + 4 + length v + length post" by (simp add: header_bytes_def)
  have "word_at ?d (length pre) = Inr (word_of_nat (length k) :: 16 word)"
    by (subst d(1), rule word_at_mid) simp_all
  moreover have "subslice ?d (length pre + 2) (length pre + 2 + length k) = Inr (str_bytes k)"
    by (subst d(2), rule subslice_mid) (simp_all add: len)
  moreover have "word_at ?d (length pre + 2 + length k) = Inr (word_of_nat (length v) :: 32 word)"
    by (subst d(3), rule word_at_mid) (simp_all add: len)
  moreover have "subslice ?d (length pre + 2 + length k + 4) (length pre + 2 + length k + 4 + length v) = Inr v"
    by (subst d(4), rule subslice_mid) (simp_all add: len)
  ultimately show ?thesis
    using dlen assms by (subst unmarshalHeaders_from.simps)
      (simp add: Let_def unat_of_length16 unat_of_length32 header_bytes_def ac_simps)
qed

lemma unmarshalHeaders_bytes:
  "short_headers xs \<Longrightarrow> unmarshalHeaders_from (pre @ headers_bytes xs) (length pre) m = Inr (m ++ map_of (rev xs))"
proof (induction xs arbitrary: pre m)
  case Nil
  then show ?case by (subst unmarshalHeaders_from.simps) (simp add: headers_bytes_def)
next
  case (Cons kv xs)
  obtain k v where kv: "kv = (k, v)" by (cases kv)
  have "unmarshalHeaders_from (pre @ headers_bytes (kv # xs)) (length pre) m =
      unmarshalHeaders_from ((pre @ header_bytes (k, v)) @ headers_bytes xs) (length (pre @ header_bytes (k, v))) (m(k \<mapsto> v))"
    using Cons.prems unmarshal_one_header [of k v pre "headers_bytes xs" m]
    by (simp add: kv short_headers_def headers_bytes_def)
  also have "\<dots> = Inr (m(k \<mapsto> v) ++ map_of (rev xs))"
    using Cons.prems by (intro Cons.IH) (simp add: short_headers_def)
  finally show ?case by (simp add: kv)
qed

lemma unmarshalHeaders_visits:
  assumes "visits xs h" and "short_headers xs"
  shows "unmarshalHeaders (headers_bytes xs) = Inr (hdr_map h)"
  using unmarshalHeaders_bytes [OF assms(2), of "[]" Map.empty] assms(1)
  by (simp add: unmarshalHeaders_def visits_def map_of_rev_distinct)

text \<open>The flags are independent bits.\<close>

lemma flags_of_bits:
  "flags_of e AND FlagHasHeaders \<noteq> 0 \<longleftrightarrow> dom (hdr_map (Headers e)) \<noteq> {}"
  "flags_of e AND FlagHasRoutingKey \<noteq> 0 \<longleftrightarrow> RoutingKey e \<noteq> ''''"
  "flags_of e AND FlagHasTrace \<noteq> 0 \<longleftrightarrow> has_trace e"
  "flags_of e AND FlagHasTTL \<noteq> 0 \<longleftrightarrow> 0 <s TTL e"
  "flags_of e AND FlagHasDelay \<noteq> 0 \<longleftrightarrow> 0 <s DeliverAt e"
  by (simp_all add: flags_of_def FlagHasHeaders_def FlagHasRoutingKey_def FlagHasTrace_def FlagHasTTL_def FlagHasDelay_def)

text \<open>What survives: not the content type, of the lifetime, the delay and the retry counts only
  the first that is set, no empty map of headers, and no span without a trace.\<close>

definition on_wire :: "Envelope \<Rightarrow> Envelope" where
  "on_wire e = e\<lparr>ContentType := '''',
     Headers := (if dom (hdr_map (Headers e)) = {} then None else Headers e),
     TTL := (if 0 <s TTL e then TTL e else 0),
     DeliverAt := (if \<not> 0 <s TTL e \<and> 0 <s DeliverAt e then DeliverAt e else 0),
     DeliverCount := (if 0 <s TTL e \<or> 0 <s DeliverAt e then 0 else DeliverCount e),
     MaxRetries := (if 0 <s TTL e \<or> 0 <s DeliverAt e then 0 else MaxRetries e),
     SpanID := (if has_trace e then SpanID e else replicate 8 0)\<rparr>"

definition fixed_part :: "header_order \<Rightarrow> Envelope \<Rightarrow> bytes" where
  "fixed_part order e = MessageID e @ put_be (Timestamp e) @ put_be (Sequence e) @ put_be (PartitionID e) @ put_be (SchemaID e) @
     put_be (Priority e) @ put_be (Encoding e) @ put_be (SourceProto e) @ put_be (flags_of e) @
     put_be (word_of_nat (length (Payload e)) :: 32 word) @ put_be (word_of_nat (headers_size order) :: 32 word) @
     put_be (word_of_nat (length (Topic e)) :: 16 word) @ put_be (word_of_nat (length (RoutingKey e)) :: 16 word) @
     concat (map written (conditional_field e))"

definition trace_part :: "Envelope \<Rightarrow> bytes" where
  "trace_part e = (if has_trace e then TraceID e @ SpanID e else [])"

lemma wire_parts:
  "wire order e = fixed_part order e @ str_bytes (Topic e) @ str_bytes (RoutingKey e) @ headers_bytes order @ trace_part e @ Payload e"
  by (simp add: wire_def fixed_part_def trace_part_def)

lemma length_fixed_part: "array_lengths e \<Longrightarrow> length (fixed_part order e) = 64"
  using length_conditional [of e] by (simp add: fixed_part_def array_lengths_def del: length_conditional)

lemmas wire_reads = word_at_skip word_at_here subslice_skip subslice_here

lemma fixed_reads:
  assumes "array_lengths e"
  shows "subslice (fixed_part order e @ rest) 0 16 = Inr (MessageID e)"
    and "word_at (fixed_part order e @ rest) 16 = Inr (Timestamp e)"
    and "word_at (fixed_part order e @ rest) 24 = Inr (Sequence e)"
    and "word_at (fixed_part order e @ rest) 32 = Inr (PartitionID e)"
    and "word_at (fixed_part order e @ rest) 36 = Inr (SchemaID e)"
    and "word_at (fixed_part order e @ rest) 40 = Inr (Priority e)"
    and "word_at (fixed_part order e @ rest) 41 = Inr (Encoding e)"
    and "word_at (fixed_part order e @ rest) 42 = Inr (SourceProto e)"
    and "word_at (fixed_part order e @ rest) 43 = Inr (flags_of e)"
    and "word_at (fixed_part order e @ rest) 44 = Inr (word_of_nat (length (Payload e)) :: 32 word)"
    and "word_at (fixed_part order e @ rest) 48 = Inr (word_of_nat (headers_size order) :: 32 word)"
    and "word_at (fixed_part order e @ rest) 52 = Inr (word_of_nat (length (Topic e)) :: 16 word)"
    and "word_at (fixed_part order e @ rest) 54 = Inr (word_of_nat (length (RoutingKey e)) :: 16 word)"
  using assms by (simp_all add: fixed_part_def array_lengths_def wire_reads del: put_be_byte)

lemma read_conditional_wire:
  assumes "array_lengths e"
  shows "read_conditional (fixed_part order e @ rest) (flags_of e) x =
    Inr (if 0 <s TTL e then x\<lparr>TTL := TTL e\<rparr> else if 0 <s DeliverAt e then x\<lparr>DeliverAt := DeliverAt e\<rparr>
      else x\<lparr>DeliverCount := DeliverCount e, MaxRetries := MaxRetries e\<rparr>)"
  using assms flags_of_bits(4,5) [of e]
  by (simp add: fixed_part_def array_lengths_def read_conditional_def conditional_field_def wire_reads del: put_be_byte)

lemma Unmarshal_wire:
  assumes "array_lengths e" and "visits order (Headers e)" and "short_headers order" and "fits order e"
  shows "Unmarshal (wire order e) = Inr (on_wire e)"
proof -
  have lens: "length (Topic e) \<le> 65535" "length (RoutingKey e) \<le> 65535" "headers_size order < 4294967296" "length (Payload e) < 4294967296"
    using assms(4) fits_payload [OF assms(4)] by (simp_all add: fits_def EstimateSize_def MaxMessageSize_def)
  define p1 where "p1 = fixed_part order e @ str_bytes (Topic e)"
  define p2 where "p2 = p1 @ str_bytes (RoutingKey e)"
  define p3 where "p3 = p2 @ headers_bytes order"
  define p4 where "p4 = p3 @ trace_part e"
  have len64: "length (fixed_part order e) = 64" by (rule length_fixed_part [OF assms(1)])
  have w: "wire order e = fixed_part order e @ str_bytes (Topic e) @ (str_bytes (RoutingKey e) @ headers_bytes order @ trace_part e @ Payload e)"
    "wire order e = p1 @ str_bytes (RoutingKey e) @ (headers_bytes order @ trace_part e @ Payload e)"
    "wire order e = p2 @ headers_bytes order @ (trace_part e @ Payload e)" "wire order e = p3 @ trace_part e @ Payload e"
    "wire order e = p4 @ Payload e"
    by (simp_all add: wire_parts p1_def p2_def p3_def p4_def)
  have topic: "read_topic (wire order e) 64 (length (Topic e)) x = Inr (x\<lparr>Topic := Topic e\<rparr>, length p1)" for x
    using len64 by (simp add: w(1) read_topic_def subslice_def p1_def)
  have rk: "read_routing_key (wire order e) (length p1) (length (RoutingKey e)) x =
      Inr (if RoutingKey e = '''' then x else x\<lparr>RoutingKey := RoutingKey e\<rparr>, length p2)" for x
    by (simp add: w(2) read_routing_key_def subslice_def p2_def)
  have hd: "read_headers (wire order e) (length p2) (headers_size order) x =
      Inr (if order = [] then x else x\<lparr>Headers := Some (hdr_map (Headers e))\<rparr>, length p3)" for x
  proof (cases "order = []")
    case True
    then show ?thesis by (simp add: read_headers_def headers_size_eq headers_bytes_def p3_def)
  next
    case False
    then have "headers_size order > 0" by (cases order) (simp_all add: headers_size_eq headers_bytes_def header_bytes_def split_beta del: length_greater_0_conv)
    with False show ?thesis using unmarshalHeaders_visits [OF assms(2,3)]
      by (simp add: w(3) read_headers_def subslice_def p3_def headers_size_eq)
  qed
  have tr: "read_trace (wire order e) (length p3) (flags_of e) x =
      Inr (if has_trace e then x\<lparr>TraceID := TraceID e, SpanID := SpanID e\<rparr> else x, length p4)" for x
    using assms(1) flags_of_bits(3) [of e]
    by (simp add: w(4) read_trace_def subslice_def p4_def trace_part_def array_lengths_def)
  have pl: "read_payload (wire order e) (length p4) (length (Payload e)) x = Inr (x\<lparr>Payload := Payload e\<rparr>)" for x
    by (simp add: w(5) read_payload_def subslice_def)
  have long: "\<not> length (wire order e) < FixedHeaderSize" by (simp add: w(1) len64 FixedHeaderSize_def)
  define rest where "rest = str_bytes (Topic e) @ (str_bytes (RoutingKey e) @ headers_bytes order @ trace_part e @ Payload e)"
  have w0: "wire order e = fixed_part order e @ rest" by (simp add: w(1) rest_def)
  note fixed = fixed_reads [OF assms(1), of order rest, folded w0] read_conditional_wire [OF assms(1), of order rest, folded w0]
  have "Unmarshal (wire order e) = Inr (let
      x = zero_envelope\<lparr>MessageID := MessageID e, Timestamp := Timestamp e, Sequence := Sequence e, PartitionID := PartitionID e,
        SchemaID := SchemaID e, Priority := Priority e, Encoding := Encoding e, SourceProto := SourceProto e\<rparr>;
      x = (if 0 <s TTL e then x\<lparr>TTL := TTL e\<rparr> else if 0 <s DeliverAt e then x\<lparr>DeliverAt := DeliverAt e\<rparr>
        else x\<lparr>DeliverCount := DeliverCount e, MaxRetries := MaxRetries e\<rparr>)\<lparr>Topic := Topic e\<rparr>;
      x = (if RoutingKey e = '''' then x else x\<lparr>RoutingKey := RoutingKey e\<rparr>);
      x = (if order = [] then x else x\<lparr>Headers := Some (hdr_map (Headers e))\<rparr>);
      x = (if has_trace e then x\<lparr>TraceID := TraceID e, SpanID := SpanID e\<rparr> else x)
      in x\<lparr>Payload := Payload e\<rparr>)"
    unfolding Unmarshal_def using long
    by (simp add: fixed unat_of_length16 [OF lens(1)] unat_of_length16 [OF lens(2)] unat_of_length32 [OF lens(3)]
        unat_of_length32 [OF lens(4)] topic rk hd tr pl Let_def)
  also have "\<dots> = Inr (on_wire e)"
    using visits_empty [OF assms(2)]
    by (auto simp: Let_def on_wire_def zero_envelope_def has_trace_def hdr_map_def split: option.splits)
  finally show ?thesis .
qed

text \<open>Keys longer than a length field can say are accepted and come back as other headers.\<close>

definition short_keys :: "(string \<Rightarrow> bytes option) \<Rightarrow> bool" where
  "short_keys m \<longleftrightarrow> (\<forall>k \<in> dom m. length k \<le> 65535)"

lemma short_keys_upd: "short_keys m \<Longrightarrow> length k \<le> 65535 \<Longrightarrow> short_keys (m(k \<mapsto> v))"
  by (auto simp: short_keys_def)

lemma unmarshalHeaders_short_keys: "short_keys m \<Longrightarrow> go_wp short_keys (unmarshalHeaders_from data pos m)"
proof (induction "length data - pos" arbitrary: pos m rule: less_induct)
  case less
  have key: "unat (w :: 16 word) \<le> 65535" for w
  proof -
    have "unat w < 2 ^ LENGTH(16)" by (rule unsigned_less)
    then show ?thesis by simp
  qed
  show ?case
  proof (cases "pos + 2 \<le> length data")
    case False
    with less.prems show ?thesis by (subst unmarshalHeaders_from.simps) auto
  next
    case True
    with less.prems key show ?thesis
      by (subst unmarshalHeaders_from.simps) (auto simp: Let_def intro!: go_wp_word_at go_wp_subslice less.hyps short_keys_upd)
  qed
qed

section \<open>Properties\<close>

text \<open>C6: A message that Marshal accepts is read back by Unmarshal with the fields that \<open>on_wire\<close> keeps,
  whatever the pooled buffer held before and in whatever order the headers are visited.\<close>

theorem marshal_round_trip:
  assumes "array_lengths e" and "visits o1 (Headers e)" and "visits o2 (Headers e)" and "short_headers o2"
    and "Marshal pooled o1 o2 e = Inr data"
  shows "Unmarshal data = Inr (on_wire e) \<and> Marshal pooled' o1 o2 e = Inr data \<and> length data = EstimateSize o1 e"
proof -
  note m = Marshal_fits [OF assms(1-3)]
  from assms(5) m have fits: "fits o1 e" and data: "data = wire o2 e" by (auto split: if_splits)
  have size: "EstimateSize o1 e = EstimateSize o2 e"
    using visits_unique [OF assms(2,3)] by (simp add: EstimateSize_def)
  have "fits o2 e" using fits by (simp add: fits_def size)
  with fits show ?thesis
    using Unmarshal_wire [OF assms(1,3,4)] length_wire [OF assms(1)] by (simp add: m data size)
qed

definition envelope_ex :: Envelope where
  "envelope_ex = zero_envelope\<lparr>Topic := ''orders'', Headers := Some [''k'' \<mapsto> [1, 2, 3]], ContentType := ''text'',
     Payload := [7, 8], TTL := 5, MaxRetries := 3\<rparr>"

theorem marshal_round_trip_witness:
  "\<exists>data. Marshal [9, 9, 9] [(''k'', [1, 2, 3])] [(''k'', [1, 2, 3])] envelope_ex = Inr data \<and>
     Unmarshal data = Inr (envelope_ex\<lparr>ContentType := '''', MaxRetries := 0\<rparr>)"
proof -
  have a: "array_lengths envelope_ex" by (simp add: array_lengths_def envelope_ex_def zero_envelope_def)
  have v: "visits [(''k'', [1, 2, 3])] (Headers envelope_ex)"
    by (simp add: visits_def envelope_ex_def hdr_map_def zero_envelope_def)
  have s: "short_headers [(''k'', [1, 2, 3])]" by (simp add: short_headers_def)
  have "fits [(''k'', [1, 2, 3])] envelope_ex"
    by (simp add: fits_def EstimateSize_def envelope_ex_def zero_envelope_def headers_size_def MaxMessageSize_def FixedHeaderSize_def has_trace_def)
  then obtain data where d: "Marshal [9, 9, 9] [(''k'', [1, 2, 3])] [(''k'', [1, 2, 3])] envelope_ex = Inr data"
    using Marshal_fits [OF a v v] by auto
  have "on_wire envelope_ex = envelope_ex\<lparr>ContentType := '''', MaxRetries := 0\<rparr>"
    by (simp add: on_wire_def envelope_ex_def zero_envelope_def hdr_map_def has_trace_def word_sless_alt)
  with d marshal_round_trip [OF a v v s d] show ?thesis by auto
qed

text \<open>C35: Unmarshal panics on no input, and the arrays of the envelope it returns are filled.\<close>

theorem unmarshal_never_panics:
  "Unmarshal data \<noteq> Inl Panic \<and> (case Unmarshal data of Inr e \<Rightarrow> array_lengths e | Inl _ \<Rightarrow> True)"
  using Unmarshal_safe [of data] by (auto simp: go_wp_iff split: sum.splits)


end
