(* ===== verification/Json.thy ===== *)
theory Json
  imports Prelude
begin

text \<open>
  The two JSON functions of the JavaScript library that the dashboard calls:
  \<^verbatim>\<open>JSON.stringify\<close> (request bodies, saved settings) and \<^verbatim>\<open>JSON.parse\<close> (saved settings).
  \<open>JSON_parse\<close> is a recursive-descent parser of the JSON grammar; \<open>None\<close> is the SyntaxError
  it throws.  An escape that denotes a code unit above 255 is outside the model.  The fuel of
  \<open>parse_value\<close> bounds the nesting; \<open>JSON_parse\<close> supplies twice the length of the text, which
  \<open>JSON_parse_stringify\<close> shows to be enough for every printed value.
\<close>

section \<open>Printing\<close>

definition hex_digit :: "nat \<Rightarrow> char" where
  "hex_digit d = ''0123456789abcdef'' ! (d mod 16)"

definition esc_char :: "char \<Rightarrow> string" where
  "esc_char c =
     (if c = CHR 0x22 then [CHR 0x5C, CHR 0x22]
      else if c = CHR 0x5C then [CHR 0x5C, CHR 0x5C]
      else if c = CHR 0x08 then [CHR 0x5C, CHR ''b'']
      else if c = CHR 0x0C then [CHR 0x5C, CHR ''f'']
      else if c = CHR 0x0A then [CHR 0x5C, CHR ''n'']
      else if c = CHR 0x0D then [CHR 0x5C, CHR ''r'']
      else if c = CHR 0x09 then [CHR 0x5C, CHR ''t'']
      else if (of_char c :: nat) < 32
        then [CHR 0x5C, CHR ''u'', CHR ''0'', CHR ''0'', hex_digit (of_char c div 16), hex_digit (of_char c)]
      else [c])"

definition quote_str :: "string \<Rightarrow> string" where
  "quote_str s = [CHR 0x22] @ concat (map esc_char s) @ [CHR 0x22]"

fun join :: "string \<Rightarrow> string list \<Rightarrow> string" where
  "join sep [] = []"
| "join sep [x] = x"
| "join sep (x # y # xs) = x @ sep @ join sep (y # xs)"

fun JSON_stringify :: "json \<Rightarrow> string" where
  "JSON_stringify JNull = ''null''"
| "JSON_stringify (JBool b) = (if b then ''true'' else ''false'')"
| "JSON_stringify (JNum i) = show_int i"
| "JSON_stringify (JFrac l) = l"
| "JSON_stringify (JStr s) = quote_str s"
| "JSON_stringify (JArr vs) = ''['' @ join '','' (map JSON_stringify vs) @ '']''"
| "JSON_stringify (JObj kvs) =
     ''{'' @ join '','' (map (\<lambda>(k, v). quote_str k @ '':'' @ JSON_stringify v) kvs) @ ''}''"

text \<open>\<open>JSON.stringify(v, null, 2)\<close>: \<open>ind\<close> is the line break with the current indentation.\<close>

fun JSON_pretty :: "string \<Rightarrow> json \<Rightarrow> string" where
  "JSON_pretty ind (JArr vs) =
     (if vs = [] then ''[]''
      else ''['' @ ind @ ''  '' @ join ('','' @ ind @ ''  '') (map (JSON_pretty (ind @ ''  '')) vs) @ ind @ '']'')"
| "JSON_pretty ind (JObj kvs) =
     (if kvs = [] then ''{}''
      else ''{'' @ ind @ ''  '' @
        join ('','' @ ind @ ''  '') (map (\<lambda>(k, v). quote_str k @ '': '' @ JSON_pretty (ind @ ''  '') v) kvs) @ ind @ ''}'')"
| "JSON_pretty ind JNull = ''null''"
| "JSON_pretty ind (JBool b) = (if b then ''true'' else ''false'')"
| "JSON_pretty ind (JNum i) = show_int i"
| "JSON_pretty ind (JFrac l) = l"
| "JSON_pretty ind (JStr s) = quote_str s"

definition JSON_stringify2 :: "json \<Rightarrow> string" where
  "JSON_stringify2 v = JSON_pretty [CHR 0x0A] v"

section \<open>Parsing\<close>

definition is_ws :: "char \<Rightarrow> bool" where
  "is_ws c \<longleftrightarrow> c = CHR 0x20 \<or> c = CHR 0x0A \<or> c = CHR 0x0D \<or> c = CHR 0x09"

definition skip_ws :: "string \<Rightarrow> string" where
  "skip_ws s = dropWhile is_ws s"

definition is_digit :: "char \<Rightarrow> bool" where
  "is_digit c \<longleftrightarrow> 48 \<le> (of_char c :: nat) \<and> (of_char c :: nat) \<le> 57"

definition digit_val :: "char \<Rightarrow> nat" where
  "digit_val c = of_char c - 48"

definition read_nat :: "string \<Rightarrow> nat" where
  "read_nat s = foldl (\<lambda>n c. 10 * n + digit_val c) 0 s"

text \<open>The integer part of a JSON number: digits with no leading zero.\<close>

definition int_part :: "string \<Rightarrow> bool" where
  "int_part s \<longleftrightarrow> s \<noteq> [] \<and> list_all is_digit s \<and> (hd s = CHR ''0'' \<longrightarrow> length s = 1)"

definition strip_minus :: "string \<Rightarrow> string" where
  "strip_minus s = (case s of c # s' \<Rightarrow> if c = CHR ''-'' then s' else s | [] \<Rightarrow> [])"

definition int_lexeme :: "string \<Rightarrow> bool" where
  "int_lexeme s \<longleftrightarrow> int_part (strip_minus s)"

definition read_int :: "string \<Rightarrow> int" where
  "read_int s = (if s \<noteq> [] \<and> hd s = CHR ''-'' then - int (read_nat (tl s)) else int (read_nat s))"

definition exponent :: "string \<Rightarrow> bool" where
  "exponent s = (case s of
      [] \<Rightarrow> True
    | e # r \<Rightarrow> (e = CHR ''e'' \<or> e = CHR ''E'') \<and>
        (let r' = (case r of c # t \<Rightarrow> if c = CHR ''+'' \<or> c = CHR ''-'' then t else r | [] \<Rightarrow> [])
         in r' \<noteq> [] \<and> list_all is_digit r'))"

definition frac_lexeme :: "string \<Rightarrow> bool" where
  "frac_lexeme s \<longleftrightarrow>
     (let t = strip_minus s; r = dropWhile is_digit t in
      int_part (takeWhile is_digit t) \<and> r \<noteq> [] \<and>
      (if hd r = CHR ''.''
       then takeWhile is_digit (tl r) \<noteq> [] \<and> exponent (dropWhile is_digit (tl r))
       else exponent r))"

definition num_char :: "char \<Rightarrow> bool" where
  "num_char c \<longleftrightarrow> is_digit c \<or> c \<in> set ''+-.eE''"

definition parse_number :: "string \<Rightarrow> (json \<times> string) option" where
  "parse_number s =
     (let l = takeWhile num_char s; r = dropWhile num_char s in
      if int_lexeme l then Some (JNum (read_int l), r)
      else if frac_lexeme l then Some (JFrac l, r)
      else None)"

definition hex_val :: "char \<Rightarrow> nat option" where
  "hex_val c = (let n = (of_char c :: nat) in
     if 48 \<le> n \<and> n \<le> 57 then Some (n - 48)
     else if 97 \<le> n \<and> n \<le> 102 then Some (n - 87)
     else if 65 \<le> n \<and> n \<le> 70 then Some (n - 55)
     else None)"

definition unicode_esc :: "char \<Rightarrow> char \<Rightarrow> char \<Rightarrow> char \<Rightarrow> char option" where
  "unicode_esc a b c d =
     (case (hex_val a, hex_val b, hex_val c, hex_val d) of
        (Some 0, Some 0, Some h, Some l) \<Rightarrow> Some (char_of (16 * h + l))
      | _ \<Rightarrow> None)"

definition simple_esc :: "char \<Rightarrow> char option" where
  "simple_esc e = map_of
     [(CHR 0x22, CHR 0x22), (CHR 0x5C, CHR 0x5C), (CHR 0x2F, CHR 0x2F), (CHR ''b'', CHR 0x08),
      (CHR ''f'', CHR 0x0C), (CHR ''n'', CHR 0x0A), (CHR ''r'', CHR 0x0D), (CHR ''t'', CHR 0x09)] e"

definition cons_fst :: "'a \<Rightarrow> ('a list \<times> 'b) option \<Rightarrow> ('a list \<times> 'b) option" where
  "cons_fst x r = map_option (\<lambda>(xs, t). (x # xs, t)) r"

text \<open>The characters of a string literal up to its closing quote.\<close>

fun parse_chars :: "string \<Rightarrow> (string \<times> string) option" where
  "parse_chars [] = None"
| "parse_chars (c # s) =
     (if c = CHR 0x22 then Some ([], s)
      else if (of_char c :: nat) < 32 then None
      else if c = CHR 0x5C then
        (case s of
           e # h1 # h2 # h3 # h4 # t \<Rightarrow>
             (if e = CHR ''u''
              then (case unicode_esc h1 h2 h3 h4 of None \<Rightarrow> None | Some x \<Rightarrow> cons_fst x (parse_chars t))
              else (case simple_esc e of None \<Rightarrow> None
                    | Some x \<Rightarrow> cons_fst x (parse_chars (h1 # h2 # h3 # h4 # t))))
         | e # t \<Rightarrow> (case simple_esc e of None \<Rightarrow> None | Some x \<Rightarrow> cons_fst x (parse_chars t))
         | [] \<Rightarrow> None)
      else cons_fst c (parse_chars s))"

fun parse_value :: "nat \<Rightarrow> string \<Rightarrow> (json \<times> string) option"
and parse_elems :: "nat \<Rightarrow> string \<Rightarrow> (json list \<times> string) option"
and parse_members :: "nat \<Rightarrow> string \<Rightarrow> ((string \<times> json) list \<times> string) option" where
  "parse_value 0 s = None"
| "parse_value (Suc n) s =
     (case skip_ws s of
        [] \<Rightarrow> None
      | c # r \<Rightarrow>
          if c = CHR 0x22 then map_option (\<lambda>(x, t). (JStr x, t)) (parse_chars r)
          else if c = CHR ''['' then
            (if prefix '']'' (skip_ws r) then Some (JArr [], tl (skip_ws r))
             else map_option (\<lambda>(vs, t). (JArr vs, t)) (parse_elems n r))
          else if c = CHR ''{'' then
            (if prefix ''}'' (skip_ws r) then Some (JObj [], tl (skip_ws r))
             else map_option (\<lambda>(kvs, t). (JObj (spread [] kvs), t)) (parse_members n r))
          else if prefix ''null'' (c # r) then Some (JNull, drop 3 r)
          else if prefix ''true'' (c # r) then Some (JBool True, drop 3 r)
          else if prefix ''false'' (c # r) then Some (JBool False, drop 4 r)
          else parse_number (c # r))"
| "parse_elems 0 s = None"
| "parse_elems (Suc n) s =
     (case parse_value n s of
        None \<Rightarrow> None
      | Some (v, r) \<Rightarrow>
          (case skip_ws r of
             [] \<Rightarrow> None
           | c # t \<Rightarrow> if c = CHR '','' then cons_fst v (parse_elems n t)
                     else if c = CHR '']'' then Some ([v], t) else None))"
| "parse_members 0 s = None"
| "parse_members (Suc n) s =
     (case skip_ws s of
        [] \<Rightarrow> None
      | q # s1 \<Rightarrow> if q \<noteq> CHR 0x22 then None else
          (case parse_chars s1 of
             None \<Rightarrow> None
           | Some (k, s2) \<Rightarrow>
               (case skip_ws s2 of
                  [] \<Rightarrow> None
                | col # s3 \<Rightarrow> if col \<noteq> CHR '':'' then None else
                    (case parse_value n s3 of
                       None \<Rightarrow> None
                     | Some (v, r) \<Rightarrow>
                         (case skip_ws r of
                            [] \<Rightarrow> None
                          | c # t \<Rightarrow> if c = CHR '','' then cons_fst (k, v) (parse_members n t)
                                    else if c = CHR ''}'' then Some ([(k, v)], t) else None)))))"

definition JSON_parse :: "string \<Rightarrow> json option" where
  "JSON_parse s =
     (case parse_value (2 * length s + 2) s of
        Some (v, r) \<Rightarrow> if skip_ws r = [] then Some v else None
      | None \<Rightarrow> None)"


section \<open>Strings round-trip\<close>

lemma hex_val_hex_digit: "hex_val (hex_digit d) = Some (d mod 16)"
proof -
  have "list_all (\<lambda>d. hex_val (''0123456789abcdef'' ! d) = Some d) [0..<16]" by code_simp
  then show ?thesis unfolding hex_digit_def by (rule upt_all) simp
qed

lemma parse_chars_simple:
  assumes "e \<noteq> CHR ''u''"
  shows "parse_chars (CHR 0x5C # e # t) =
    (case simple_esc e of None \<Rightarrow> None | Some x \<Rightarrow> cons_fst x (parse_chars t))"
  using assms by (auto split: list.split)

lemma unicode_esc_ctrl:
  assumes "(of_char c :: nat) < 32"
  shows "unicode_esc (CHR ''0'') (CHR ''0'') (hex_digit (of_char c div 16)) (hex_digit (of_char c)) = Some c"
proof -
  have "16 * ((of_char c :: nat) div 16 mod 16) + of_char c mod 16 = (of_char c :: nat)"
    using assms by simp
  moreover have "hex_val (CHR ''0'') = Some 0" by (simp add: hex_val_def)
  ultimately show ?thesis by (simp add: unicode_esc_def hex_val_hex_digit)
qed

lemma parse_chars_esc: "parse_chars (esc_char c @ t) = cons_fst c (parse_chars t)"
proof -
  have s: "simple_esc (CHR 0x22) = Some (CHR 0x22)" "simple_esc (CHR 0x5C) = Some (CHR 0x5C)"
    "simple_esc (CHR ''b'') = Some (CHR 0x08)" "simple_esc (CHR ''f'') = Some (CHR 0x0C)"
    "simple_esc (CHR ''n'') = Some (CHR 0x0A)" "simple_esc (CHR ''r'') = Some (CHR 0x0D)"
    "simple_esc (CHR ''t'') = Some (CHR 0x09)"
    by (simp_all add: simple_esc_def)
  show ?thesis
    unfolding esc_char_def
    by (simp add: parse_chars_simple s unicode_esc_ctrl del: parse_chars.simps(2))
       (simp add: unicode_esc_ctrl)
qed

lemma parse_chars_quoted: "parse_chars (concat (map esc_char s) @ CHR 0x22 # r) = Some (s, r)"
  by (induction s) (simp_all add: parse_chars_esc cons_fst_def del: parse_chars.simps(2), simp)

section \<open>Numbers round-trip\<close>

lemma digit_char_is_digit: "is_digit (digit_char d)" and digit_val_digit_char: "digit_val (digit_char d) = d mod 10"
proof -
  have "list_all (\<lambda>d. is_digit (''0123456789'' ! d) \<and> digit_val (''0123456789'' ! d) = d) [0..<10]"
    by code_simp
  then have "is_digit (digit_char d) \<and> digit_val (digit_char d) = d mod 10"
    unfolding digit_char_def by (rule upt_all) simp
  then show "is_digit (digit_char d)" "digit_val (digit_char d) = d mod 10" by auto
qed

lemma show_nat_is_digit: "list_all is_digit (show_nat n)"
  by (induction n rule: show_nat.induct) (subst show_nat.simps, simp add: digit_char_is_digit)

lemma read_nat_show_nat: "read_nat (show_nat n) = n"
proof (induction n rule: show_nat.induct)
  case (1 n)
  then show ?case
    by (subst show_nat.simps) (simp add: read_nat_def digit_val_digit_char)
qed

lemma hd_show_nat: "hd (show_nat n) = CHR ''0'' \<Longrightarrow> n = 0"
proof (induction n rule: show_nat.induct)
  case (1 n)
  show ?case
  proof (cases "n < 10")
    case True
    with "1.prems" have "digit_char n = CHR ''0''" by (simp add: show_nat.simps [of n])
    then have "digit_val (digit_char n) = digit_val (CHR ''0'')" by simp
    with True show ?thesis by (simp add: digit_val_digit_char) (simp add: digit_val_def)
  next
    case False
    then have "hd (show_nat n) = hd (show_nat (n div 10))"
      by (simp add: show_nat.simps [of n] hd_append)
    with 1 False have "n div 10 = 0" by simp
    with False show ?thesis by simp
  qed
qed

lemma int_part_show_nat: "int_part (show_nat n)"
proof -
  have "length (show_nat 0) = 1" by (simp add: show_nat.simps)
  then show ?thesis unfolding int_part_def using show_nat_is_digit hd_show_nat by auto
qed

lemma hd_show_nat_not_minus: "hd (show_nat n) \<noteq> CHR ''-''"
proof -
  obtain c s where "show_nat n = c # s" by (cases "show_nat n") simp_all
  with show_nat_is_digit [of n] show ?thesis by (auto simp: is_digit_def)
qed

lemma show_int_lexeme: "int_lexeme (show_int i) \<and> read_int (show_int i) = i"
proof (cases "i < 0")
  case True
  then show ?thesis
    by (simp add: show_int_def int_lexeme_def strip_minus_def int_part_show_nat read_int_def read_nat_show_nat)
next
  case False
  have "strip_minus (show_nat (nat i)) = show_nat (nat i)"
    using hd_show_nat_not_minus [of "nat i"] by (auto simp: strip_minus_def split: list.split)
  with False show ?thesis
    using hd_show_nat_not_minus [of "nat i"]
    by (simp add: show_int_def int_lexeme_def int_part_show_nat read_int_def read_nat_show_nat)
qed

definition delimited :: "string \<Rightarrow> bool" where
  "delimited r \<longleftrightarrow> r = [] \<or> \<not> num_char (hd r)"

lemma show_int_num_char: "list_all num_char (show_int i)"
  using show_nat_is_digit [of "nat i"] show_nat_is_digit [of "nat (- i)"]
  by (auto simp: show_int_def num_char_def list_all_iff)

lemma take_num: "list_all num_char l \<Longrightarrow> delimited r \<Longrightarrow>
    takeWhile num_char (l @ r) = l \<and> dropWhile num_char (l @ r) = r"
  by (cases r) (auto simp: delimited_def list_all_iff)

lemma parse_number_show_int: "delimited r \<Longrightarrow> parse_number (show_int i @ r) = Some (JNum i, r)"
  using take_num [OF show_int_num_char [of i]] show_int_lexeme [of i]
  by (simp add: parse_number_def)

section \<open>Values round-trip\<close>

text \<open>Values that printing keeps apart: distinct object keys, well-formed numerals.\<close>

fun wf_json :: "json \<Rightarrow> bool" where
  "wf_json (JFrac l) = (frac_lexeme l \<and> \<not> int_lexeme l \<and> list_all num_char l \<and> l \<noteq> [])"
| "wf_json (JArr vs) = list_all wf_json vs"
| "wf_json (JObj kvs) = (distinct (map fst kvs) \<and> list_all (\<lambda>(k, v). wf_json v) kvs)"
| "wf_json _ = True"

definition fuels :: "nat list \<Rightarrow> nat" where
  "fuels ms = foldr (\<lambda>m a. Suc (Suc (max m a))) ms 0"

fun fuel :: "json \<Rightarrow> nat" where
  "fuel (JArr vs) = fuels (map fuel vs)"
| "fuel (JObj kvs) = fuels (map (\<lambda>(k, v). fuel v) kvs)"
| "fuel _ = 0"

definition starts_value :: "string \<Rightarrow> bool" where
  "starts_value s \<longleftrightarrow> s \<noteq> [] \<and> \<not> is_ws (hd s) \<and> hd s \<noteq> CHR '']'' \<and> hd s \<noteq> CHR ''}''"

lemma num_char_starts: "l \<noteq> [] \<Longrightarrow> list_all num_char l \<Longrightarrow> starts_value l"
  by (cases l) (auto simp: starts_value_def is_ws_def num_char_def is_digit_def)

lemma show_int_nonempty [simp]: "show_int i \<noteq> []"
  by (simp add: show_int_def)

lemma starts_stringify: "wf_json v \<Longrightarrow> starts_value (JSON_stringify v)"
proof (cases v)
  case (JNum i)
  then show ?thesis using num_char_starts [OF _ show_int_num_char [of i]] by simp
next
  case (JFrac l)
  moreover assume "wf_json v"
  ultimately show ?thesis using num_char_starts [of l] by simp
qed (auto simp: starts_value_def is_ws_def quote_str_def)

lemma skip_ws_starts: "starts_value s \<Longrightarrow> skip_ws (s @ r) = s @ r"
  by (cases s) (auto simp: starts_value_def skip_ws_def)

lemma skip_ws_other [simp]: "\<not> is_ws c \<Longrightarrow> skip_ws (c # r) = c # r"
  by (simp add: skip_ws_def)

lemma not_ws [simp]: "\<not> is_ws (CHR '','')" "\<not> is_ws (CHR '']'')" "\<not> is_ws (CHR ''}'')"
    "\<not> is_ws (CHR '':'')" "\<not> is_ws (CHR 0x22)" "\<not> is_ws (CHR ''['')" "\<not> is_ws (CHR ''{'')"
  by (simp_all add: is_ws_def)

lemma delimited_close [simp]: "delimited (CHR '','' # r)" "delimited (CHR '']'' # r)" "delimited (CHR ''}'' # r)"
  "delimited []"
  by (simp_all add: delimited_def num_char_def is_digit_def)

lemma fuels_simps [simp]: "fuels [] = 0" "fuels (m # ms) = Suc (Suc (max m (fuels ms)))"
  by (simp_all add: fuels_def)

definition reads_back :: "json \<Rightarrow> bool" where
  "reads_back v \<longleftrightarrow> (\<forall>n r. fuel v \<le> n \<longrightarrow> delimited r \<longrightarrow> parse_value (Suc n) (JSON_stringify v @ r) = Some (v, r))"

lemma parse_elems_join:
  assumes "vs \<noteq> []" and "\<forall>v \<in> set vs. reads_back v" and "fuels (map fuel vs) \<le> n"
  shows "parse_elems n (join '','' (map JSON_stringify vs) @ CHR '']'' # r) = Some (vs, r)"
  using assms
proof (induction vs arbitrary: n)
  case Nil
  then show ?case by simp
next
  case (Cons v vs)
  from Cons.prems(3) obtain m where n: "n = Suc (Suc m)" and v: "fuel v \<le> m"
    and vs: "fuels (map fuel vs) \<le> m"
    by (cases n; cases "n - 1") auto
  from Cons.prems(2) have rb: "\<And>r. delimited r \<Longrightarrow> parse_value (Suc m) (JSON_stringify v @ r) = Some (v, r)"
    using v by (simp add: reads_back_def del: parse_value.simps)
  show ?case
  proof (cases vs)
    case Nil
    then show ?thesis by (simp add: n rb del: parse_value.simps)
  next
    case (Cons w ws)
    have "parse_elems (Suc m) (join '','' (map JSON_stringify vs) @ CHR '']'' # r) = Some (vs, r)"
      using Cons.prems(2) Cons vs by (intro Cons.IH) auto
    then show ?thesis
      by (simp add: n rb Cons cons_fst_def del: parse_value.simps parse_elems.simps add: parse_elems.simps(2) [of "Suc m"])
  qed
qed

lemma parse_members_join:
  assumes "kvs \<noteq> []" and "\<forall>(k, v) \<in> set kvs. reads_back v" and "fuels (map (\<lambda>(k, v). fuel v) kvs) \<le> n"
  shows "parse_members n (join '','' (map (\<lambda>(k, v). quote_str k @ '':'' @ JSON_stringify v) kvs) @ CHR ''}'' # r) = Some (kvs, r)"
  using assms
proof (induction kvs arbitrary: n)
  case Nil
  then show ?case by simp
next
  case (Cons kv kvs)
  obtain k v where kv: "kv = (k, v)" by (cases kv)
  from Cons.prems(3) obtain m where n: "n = Suc (Suc m)" and v: "fuel v \<le> m"
    and vs: "fuels (map (\<lambda>(k, v). fuel v) kvs) \<le> m"
    by (cases n; cases "n - 1") (auto simp: kv)
  from Cons.prems(2) have rb: "\<And>r. delimited r \<Longrightarrow> parse_value (Suc m) (JSON_stringify v @ r) = Some (v, r)"
    using v by (simp add: reads_back_def kv del: parse_value.simps)
  have pc: "\<And>s. parse_chars (concat (map esc_char k) @ CHR 0x22 # s) = Some (k, s)"
    by (rule parse_chars_quoted)
  show ?case
  proof (cases kvs)
    case Nil
    then show ?thesis by (simp add: n rb kv quote_str_def pc del: parse_value.simps parse_chars.simps)
  next
    case (Cons w ws)
    have "parse_members (Suc m) (join '','' (map (\<lambda>(k, v). quote_str k @ '':'' @ JSON_stringify v) kvs) @ CHR ''}'' # r) = Some (kvs, r)"
      using Cons.prems(2) Cons vs by (intro Cons.IH) auto
    then show ?thesis
      by (simp add: n rb Cons cons_fst_def kv quote_str_def pc del: parse_value.simps parse_members.simps parse_chars.simps
          add: parse_members.simps(2) [of "Suc m"])
  qed
qed

lemma spread_fresh: "distinct (map fst (a @ b)) \<Longrightarrow> spread a b = a @ b"
proof (induction b arbitrary: a)
  case Nil
  then show ?case by simp
next
  case (Cons kv b)
  obtain k v where kv: "kv = (k, v)" by (cases kv)
  with Cons.prems have "k \<notin> fst ` set a" by auto
  then have "AList.update k v a = a @ [(k, v)]"
    by (induction a) auto
  with Cons.IH [of "a @ [(k, v)]"] Cons.prems kv show ?case by simp
qed

lemma starts_join:
  assumes "xs \<noteq> []" and "starts_value (hd xs)"
  shows "starts_value (join sep xs @ t)"
  using assms by (cases "(sep, xs)" rule: join.cases) (auto simp: starts_value_def)

lemma starts_not_close:
  assumes "starts_value s" shows "\<not> prefix '']'' (skip_ws s)" and "\<not> prefix ''}'' (skip_ws s)"
  using assms by (cases s; auto simp: starts_value_def skip_ws_def)+

lemma parse_value_number:
  assumes "l \<noteq> []" and "list_all num_char l"
  shows "parse_value (Suc n) (l @ r) = parse_number (l @ r)"
proof -
  obtain c l' where l: "l = c # l'" using assms(1) by (cases l) auto
  have "starts_value l" using num_char_starts assms by blast
  then have "skip_ws (l @ r) = c # l' @ r" using skip_ws_starts [of l r] l by simp
  moreover have "num_char c" using assms(2) l by simp
  then have "c \<noteq> CHR 0x22 \<and> c \<noteq> CHR ''['' \<and> c \<noteq> CHR ''{'' \<and> c \<noteq> CHR ''n'' \<and> c \<noteq> CHR ''t'' \<and> c \<noteq> CHR ''f''"
    by (intro conjI notI) (simp_all add: num_char_def is_digit_def)
  ultimately show ?thesis by (auto simp: l)
qed

lemma reads_back_all: "wf_json v \<Longrightarrow> reads_back v"
proof (induction v)
  case (JNum i)
  show ?case
    using parse_value_number [OF _ show_int_num_char [of i]] parse_number_show_int
    by (simp add: reads_back_def del: parse_value.simps)
next
  case (JFrac l)
  then show ?case
    using parse_value_number [of l] take_num [of l]
    by (simp add: reads_back_def parse_number_def del: parse_value.simps)
next
  case (JStr s)
  show ?case
    by (simp add: reads_back_def quote_str_def parse_chars_quoted del: parse_chars.simps)
next
  case (JArr vs)
  show ?case
  proof (cases "vs = []")
    case True
    then show ?thesis by (simp add: reads_back_def)
  next
    case False
    have "starts_value (join '','' (map JSON_stringify vs) @ t)" for t
      using False JArr.prems by (intro starts_join) (auto simp: starts_stringify list_all_iff hd_map)
    moreover have "\<forall>v \<in> set vs. reads_back v" using JArr by (auto simp: list_all_iff)
    ultimately show ?thesis
      using False by (simp add: reads_back_def starts_not_close parse_elems_join del: parse_elems.simps)
  qed
next
  case (JObj kvs)
  show ?case
  proof (cases "kvs = []")
    case True
    then show ?thesis by (simp add: reads_back_def)
  next
    case False
    have "starts_value (join '','' (map (\<lambda>(k, v). quote_str k @ '':'' @ JSON_stringify v) kvs) @ t)" for t
      using False by (intro starts_join) (auto simp: hd_map quote_str_def starts_value_def is_ws_def split: prod.splits)
    moreover have "\<forall>(k, v) \<in> set kvs. reads_back v" using JObj by (force simp: list_all_iff)
    note pm = parse_members_join [OF False this]
    moreover have "spread [] kvs = kvs" using spread_fresh [of "[]" kvs] JObj.prems by simp
    ultimately show ?thesis
      using False unfolding reads_back_def
      by (simp add: starts_not_close del: parse_members.simps)
  qed
qed (simp_all add: reads_back_def skip_ws_def is_ws_def)

section \<open>The fuel is enough\<close>

lemma fuels_join:
  assumes "\<forall>x \<in> set xs. f x \<le> 2 * length (g x)"
  shows "xs \<noteq> [] \<Longrightarrow> fuels (map f xs) \<le> 2 * length (join '','' (map g xs)) + 2"
  using assms
proof (induction xs)
  case (Cons x xs)
  then show ?case by (cases xs) auto
qed simp

lemma fuel_bound: "fuel v \<le> 2 * length (JSON_stringify v)"
proof (induction v)
  case (JArr vs)
  then show ?case using fuels_join [of vs fuel JSON_stringify] by (cases "vs = []") auto
next
  case (JObj kvs)
  have "\<forall>x \<in> set kvs. (\<lambda>(k, v). fuel v) x \<le> 2 * length ((\<lambda>(k, v). quote_str k @ '':'' @ JSON_stringify v) x)"
    using JObj by (force simp: trans_le_add2)
  then show ?case
    using fuels_join [of kvs "\<lambda>(k, v). fuel v" "\<lambda>(k, v). quote_str k @ '':'' @ JSON_stringify v"]
    by (cases "kvs = []") auto
qed simp_all

lemma JSON_parse_stringify:
  assumes "wf_json v"
  shows "JSON_parse (JSON_stringify v) = Some v"
proof -
  let ?s = "JSON_stringify v"
  have "fuel v \<le> 2 * length ?s + 1" using fuel_bound [of v] by simp
  then have "parse_value (Suc (2 * length ?s + 1)) (?s @ []) = Some (v, [])"
    using reads_back_all [OF assms] by (simp add: reads_back_def del: parse_value.simps append_Nil2)
  then show ?thesis by (simp add: JSON_parse_def skip_ws_def del: parse_value.simps)
qed

end
