(* ===== verification/Web.thy ===== *)
theory Web
  imports Json
begin

text \<open>
  The parts of the browser platform that the dashboard calls: Web Storage
  (\<^verbatim>\<open>sessionStorage\<close>, \<^verbatim>\<open>localStorage\<close>) and \<^verbatim>\<open>fetch\<close>.  Every storage method throws when the
  storage is not accessible, and \<^verbatim>\<open>setItem\<close> also when the quota is used up; a throw is \<open>None\<close>.
  The contract its clients rely on is the locale \<open>web_store\<close>.
\<close>

section \<open>Web Storage\<close>

record web_storage =
  items :: "string \<rightharpoonup> string"
  accessible :: bool
  quota_left :: bool

definition getItem :: "web_storage \<Rightarrow> string \<Rightarrow> string option option" where
  "getItem st k = (if accessible st then Some (items st k) else None)"

definition setItem :: "web_storage \<Rightarrow> string \<Rightarrow> string \<Rightarrow> web_storage option" where
  "setItem st k v =
     (if accessible st \<and> quota_left st then Some (st\<lparr>items := (items st)(k \<mapsto> v)\<rparr>) else None)"

definition removeItem :: "web_storage \<Rightarrow> string \<Rightarrow> web_storage option" where
  "removeItem st k = (if accessible st then Some (st\<lparr>items := (items st)(k := None)\<rparr>) else None)"

section \<open>Fetch\<close>

datatype init_val = Str string | Hdrs "(string \<times> string) list" | Undefined

type_synonym headers = "(string \<times> string) list"
type_synonym init_obj = "(string \<times> init_val) list"

text \<open>
  What one \<open>fetch\<close> call comes to: it rejects, or it resolves to a response with a status, a
  status text and a body; \<open>None\<close> is a body whose \<open>res.json()\<close> rejects.
\<close>

datatype fetch_outcome =
    Network_error
  | Response (status: nat) (statusText: string) (body: "json option")

definition res_ok :: "nat \<Rightarrow> bool" where
  "res_ok st \<longleftrightarrow> 200 \<le> st \<and> st \<le> 299"

text \<open>A \<open>fetch\<close> is a function from the URL and the options to the outcome.\<close>

type_synonym fetcher = "string \<Rightarrow> init_obj \<Rightarrow> fetch_outcome"

section \<open>The storage contract\<close>

locale web_store =
  fixes get :: "'s \<Rightarrow> 'k \<Rightarrow> 'v option option"
    and put :: "'s \<Rightarrow> 'k \<Rightarrow> 'v \<Rightarrow> 's option"
    and del :: "'s \<Rightarrow> 'k \<Rightarrow> 's option"
    and reachable_store :: "'s \<Rightarrow> bool"
  assumes get_total: "reachable_store s \<longleftrightarrow> (\<exists>x. get s k = Some x)"
    and get_put: "put s k v = Some s' \<Longrightarrow> get s' k' = (if k' = k then Some (Some v) else get s k')"
    and get_del: "del s k = Some s' \<Longrightarrow> get s' k' = (if k' = k then Some None else get s k')"
    and del_total: "reachable_store s \<longleftrightarrow> (\<exists>s'. del s k = Some s')"
begin

lemma put_reachable: "put s k v = Some s' \<Longrightarrow> reachable_store s'"
  using get_put [of s k v s' k] get_total [of s' k] by simp

lemma del_reachable: "del s k = Some s' \<Longrightarrow> reachable_store s'"
  using get_del [of s k s' k] get_total [of s' k] by simp

lemma get_none: "get s k = None \<Longrightarrow> \<not> reachable_store s"
  using get_total [of s k] by simp

text \<open>Deleting three keys in a row: all are gone, every other key is untouched.\<close>

lemma del3:
  assumes "del s a = Some s1" "del s1 b = Some s2" "del s2 c = Some s3"
  shows "get s3 k = (if k = a \<or> k = b \<or> k = c then Some None else get s k)"
  using get_del [OF assms(1)] get_del [OF assms(2)] get_del [OF assms(3)] by simp

lemma del3_total:
  assumes "reachable_store s"
  obtains s1 s2 s3 where "del s a = Some s1" "del s1 b = Some s2" "del s2 c = Some s3"
proof -
  obtain s1 where 1: "del s a = Some s1" using assms del_total by blast
  then obtain s2 where 2: "del s1 b = Some s2" using del_reachable del_total by blast
  then obtain s3 where "del s2 c = Some s3" using del_reachable del_total by blast
  with 1 2 show thesis by (rule that)
qed

end

interpretation ws: web_store getItem setItem removeItem accessible
  by unfold_locales (auto simp: getItem_def setItem_def removeItem_def split: if_splits)

lemmas storage_defs = getItem_def setItem_def removeItem_def

end
