(* ===== verification/Auth_Store.thy ===== *)
theory Auth_Store
  imports Web
begin

text \<open>
  \<^verbatim>\<open>frontend/src/stores/auth-store.ts\<close> and \<^verbatim>\<open>frontend/src/stores/app-store.ts\<close>: the Zustand
  stores.  The auth store keeps the access token; it is created from \<^verbatim>\<open>sessionStorage\<close> by
  \<open>loadStored\<close>, changed by \<open>login\<close> and \<open>logout\<close>, and read by \<open>setAuthHeader\<close>.  A throw of the
  storage inside \<open>login\<close> or \<open>logout\<close> is \<open>None\<close>: the exception leaves the store as it was.
  \<open>session_step\<close> runs the operations one after another, with \<open>Reload\<close> for a reload of the tab.
\<close>

section \<open>The auth store\<close>

record auth_state =
  token :: "string option"
  userId :: "string option"
  roles :: json
  isAuthenticated :: bool

definition TOKEN_KEY :: string where "TOKEN_KEY = ''chimera_auth_token''"
definition USER_KEY :: string where "USER_KEY = ''chimera_user_id''"
definition ROLES_KEY :: string where "ROLES_KEY = ''chimera_roles''"

definition loadStored :: "web_storage \<Rightarrow> string option \<times> string option \<times> json" where
  "loadStored ss =
     (case (getItem ss TOKEN_KEY, getItem ss USER_KEY, getItem ss ROLES_KEY) of
        (Some tok, Some uid, Some rolesRaw) \<Rightarrow>
          (if truthy_str rolesRaw
           then (case JSON_parse (the rolesRaw) of
                   Some r \<Rightarrow> (tok, uid, r)
                 | None \<Rightarrow> (None, None, JArr []))
           else (tok, uid, JArr []))
      | _ \<Rightarrow> (None, None, JArr []))"

definition useAuthStore :: "web_storage \<Rightarrow> auth_state" where
  "useAuthStore ss = (case loadStored ss of (tok, uid, rs) \<Rightarrow>
     \<lparr>token = tok, userId = uid, roles = rs, isAuthenticated = (tok \<noteq> None)\<rparr>)"

definition login :: "string \<Rightarrow> web_storage \<times> auth_state \<Rightarrow> (web_storage \<times> auth_state) option" where
  "login t s = (case s of (ss, st) \<Rightarrow>
     (case setItem ss TOKEN_KEY t of
        None \<Rightarrow> None
      | Some ss' \<Rightarrow> Some (ss', st\<lparr>token := Some t, isAuthenticated := True\<rparr>)))"

definition logout :: "web_storage \<times> auth_state \<Rightarrow> (web_storage \<times> auth_state) option" where
  "logout s = (case s of (ss, st) \<Rightarrow>
     (case removeItem ss TOKEN_KEY of None \<Rightarrow> None | Some s1 \<Rightarrow>
      (case removeItem s1 USER_KEY of None \<Rightarrow> None | Some s2 \<Rightarrow>
       (case removeItem s2 ROLES_KEY of None \<Rightarrow> None | Some s3 \<Rightarrow>
          Some (s3, st\<lparr>token := None, userId := None, roles := JArr [], isAuthenticated := False\<rparr>)))))"

text \<open>\<open>init?.headers || {}\<close> copied, the bearer token added when it is truthy.\<close>

definition init_headers :: "init_obj option \<Rightarrow> headers" where
  "init_headers init = (case init of None \<Rightarrow> [] | Some obj \<Rightarrow>
     (case map_of obj ''headers'' of Some (Hdrs h) \<Rightarrow> h | _ \<Rightarrow> []))"

definition setAuthHeader :: "auth_state \<Rightarrow> init_obj option \<Rightarrow> init_obj" where
  "setAuthHeader st init =
     (let h = spread [] (init_headers init);
          h' = (if truthy_str (token st) then AList.update ''Authorization'' (''Bearer '' @ the (token st)) h else h)
      in spread (spread [] (case init of None \<Rightarrow> [] | Some obj \<Rightarrow> obj)) [(''headers'', Hdrs h')])"

section \<open>The app store\<close>

record app_state =
  sidebarCollapsed :: bool

definition useAppState :: app_state where
  "useAppState = \<lparr>sidebarCollapsed = False\<rparr>"

definition setSidebarCollapsed :: "bool \<Rightarrow> app_state \<Rightarrow> app_state" where
  "setSidebarCollapsed c st = st\<lparr>sidebarCollapsed := c\<rparr>"

section \<open>Sessions\<close>

datatype auth_op = Login string | Logout | Reload

definition session_step :: "auth_op \<Rightarrow> web_storage \<times> auth_state \<Rightarrow> web_storage \<times> auth_state" where
  "session_step op s = (case op of
      Login t \<Rightarrow> (case login t s of None \<Rightarrow> s | Some s' \<Rightarrow> s')
    | Logout \<Rightarrow> (case logout s of None \<Rightarrow> s | Some s' \<Rightarrow> s')
    | Reload \<Rightarrow> (fst s, useAuthStore (fst s)))"

definition session_run :: "auth_op list \<Rightarrow> web_storage \<times> auth_state \<Rightarrow> web_storage \<times> auth_state" where
  "session_run ops s = fold session_step ops s"


section \<open>Lemmas\<close>

lemma auth_keys_distinct [simp]:
  "TOKEN_KEY \<noteq> USER_KEY" "TOKEN_KEY \<noteq> ROLES_KEY" "USER_KEY \<noteq> ROLES_KEY"
  "USER_KEY \<noteq> TOKEN_KEY" "ROLES_KEY \<noteq> TOKEN_KEY" "ROLES_KEY \<noteq> USER_KEY"
  by (simp_all add: TOKEN_KEY_def USER_KEY_def ROLES_KEY_def)







text \<open>Nothing in the application writes the user and role keys.\<close>

lemma session_step_roles_key:
  "getItem (fst s) ROLES_KEY = Some None \<or> getItem (fst s) ROLES_KEY = None \<Longrightarrow>
   getItem (fst (session_step op s)) ROLES_KEY = Some None \<or> getItem (fst (session_step op s)) ROLES_KEY = None"
  by (cases op) (auto simp: session_step_def login_def logout_def ws.get_put ws.get_del
      split: prod.splits option.splits)

lemma loadStored_no_roles:
  assumes "getItem ss TOKEN_KEY = Some tok" "getItem ss ROLES_KEY = Some None"
  shows "fst (loadStored ss) = tok"
proof -
  have "accessible ss" using ws.get_total [of ss TOKEN_KEY] assms(1) by blast
  then obtain uid where "getItem ss USER_KEY = Some uid" using ws.get_total [of ss USER_KEY] by blast
  with assms show ?thesis by (simp add: loadStored_def truthy_str_def)
qed


section \<open>Properties\<close>


text \<open>A login survives a reload of the tab: if the storage accepts the token and no role list is
  stored, the store built by the reload holds the same token and is authenticated.\<close>

theorem login_survives_reload:
  assumes "accessible ss" and "quota_left ss" and "items ss ROLES_KEY = None"
  shows "token (snd (session_run [Login t, Reload] (ss, st))) = Some t \<and>
         isAuthenticated (snd (session_run [Login t, Reload] (ss, st)))"
proof -
  obtain ss' where put: "setItem ss TOKEN_KEY t = Some ss'"
    using assms by (simp add: setItem_def)
  have "getItem ss' TOKEN_KEY = Some (Some t)" "getItem ss' ROLES_KEY = Some None"
    using ws.get_put [OF put] assms by (simp_all add: getItem_def)
  then have "fst (loadStored ss') = Some t" by (rule loadStored_no_roles)
  then show ?thesis
    using put by (cases "loadStored ss'")
      (simp add: session_run_def session_step_def login_def useAuthStore_def)
qed

theorem login_survives_reload_witness:
  "token (snd (session_run [Login ''tok'', Reload]
     (\<lparr>items = Map.empty, accessible = True, quota_left = True\<rparr>, useAuthStore \<lparr>items = Map.empty, accessible = True, quota_left = True\<rparr>)))
   = Some ''tok''"
  using login_survives_reload [of "\<lparr>items = Map.empty, accessible = True, quota_left = True\<rparr>" "''tok''"] by simp

text \<open>A logout is final: when the storage is accessible it removes all three keys, leaves no token
  in memory, and a reload afterwards does not bring a session back.\<close>

theorem logout_is_final:
  assumes "accessible ss"
  shows "\<not> isAuthenticated (snd (session_run [Logout] (ss, st))) \<and>
         token (snd (session_run [Logout] (ss, st))) = None \<and>
         \<not> isAuthenticated (snd (session_run [Logout, Reload] (ss, st))) \<and>
         items (fst (session_run [Logout] (ss, st))) TOKEN_KEY = None \<and>
         items (fst (session_run [Logout] (ss, st))) USER_KEY = None \<and>
         items (fst (session_run [Logout] (ss, st))) ROLES_KEY = None"
proof -
  obtain s1 s2 s3 where del: "removeItem ss TOKEN_KEY = Some s1" "removeItem s1 USER_KEY = Some s2"
      "removeItem s2 ROLES_KEY = Some s3"
    using ws.del3_total [OF assms] by blast
  have get: "getItem s3 TOKEN_KEY = Some None" "getItem s3 USER_KEY = Some None" "getItem s3 ROLES_KEY = Some None"
    using ws.del3 [OF del] by simp_all
  then have "fst (loadStored s3) = None" by (intro loadStored_no_roles)
  then have "\<not> isAuthenticated (useAuthStore s3)" by (cases "loadStored s3") (simp add: useAuthStore_def)
  with del get show ?thesis
    by (simp add: session_run_def session_step_def logout_def getItem_def split: if_splits)
qed

theorem logout_is_final_witness:
  "\<not> isAuthenticated (snd (session_run [Logout, Reload]
     (\<lparr>items = [TOKEN_KEY \<mapsto> ''tok''], accessible = True, quota_left = False\<rparr>,
      \<lparr>token = Some ''tok'', userId = None, roles = JArr [], isAuthenticated = True\<rparr>)))"
  using logout_is_final [of "\<lparr>items = [TOKEN_KEY \<mapsto> ''tok''], accessible = True, quota_left = False\<rparr>"] by simp

text \<open>A stored role list that is not JSON discards the whole session: the store starts without a
  token although one is stored.\<close>

theorem corrupt_roles_drop_token:
  assumes "items ss ROLES_KEY = Some raw" and "raw \<noteq> []" and "JSON_parse raw = None"
  shows "token (useAuthStore ss) = None \<and> \<not> isAuthenticated (useAuthStore ss)"
  using assms by (auto simp: useAuthStore_def loadStored_def getItem_def truthy_str_def)

theorem corrupt_roles_drop_token_witness:
  "token (useAuthStore \<lparr>items = [TOKEN_KEY \<mapsto> ''tok'', ROLES_KEY \<mapsto> ''[admin''], accessible = True, quota_left = True\<rparr>) = None"
proof -
  have "JSON_parse ''[admin'' = None" by code_simp
  then show ?thesis
    using corrupt_roles_drop_token
      [of "\<lparr>items = [TOKEN_KEY \<mapsto> ''tok'', ROLES_KEY \<mapsto> ''[admin''], accessible = True, quota_left = True\<rparr>" "''[admin''"]
    by simp
qed

end
