(* ===== verification/Http_Api.thy ===== *)
theory Http_Api
  imports Auth_Store "HOL-Library.Monad_Syntax"
begin

text \<open>
  \<^verbatim>\<open>frontend/src/lib/api.ts\<close>: the HTTP client.  \<open>request\<close> adds the auth header, calls \<^verbatim>\<open>fetch\<close> and
  turns the outcome into a value or a rejection.  Each typed function of the source is the
  \<open>api_call\<close> it hands to \<open>request\<close>: a path and the options.  The response interfaces of the
  source are records; TypeScript does not check them at run time, so each has a function from
  JSON that is \<open>None\<close> on a value that does not have the declared shape.
\<close>

section \<open>request\<close>

record api_error =
  code :: nat
  message :: json

text \<open>How the promise of \<open>request\<close> rejects: a thrown \<open>ApiError\<close>, the rejection of \<open>fetch\<close>, the
  SyntaxError of \<open>res.json()\<close>, or the TypeError of reading a property of \<open>null\<close>.\<close>

datatype rejection = RApi api_error | RNetwork | RSyntax | RType

definition fetch_url :: "string \<Rightarrow> string" where
  "fetch_url path = ''/v1'' @ path"

definition fetch_options :: "auth_state \<Rightarrow> init_obj option \<Rightarrow> init_obj" where
  "fetch_options st init =
     (let authInit = setAuthHeader st init
      in spread [(''headers'', Hdrs (spread [(''Content-Type'', ''application/json'')] (init_headers (Some authInit))))]
           authInit)"

definition request :: "auth_state \<Rightarrow> fetcher \<Rightarrow> string \<Rightarrow> init_obj option \<Rightarrow> rejection + json" where
  "request st fetch path init =
     (case fetch (fetch_url path) (fetch_options st init) of
        Network_error \<Rightarrow> Inl RNetwork
      | Response sts txt bdy \<Rightarrow>
          if \<not> res_ok sts then
            (let b = (case bdy of None \<Rightarrow> JObj [] | Some v \<Rightarrow> v)
             in case get_prop b ''error'' of
                  None \<Rightarrow> Inl RType
                | Some e \<Rightarrow> Inl (RApi \<lparr>code = sts, message = nullish e (JStr txt)\<rparr>))
          else (case bdy of None \<Rightarrow> Inl RSyntax | Some v \<Rightarrow> Inr v))"

section \<open>The verbs\<close>

record api_call =
  call_path :: string
  call_init :: init_obj

definition json_body :: "json option \<Rightarrow> init_val" where
  "json_body b = (case b of Some v \<Rightarrow> if truthy v then Str (JSON_stringify v) else Undefined | None \<Rightarrow> Undefined)"

definition api_get :: "string \<Rightarrow> api_call" where
  "api_get p = \<lparr>call_path = p, call_init = [(''method'', Str ''GET'')]\<rparr>"

definition api_post :: "string \<Rightarrow> json option \<Rightarrow> api_call" where
  "api_post p b = \<lparr>call_path = p, call_init = [(''method'', Str ''POST''), (''body'', json_body b)]\<rparr>"

definition api_put :: "string \<Rightarrow> json option \<Rightarrow> api_call" where
  "api_put p b = \<lparr>call_path = p, call_init = [(''method'', Str ''PUT''), (''body'', json_body b)]\<rparr>"

definition api_del :: "string \<Rightarrow> api_call" where
  "api_del p = \<lparr>call_path = p, call_init = [(''method'', Str ''DELETE'')]\<rparr>"

definition perform :: "auth_state \<Rightarrow> fetcher \<Rightarrow> api_call \<Rightarrow> rejection + json" where
  "perform st fetch c = request st fetch (call_path c) (Some (call_init c))"

section \<open>Typed functions\<close>

definition getHealth :: api_call where
  "getHealth = api_get ''/health''"

definition getTopics :: "nat \<Rightarrow> nat \<Rightarrow> api_call" where
  "getTopics limit offset = api_get (''/topics?limit='' @ show_nat limit @ ''&offset='' @ show_nat offset)"

definition getTopicDetail :: "string \<Rightarrow> api_call" where
  "getTopicDetail name = api_get (''/topics/'' @ name)"

definition getTopic :: "string \<Rightarrow> api_call" where
  "getTopic name = api_get (''/topics/'' @ name)"

definition createTopic :: "string \<Rightarrow> string \<Rightarrow> json \<Rightarrow> api_call" where
  "createTopic name mode partitions =
     api_post ''/topics'' (Some (JObj [(''name'', JStr name), (''mode'', JStr mode), (''partitions'', partitions)]))"

definition deleteTopic :: "string \<Rightarrow> api_call" where
  "deleteTopic name = api_del (''/topics/'' @ name)"

definition getConsumers :: api_call where
  "getConsumers = api_get ''/consumers''"

definition getConsumerGroupDetail :: "string \<Rightarrow> api_call" where
  "getConsumerGroupDetail grp = api_get (''/consumers/'' @ grp)"

definition getCluster :: api_call where
  "getCluster = api_get ''/cluster/members''"

definition getSchemas :: "string \<Rightarrow> api_call" where
  "getSchemas subject = api_get (''/schemas/'' @ subject)"

definition registerSchema :: "string \<Rightarrow> string \<Rightarrow> string \<Rightarrow> api_call" where
  "registerSchema subject type schema =
     api_post (''/schemas/'' @ subject) (Some (JObj [(''type'', JStr type), (''schema'', JStr schema)]))"

definition deleteSchema :: "string \<Rightarrow> api_call" where
  "deleteSchema subject = api_del (''/schemas/'' @ subject)"

definition listSchemaSubjects :: api_call where
  "listSchemaSubjects = api_get ''/schemas''"

definition getDLQ :: "string \<Rightarrow> nat \<Rightarrow> api_call" where
  "getDLQ topic limit = api_get (''/dlq/'' @ topic @ ''?limit='' @ show_nat limit)"

definition listDLQTopics :: api_call where
  "listDLQTopics = api_get ''/dlq''"

definition clearDLQ :: "string \<Rightarrow> api_call" where
  "clearDLQ topic = api_del (''/dlq/'' @ topic)"

definition replayDLQ :: "string \<Rightarrow> (string \<times> json) list \<Rightarrow> api_call" where
  "replayDLQ topic options = api_post (''/dlq/'' @ topic @ ''/replay'') (Some (JObj options))"

definition getGeoStatus :: api_call where
  "getGeoStatus = api_get ''/geo-replication/status''"

definition getGeoLag :: api_call where
  "getGeoLag = api_get ''/geo-replication/lag''"

definition listWASMModules :: api_call where
  "listWASMModules = api_get ''/wasm/modules''"

definition deleteWASMModule :: "string \<Rightarrow> api_call" where
  "deleteWASMModule name = api_del (''/wasm/modules/'' @ name)"

definition listProcessors :: api_call where
  "listProcessors = api_get ''/processors''"

definition getProcessor :: "string \<Rightarrow> api_call" where
  "getProcessor name = api_get (''/processors/'' @ name)"

definition deleteProcessor :: "string \<Rightarrow> api_call" where
  "deleteProcessor name = api_del (''/processors/'' @ name)"

definition startProcessor :: "string \<Rightarrow> api_call" where
  "startProcessor name = api_post (''/processors/'' @ name @ ''/start'') None"

definition stopProcessor :: "string \<Rightarrow> api_call" where
  "stopProcessor name = api_post (''/processors/'' @ name @ ''/stop'') None"

lemmas verb_defs = api_get_def api_post_def api_put_def api_del_def

lemmas call_defs =
  getHealth_def getTopics_def getTopicDetail_def getTopic_def createTopic_def deleteTopic_def
  getConsumers_def getConsumerGroupDetail_def getCluster_def getSchemas_def registerSchema_def
  deleteSchema_def listSchemaSubjects_def getDLQ_def listDLQTopics_def clearDLQ_def replayDLQ_def
  getGeoStatus_def getGeoLag_def listWASMModules_def deleteWASMModule_def listProcessors_def
  getProcessor_def deleteProcessor_def startProcessor_def stopProcessor_def

text \<open>Every call of the module is made by one of the four verbs: no call brings headers.\<close>

definition verb_call :: "api_call \<Rightarrow> bool" where
  "verb_call c \<longleftrightarrow> (\<exists>p b. c = api_get p \<or> c = api_post p b \<or> c = api_put p b \<or> c = api_del p)"


section \<open>Lemmas\<close>

definition bearer_headers :: "auth_state \<Rightarrow> headers" where
  "bearer_headers st = (if truthy_str (token st) then [(''Authorization'', ''Bearer '' @ the (token st))] else [])"

lemma distinct_setAuthHeader: "distinct (map fst (setAuthHeader st init))"
  by (simp add: setAuthHeader_def Let_def distinct_update)

lemma map_of_fetch_options:
  "map_of (fetch_options st init) k =
     (case map_of (setAuthHeader st init) k of
        Some v \<Rightarrow> Some v
      | None \<Rightarrow> if k = ''headers'' then
          Some (Hdrs (spread [(''Content-Type'', ''application/json'')] (init_headers (Some (setAuthHeader st init))))) else None)"
  by (simp add: fetch_options_def Let_def map_of_spread_distinct distinct_setAuthHeader split: option.split)

lemma map_of_setAuthHeader_headers:
  "map_of (setAuthHeader st init) ''headers'' =
     Some (Hdrs (if truthy_str (token st)
                 then AList.update ''Authorization'' (''Bearer '' @ the (token st)) (spread [] (init_headers init))
                 else spread [] (init_headers init)))"
  by (simp add: setAuthHeader_def Let_def map_of_update)

text \<open>The options always carry a \<open>headers\<close> property of their own, which is the one that is sent.\<close>

lemma sent_headers_eq:
  "map_of (fetch_options st init) ''headers'' = map_of (setAuthHeader st init) ''headers''"
  by (simp add: map_of_fetch_options map_of_setAuthHeader_headers)

lemma verb_no_headers: "verb_call c \<Longrightarrow> init_headers (Some (call_init c)) = []"
  by (auto simp: verb_call_def verb_defs init_headers_def)

lemma verb_sent_headers:
  "verb_call c \<Longrightarrow> map_of (fetch_options st (Some (call_init c))) ''headers'' = Some (Hdrs (bearer_headers st))"
  by (simp add: sent_headers_eq map_of_setAuthHeader_headers verb_no_headers bearer_headers_def)

lemma map_of_setAuthHeader_other:
  "k \<noteq> ''headers'' \<Longrightarrow> distinct (map fst obj) \<Longrightarrow> map_of (setAuthHeader st (Some obj)) k = map_of obj k"
  by (simp add: setAuthHeader_def Let_def map_of_update map_of_spread_distinct split: option.split)

lemma distinct_verb: "verb_call c \<Longrightarrow> distinct (map fst (call_init c))"
  by (auto simp: verb_call_def verb_defs)

lemma verb_sent_other:
  "verb_call c \<Longrightarrow> k \<noteq> ''headers'' \<Longrightarrow> map_of (fetch_options st (Some (call_init c))) k = map_of (call_init c) k"
  by (simp add: map_of_fetch_options map_of_setAuthHeader_other distinct_verb split: option.split)

lemma verb_calls [simp]:
  "verb_call (api_get p)" "verb_call (api_post p b)" "verb_call (api_put p b)" "verb_call (api_del p)"
  by (auto simp: verb_call_def)

lemma typed_verb_calls [simp]:
  "verb_call getHealth" "verb_call (getTopics l off)" "verb_call (getTopicDetail n)" "verb_call (getTopic n)"
  "verb_call (createTopic n m ps)" "verb_call (deleteTopic n)" "verb_call getConsumers"
  "verb_call (getConsumerGroupDetail g)" "verb_call getCluster" "verb_call (getSchemas s)"
  "verb_call (registerSchema s t d)" "verb_call (deleteSchema s)" "verb_call listSchemaSubjects"
  "verb_call (getDLQ t l)" "verb_call listDLQTopics" "verb_call (clearDLQ t)" "verb_call (replayDLQ t opts)"
  "verb_call getGeoStatus" "verb_call getGeoLag" "verb_call listWASMModules" "verb_call (deleteWASMModule n)"
  "verb_call listProcessors" "verb_call (getProcessor n)" "verb_call (deleteProcessor n)"
  "verb_call (startProcessor n)" "verb_call (stopProcessor n)"
  by (simp_all add: call_defs)


section \<open>Properties\<close>

text \<open>Every call of the client is sent with exactly the bearer header of the current token, and
  with no header at all when there is none: the \<open>Content-Type\<close> that \<open>request\<close> writes never
  reaches \<open>fetch\<close>, because the options spread after it bring a \<open>headers\<close> property of their own.
  Method and body are sent as the verb built them.\<close>

theorem request_sends_only_bearer:
  assumes "verb_call c"
  shows "map_of (fetch_options st (Some (call_init c))) ''headers'' = Some (Hdrs (bearer_headers st)) \<and>
         map_of (bearer_headers st) ''Content-Type'' = None \<and>
         map_of (fetch_options st (Some (call_init c))) ''method'' = map_of (call_init c) ''method'' \<and>
         map_of (fetch_options st (Some (call_init c))) ''body'' = map_of (call_init c) ''body''"
  using assms verb_sent_headers verb_sent_other [of c "''method''"] verb_sent_other [of c "''body''"]
  by (auto simp: bearer_headers_def)

theorem request_sends_only_bearer_witness:
  "map_of (fetch_options \<lparr>token = Some ''t'', userId = None, roles = JArr [], isAuthenticated = True\<rparr>
      (Some (call_init (createTopic ''orders'' ''queue'' (JNum 4))))) ''headers''
   = Some (Hdrs [(''Authorization'', ''Bearer t'')])"
  using request_sends_only_bearer
    [of "createTopic ''orders'' ''queue'' (JNum 4)" "\<lparr>token = Some ''t'', userId = None, roles = JArr [], isAuthenticated = True\<rparr>"]
  by (simp add: bearer_headers_def truthy_str_def)



end
