(* ===== verification/Responses.thy ===== *)
theory Responses
  imports Http_Api
begin

text \<open>
  The response interfaces of \<^verbatim>\<open>frontend/src/lib/api.ts\<close>.  Each interface is a record; its
  \<open>decode_\<dots>\<close> function is the check that a JSON value has the declared shape, which the source
  states as a type and does not perform.
\<close>

section \<open>Field access\<close>

fun as_str :: "json \<Rightarrow> string option" where
  "as_str (JStr s) = Some s" | "as_str _ = None"

fun as_num :: "json \<Rightarrow> int option" where
  "as_num (JNum n) = Some n" | "as_num _ = None"

fun as_bool :: "json \<Rightarrow> bool option" where
  "as_bool (JBool b) = Some b" | "as_bool _ = None"

fun as_arr :: "(json \<Rightarrow> 'a option) \<Rightarrow> json \<Rightarrow> 'a list option" where
  "as_arr f (JArr vs) = those (map f vs)" | "as_arr f _ = None"

fun as_obj :: "(json \<Rightarrow> 'a option) \<Rightarrow> json \<Rightarrow> (string \<times> 'a) list option" where
  "as_obj f (JObj kvs) = those (map (\<lambda>(k, v). map_option (Pair k) (f v)) kvs)" | "as_obj f _ = None"

definition field :: "json \<Rightarrow> string \<Rightarrow> (json \<Rightarrow> 'a option) \<Rightarrow> 'a option" where
  "field v k f = (case v of JObj kvs \<Rightarrow> (case map_of kvs k of Some x \<Rightarrow> f x | None \<Rightarrow> None) | _ \<Rightarrow> None)"

text \<open>An optional property: absent, or of the declared type.\<close>

definition opt_field :: "json \<Rightarrow> string \<Rightarrow> (json \<Rightarrow> 'a option) \<Rightarrow> 'a option option" where
  "opt_field v k f = (case v of
      JObj kvs \<Rightarrow> (case map_of kvs k of Some x \<Rightarrow> map_option Some (f x) | None \<Rightarrow> Some None)
    | _ \<Rightarrow> None)"

section \<open>Interfaces\<close>

text \<open>
  The types of the source describe what the server should send.  A member that the pages read with
  optional chaining, or that the server can send as \<open>null\<close>, is an option in the record; the shape
  checks below demand it to be present, as the types do.
\<close>

record RaftInfo =
  rf_state :: string  rf_term :: int  rf_is_leader :: bool  rf_leader_id :: string  rf_commit_index :: int

record ClusterSummary =
  cs_alive_members :: int
  cs_members :: int

record StorageSummary =
  ss_hot_size_bytes :: int
  ss_partitions :: int

record WarmSummary =
  ws_enabled :: bool
  ws_size :: int

record HealthResponse =
  h_status :: string
  h_node_id :: int
  h_name :: string
  h_version :: string
  h_uptime :: string
  h_mode :: "string option"
  h_raft :: "RaftInfo option"
  h_cluster :: "ClusterSummary option"
  h_storage :: "StorageSummary option"
  h_warm :: "WarmSummary option"
  h_dlq_topics :: "int option"

record TopicInfo =
  ti_name :: string
  ti_mode :: string
  ti_partitions :: int
  ti_created_at :: string

record TopicPartition =
  tp_id :: int
  tp_high_watermark :: int
  tp_log_start_offset :: int

record TopicDetail = TopicInfo +
  td_partitions_detail :: "TopicPartition list option"

record ConsumerGroupInfo =
  cg_groups :: "string list option"
  cg_count :: int

record ConsumerMember =
  cm_id :: string
  cm_partitions :: "int list option"

record ConsumerGroupDetail =
  gd_group :: string
  gd_members :: "ConsumerMember list"
  gd_assignments :: "(string \<times> int list) list"

record MemberInfo =
  m_id :: string
  m_addr :: string
  m_port :: int
  m_state :: string
  m_incarnation :: int

record ClusterResponse =
  cl_mode :: string
  cl_is_leader :: "bool option"
  cl_leader_id :: "string option"
  cl_alive_count :: int
  cl_members :: "MemberInfo list option"

record SchemaVersion =
  sv_id :: int
  sv_subject :: string
  sv_version :: int
  sv_type :: string
  sv_schema :: string

record WASMModule =
  wm_name :: string

record WASMListResponse =
  wl_modules :: "string list"
  wl_count :: int

record ProcessorInfo =
  p_name :: string
  p_state :: string
  p_parallelism :: int
  p_source_topic :: string
  p_sink_topic :: string
  p_operators :: int

record ProcessorListResponse =
  pl_topologies :: "string list"
  pl_count :: int

record OriginalMsg =
  om_id :: string
  om_topic :: string
  om_body :: string
  om_headers :: "(string \<times> string) list option"
  om_content_type :: "string option"
  om_created_at :: "string option"

record DLQEntry =
  e_id :: int
  e_original_msg :: "OriginalMsg option"
  e_topic :: string
  e_partition :: int
  e_reason :: string
  e_retries :: int
  e_failed_at :: string
  e_raw :: json \<comment> \<open>the parsed object itself, which the page can print\<close>

record DLQPeekResponse =
  dp_topic :: string
  dp_count :: int
  dp_entries :: "DLQEntry list"

record DLQReplayOptions =
  ro_dry_run :: "bool option"
  ro_max_messages :: "int option"
  ro_target_topic :: "string option"
  ro_delete_after_replay :: "bool option"
  ro_add_dlq_metadata :: "bool option"

record GeoSender =
  gs_events_sent :: int
  gs_events_failed :: int

record GeoReceiver =
  gr_events_received :: int
  gr_events_rejected :: int

record GeoStatusResponse =
  geo_enabled :: bool
  geo_local_dc :: "string option"
  geo_mode :: "string option"
  geo_remote_dcs :: "int option"
  geo_sender :: "GeoSender option"
  geo_receiver :: "GeoReceiver option"

section \<open>Shapes\<close>

definition decode_TopicInfo :: "json \<Rightarrow> TopicInfo option" where
  "decode_TopicInfo v = do {
     n \<leftarrow> field v ''name'' as_str; m \<leftarrow> field v ''mode'' as_str;
     p \<leftarrow> field v ''partitions'' as_num; c \<leftarrow> field v ''created_at'' as_str;
     Some \<lparr>ti_name = n, ti_mode = m, ti_partitions = p, ti_created_at = c\<rparr> }"

definition decode_TopicPartition :: "json \<Rightarrow> TopicPartition option" where
  "decode_TopicPartition v = do {
     i \<leftarrow> field v ''id'' as_num; h \<leftarrow> field v ''high_watermark'' as_num; l \<leftarrow> field v ''log_start_offset'' as_num;
     Some \<lparr>tp_id = i, tp_high_watermark = h, tp_log_start_offset = l\<rparr> }"

definition decode_TopicDetail :: "json \<Rightarrow> TopicDetail option" where
  "decode_TopicDetail v = do {
     t \<leftarrow> decode_TopicInfo v;
     d \<leftarrow> opt_field v ''partitions_detail'' (as_arr decode_TopicPartition);
     Some \<lparr>ti_name = ti_name t, ti_mode = ti_mode t, ti_partitions = ti_partitions t,
           ti_created_at = ti_created_at t, td_partitions_detail = d\<rparr> }"

definition decode_ConsumerGroupInfo :: "json \<Rightarrow> ConsumerGroupInfo option" where
  "decode_ConsumerGroupInfo v = do {
     g \<leftarrow> field v ''groups'' (as_arr as_str); c \<leftarrow> field v ''count'' as_num;
     Some \<lparr>cg_groups = Some g, cg_count = c\<rparr> }"

definition decode_ConsumerMember :: "json \<Rightarrow> ConsumerMember option" where
  "decode_ConsumerMember v = do {
     i \<leftarrow> field v ''id'' as_str; p \<leftarrow> field v ''partitions'' (as_arr as_num);
     Some \<lparr>cm_id = i, cm_partitions = Some p\<rparr> }"

definition decode_ConsumerGroupDetail :: "json \<Rightarrow> ConsumerGroupDetail option" where
  "decode_ConsumerGroupDetail v = do {
     g \<leftarrow> field v ''group'' as_str; m \<leftarrow> field v ''members'' (as_arr decode_ConsumerMember);
     a \<leftarrow> field v ''assignments'' (as_obj (as_arr as_num));
     Some \<lparr>gd_group = g, gd_members = m, gd_assignments = a\<rparr> }"

definition decode_MemberInfo :: "json \<Rightarrow> MemberInfo option" where
  "decode_MemberInfo v = do {
     i \<leftarrow> field v ''id'' as_str; a \<leftarrow> field v ''addr'' as_str; p \<leftarrow> field v ''port'' as_num;
     s \<leftarrow> field v ''state'' as_str; n \<leftarrow> field v ''incarnation'' as_num;
     Some \<lparr>m_id = i, m_addr = a, m_port = p, m_state = s, m_incarnation = n\<rparr> }"

definition decode_ClusterResponse :: "json \<Rightarrow> ClusterResponse option" where
  "decode_ClusterResponse v = do {
     m \<leftarrow> field v ''mode'' as_str; l \<leftarrow> opt_field v ''is_leader'' as_bool;
     i \<leftarrow> opt_field v ''leader_id'' as_str; a \<leftarrow> field v ''alive_count'' as_num;
     ms \<leftarrow> field v ''members'' (as_arr decode_MemberInfo);
     Some \<lparr>cl_mode = m, cl_is_leader = l, cl_leader_id = i, cl_alive_count = a, cl_members = Some ms\<rparr> }"

definition decode_SchemaVersion :: "json \<Rightarrow> SchemaVersion option" where
  "decode_SchemaVersion v = do {
     i \<leftarrow> field v ''id'' as_num; s \<leftarrow> field v ''subject'' as_str; n \<leftarrow> field v ''version'' as_num;
     t \<leftarrow> field v ''type'' as_str; d \<leftarrow> field v ''schema'' as_str;
     Some \<lparr>sv_id = i, sv_subject = s, sv_version = n, sv_type = t, sv_schema = d\<rparr> }"

definition decode_GeoSender :: "json \<Rightarrow> GeoSender option" where
  "decode_GeoSender v = do {
     s \<leftarrow> field v ''events_sent'' as_num; f \<leftarrow> field v ''events_failed'' as_num;
     Some \<lparr>gs_events_sent = s, gs_events_failed = f\<rparr> }"

definition decode_GeoReceiver :: "json \<Rightarrow> GeoReceiver option" where
  "decode_GeoReceiver v = do {
     s \<leftarrow> field v ''events_received'' as_num; f \<leftarrow> field v ''events_rejected'' as_num;
     Some \<lparr>gr_events_received = s, gr_events_rejected = f\<rparr> }"

definition decode_GeoStatusResponse :: "json \<Rightarrow> GeoStatusResponse option" where
  "decode_GeoStatusResponse v = do {
     e \<leftarrow> field v ''enabled'' as_bool; d \<leftarrow> opt_field v ''local_dc'' as_str; m \<leftarrow> opt_field v ''mode'' as_str;
     n \<leftarrow> opt_field v ''remote_dcs'' as_num; s \<leftarrow> opt_field v ''sender'' decode_GeoSender;
     r \<leftarrow> opt_field v ''receiver'' decode_GeoReceiver;
     Some \<lparr>geo_enabled = e, geo_local_dc = d, geo_mode = m, geo_remote_dcs = n, geo_sender = s, geo_receiver = r\<rparr> }"

definition decode_WASMListResponse :: "json \<Rightarrow> WASMListResponse option" where
  "decode_WASMListResponse v = do {
     m \<leftarrow> field v ''modules'' (as_arr as_str); c \<leftarrow> field v ''count'' as_num;
     Some \<lparr>wl_modules = m, wl_count = c\<rparr> }"

definition decode_ProcessorInfo :: "json \<Rightarrow> ProcessorInfo option" where
  "decode_ProcessorInfo v = do {
     n \<leftarrow> field v ''name'' as_str; s \<leftarrow> field v ''state'' as_str; p \<leftarrow> field v ''parallelism'' as_num;
     a \<leftarrow> field v ''source_topic'' as_str; b \<leftarrow> field v ''sink_topic'' as_str; k \<leftarrow> field v ''operators'' as_num;
     Some \<lparr>p_name = n, p_state = s, p_parallelism = p, p_source_topic = a, p_sink_topic = b, p_operators = k\<rparr> }"

definition decode_ProcessorListResponse :: "json \<Rightarrow> ProcessorListResponse option" where
  "decode_ProcessorListResponse v = do {
     t \<leftarrow> field v ''topologies'' (as_arr as_str); c \<leftarrow> field v ''count'' as_num;
     Some \<lparr>pl_topologies = t, pl_count = c\<rparr> }"

definition decode_OriginalMsg :: "json \<Rightarrow> OriginalMsg option" where
  "decode_OriginalMsg v = do {
     i \<leftarrow> field v ''id'' as_str; t \<leftarrow> field v ''topic'' as_str; b \<leftarrow> field v ''body'' as_str;
     h \<leftarrow> opt_field v ''headers'' (as_obj as_str);
     ct \<leftarrow> opt_field v ''content_type'' as_str; ca \<leftarrow> opt_field v ''created_at'' as_str;
     Some \<lparr>om_id = i, om_topic = t, om_body = b, om_headers = h, om_content_type = ct, om_created_at = ca\<rparr> }"

definition decode_DLQEntry :: "json \<Rightarrow> DLQEntry option" where
  "decode_DLQEntry v = do {
     i \<leftarrow> field v ''id'' as_num; m \<leftarrow> field v ''original_msg'' decode_OriginalMsg;
     t \<leftarrow> field v ''topic'' as_str; p \<leftarrow> field v ''partition'' as_num; r \<leftarrow> field v ''reason'' as_str;
     n \<leftarrow> field v ''retries'' as_num; f \<leftarrow> field v ''failed_at'' as_str;
     Some \<lparr>e_id = i, e_original_msg = Some m, e_topic = t, e_partition = p, e_reason = r, e_retries = n, e_failed_at = f, e_raw = v\<rparr> }"

definition decode_DLQPeekResponse :: "json \<Rightarrow> DLQPeekResponse option" where
  "decode_DLQPeekResponse v = do {
     t \<leftarrow> field v ''topic'' as_str; c \<leftarrow> field v ''count'' as_num;
     es \<leftarrow> field v ''entries'' (as_arr decode_DLQEntry);
     Some \<lparr>dp_topic = t, dp_count = c, dp_entries = es\<rparr> }"

section \<open>Lemmas\<close>

lemma those_map_Some [simp]: "(\<And>x. x \<in> set xs \<Longrightarrow> f (g x) = Some (h x)) \<Longrightarrow> those (map (f \<circ> g) xs) = Some (map h xs)"
  by (induction xs) simp_all

end
