(* ===== verification/Consumer_Group.thy ===== *)
theory Consumer_Group
  imports Prelude "HOL-Library.AList" "HOL-Library.List_Lexorder" "HOL-Library.Char_ord"
begin

text \<open>
  \<^verbatim>\<open>internal/engine/stream/consumer_group.go\<close>: the members of a consumer group and the assignment of
  partitions to them.  A group is a record with the fields of the struct; the map of members is an
  association list with distinct keys, the maps of assignments and committed offsets are partial
  functions.  A member without partitions has a nil slice, which is the empty list here.  \<open>Join\<close>,
  \<open>Leave\<close> and the expiry of members change the members under the lock, release it, and take it again
  to rebalance; \<open>group_step\<close> interleaves these critical sections.
\<close>

section \<open>State\<close>

datatype strategy = StrategyRange | StrategyRoundRobin | StrategySticky

record GroupMember =
  gm_partitions :: "nat list"
  gm_lastHeartbeat :: nat

record ConsumerGroup =
  grp_name :: string
  grp_topic :: string
  grp_partitionCount :: nat
  grp_members :: "(string \<times> GroupMember) list"
  grp_assignments :: "nat \<Rightarrow> string option"
  grp_committed :: "nat \<Rightarrow> nat option"
  grp_strategy :: strategy
  grp_sessionTimeout :: nat

section \<open>The offset store\<close>

text \<open>\<^verbatim>\<open>offset.go\<close>: the offsets of every group in memory, and the files \<^verbatim>\<open><group>/offsets.json\<close> that \<open>persist\<close>
  writes and \<open>loadAll\<close> reads.  A file holds the map of one group; whether writing it succeeds is decided
  by the file system, the argument \<open>written\<close>.  The names are bytes, so their length counts bytes.\<close>

type_synonym offsets = "nat \<Rightarrow> nat option"

record OffsetStore =
  os_cache :: "string \<Rightarrow> offsets option"
  os_files :: "string \<Rightarrow> offsets option"

datatype group_error = GroupNameEmpty | GroupNameTooLong | GroupNameInvalid string | PersistFailed | NotInGroup string

definition group_char :: "char \<Rightarrow> bool" where
  "group_char c = (list_ex (\<lambda>(lo, hi). lo \<le> c \<and> c \<le> hi) [(CHR ''a'', CHR ''z''), (CHR ''A'', CHR ''Z''), (CHR ''0'', CHR ''9'')] \<or>
     c \<in> {CHR ''_'', CHR ''-''})"

definition ValidateGroupName :: "string \<Rightarrow> group_error option" where
  "ValidateGroupName grp =
     (if grp = '''' then Some GroupNameEmpty
      else if length grp > 256 then Some GroupNameTooLong
      else if \<not> list_all group_char grp then Some (GroupNameInvalid grp) else None)"

definition persist :: "bool \<Rightarrow> string \<Rightarrow> OffsetStore \<Rightarrow> group_error option \<times> OffsetStore" where
  "persist written grp s =
     (if written then (None, s\<lparr>os_files := (os_files s)(grp := os_cache s grp)\<rparr>) else (Some PersistFailed, s))"

definition Save :: "bool \<Rightarrow> string \<Rightarrow> nat \<Rightarrow> nat \<Rightarrow> OffsetStore \<Rightarrow> group_error option \<times> OffsetStore" where
  "Save written grp partitionID offset s = (case ValidateGroupName grp of
     Some err \<Rightarrow> (Some err, s)
   | None \<Rightarrow>
       let m = (case os_cache s grp of Some m \<Rightarrow> m | None \<Rightarrow> (\<lambda>_. None))
       in persist written grp (s\<lparr>os_cache := (os_cache s)(grp \<mapsto> m(partitionID \<mapsto> offset))\<rparr>))"

definition Get :: "OffsetStore \<Rightarrow> string \<Rightarrow> nat \<Rightarrow> nat" where
  "Get s grp partitionID = (case os_cache s grp of
     Some g \<Rightarrow> (case g partitionID of Some off \<Rightarrow> off | None \<Rightarrow> 0) | None \<Rightarrow> 0)"

text \<open>\<open>NewOffsetStore\<close> starts with an empty cache and reads the files of the groups with valid names.\<close>

definition loadAll :: "(string \<Rightarrow> offsets option) \<Rightarrow> string \<Rightarrow> offsets option" where
  "loadAll files grp = (if ValidateGroupName grp = None then files grp else None)"

definition NewOffsetStore :: "(string \<Rightarrow> offsets option) \<Rightarrow> OffsetStore" where
  "NewOffsetStore files = \<lparr>os_cache = loadAll files, os_files = files\<rparr>"

section \<open>A new group\<close>

definition loadCommittedOffsets :: "OffsetStore \<Rightarrow> string \<Rightarrow> nat \<Rightarrow> offsets" where
  "loadCommittedOffsets store name n i = (if i < n \<and> Get store name i > 0 then Some (Get store name i) else None)"

text \<open>Times are in milliseconds.\<close>

definition NewConsumerGroup :: "string \<Rightarrow> string \<Rightarrow> nat \<Rightarrow> strategy \<Rightarrow> OffsetStore \<Rightarrow> ConsumerGroup" where
  "NewConsumerGroup name topic partitionCount str offsetStore =
     \<lparr>grp_name = name, grp_topic = topic, grp_partitionCount = partitionCount, grp_members = [],
      grp_assignments = (\<lambda>_. None), grp_committed = loadCommittedOffsets offsetStore name partitionCount,
      grp_strategy = str, grp_sessionTimeout = 30000\<rparr>"

text \<open>\<open>cg.members[id].Partitions\<close>\<close>

definition parts :: "ConsumerGroup \<Rightarrow> string \<Rightarrow> nat list" where
  "parts g m = (case map_of (grp_members g) m of Some gm \<Rightarrow> gm_partitions gm | None \<Rightarrow> [])"

definition set_parts :: "string \<Rightarrow> nat list \<Rightarrow> ConsumerGroup \<Rightarrow> ConsumerGroup" where
  "set_parts m ps g = g\<lparr>grp_members := AList.map_entry m (\<lambda>gm. gm\<lparr>gm_partitions := ps\<rparr>) (grp_members g)\<rparr>"

text \<open>The assignment and the append that every strategy performs for a partition.\<close>

definition give :: "nat \<Rightarrow> string \<Rightarrow> ConsumerGroup \<Rightarrow> ConsumerGroup" where
  "give p m g = set_parts m (parts g m @ [p]) (g\<lparr>grp_assignments := (grp_assignments g)(p \<mapsto> m)\<rparr>)"

section \<open>Strategies\<close>

fun range_inner :: "nat list \<Rightarrow> string \<Rightarrow> nat \<Rightarrow> nat \<Rightarrow> ConsumerGroup \<Rightarrow> ConsumerGroup \<times> nat" where
  "range_inner ps m 0 idx g = (g, idx)"
| "range_inner ps m (Suc c) idx g =
     (if idx < length ps then range_inner ps m c (Suc idx) (give (ps ! idx) m g) else (g, idx))"

fun range_outer :: "nat list \<Rightarrow> nat \<Rightarrow> nat \<Rightarrow> nat \<Rightarrow> string list \<Rightarrow> nat \<Rightarrow> ConsumerGroup \<Rightarrow> ConsumerGroup" where
  "range_outer ps perMember remainder i [] idx g = g"
| "range_outer ps perMember remainder i (m # ms) idx g =
     (let count = (if i < remainder then perMember + 1 else perMember);
          (g', idx') = range_inner ps m count idx g
      in range_outer ps perMember remainder (Suc i) ms idx' g')"

definition rebalanceRange :: "nat list \<Rightarrow> string list \<Rightarrow> ConsumerGroup \<Rightarrow> ConsumerGroup" where
  "rebalanceRange ps ms g = range_outer ps (length ps div length ms) (length ps mod length ms) 0 ms 0 g"

definition rebalanceRoundRobin :: "nat list \<Rightarrow> string list \<Rightarrow> ConsumerGroup \<Rightarrow> ConsumerGroup" where
  "rebalanceRoundRobin ps ms g =
     fold (\<lambda>(i, p). give p (ms ! (i mod length ms))) (zip [0..<length ps] ps) g"

text \<open>\<open>memberWithFewest\<close>: the first member with the smallest count; \<open>None\<close> is the largest \<open>int\<close>.\<close>

fun fewest :: "ConsumerGroup \<Rightarrow> nat option \<Rightarrow> string \<Rightarrow> string list \<Rightarrow> string" where
  "fewest g minCount chosen [] = chosen"
| "fewest g minCount chosen (m # ms) =
     (let cnt = length (parts g m)
      in if (case minCount of None \<Rightarrow> True | Some k \<Rightarrow> cnt < k) then fewest g (Some cnt) m ms else fewest g minCount chosen ms)"

definition memberWithFewest :: "ConsumerGroup \<Rightarrow> string list \<Rightarrow> string" where
  "memberWithFewest g ms = fewest g None '''' ms"

definition sticky_keep :: "string list \<Rightarrow> (nat \<Rightarrow> string option) \<Rightarrow> nat list \<Rightarrow> ConsumerGroup \<Rightarrow> ConsumerGroup" where
  "sticky_keep ms prev ps g = fold (\<lambda>p g. case prev p of
     Some m \<Rightarrow> if m \<in> set ms then give p m g else g | None \<Rightarrow> g) ps g"

definition unassigned :: "nat list \<Rightarrow> ConsumerGroup \<Rightarrow> nat list" where
  "unassigned ps g = filter (\<lambda>p. grp_assignments g p = None) ps"

definition sticky_fill :: "string list \<Rightarrow> nat list \<Rightarrow> ConsumerGroup \<Rightarrow> ConsumerGroup" where
  "sticky_fill ms us g = fold (\<lambda>p g. give p (memberWithFewest g ms) g) us g"

text \<open>The search for the most overloaded and the most underloaded member: the empty name says that
  none was found.\<close>

fun sticky_scan :: "ConsumerGroup \<Rightarrow> nat \<Rightarrow> string list \<Rightarrow> string \<times> nat \<Rightarrow> string \<times> nat \<Rightarrow> string \<times> string" where
  "sticky_scan g target [] ov un = (fst ov, fst un)"
| "sticky_scan g target (m # ms) ov un =
     (let cnt = length (parts g m)
      in sticky_scan g target ms
           (if cnt > target + 1 \<and> cnt > snd ov then (m, cnt) else ov)
           (if cnt < target \<and> cnt < snd un then (m, cnt) else un))"

definition sticky_pair :: "ConsumerGroup \<Rightarrow> nat \<Rightarrow> nat \<Rightarrow> string list \<Rightarrow> string \<times> string" where
  "sticky_pair g n target ms = sticky_scan g target ms ('''', 0) ('''', n + 1)"

definition steal :: "string \<Rightarrow> string \<Rightarrow> ConsumerGroup \<Rightarrow> ConsumerGroup" where
  "steal ov un g =
     (let p = last (parts g ov); g' = set_parts ov (butlast (parts g ov)) g
      in (set_parts un (parts g' un @ [p]) g')\<lparr>grp_assignments := (grp_assignments g)(p \<mapsto> un)\<rparr>)"

definition ids :: "ConsumerGroup \<Rightarrow> string set" where
  "ids g = fst ` set (grp_members g)"

text \<open>Every round moves a partition from a member to one that has at least three fewer, so the sum of the
  squares of the counts falls.\<close>

definition load2 :: "string list \<Rightarrow> ConsumerGroup \<Rightarrow> nat" where
  "load2 ms g = (\<Sum>m\<in>set ms. (length (parts g m))\<^sup>2)"

lemma keys_map_entry [simp]: "map fst (AList.map_entry k f xs) = map fst xs"
  by (induction xs) auto

lemma keys_map_entry_set [simp]: "fst ` set (AList.map_entry k f xs) = fst ` set xs"
  by (metis keys_map_entry list.set_map)

lemma parts_set_parts: "parts (set_parts m ps g) m' = (if m' = m \<and> m \<in> ids g then ps else parts g m')"
  by (auto simp: ids_def parts_def set_parts_def map_of_map_entry map_of_eq_None_iff split: option.split)
     (metis map_of_eq_None_iff option.distinct(1))+

lemma members_set_parts [simp]: "map fst (grp_members (set_parts m ps g)) = map fst (grp_members g)"
  by (simp add: set_parts_def)

lemma member_set_set_parts [simp]: "ids (set_parts m ps g) = ids g"
  by (simp add: ids_def set_parts_def)

lemma parts_assignments [simp]: "parts (g\<lparr>grp_assignments := a\<rparr>) m = parts g m"
  by (simp add: parts_def)

lemma ids_assignments [simp]: "ids (g\<lparr>grp_assignments := a\<rparr>) = ids g"
  by (simp add: ids_def)

lemma parts_nonmember: "m \<notin> ids g \<Longrightarrow> parts g m = []"
  unfolding parts_def ids_def by (metis map_of_eq_None_iff option.simps(4))

lemma sticky_scan_over:
  "sticky_scan g t ms ov un = (a, b) \<Longrightarrow>
   a = fst ov \<or> (a \<in> set ms \<and> length (parts g a) > t + 1)"
  by (induction ms arbitrary: ov un) (fastforce simp: Let_def split: if_splits)+

lemma sticky_scan_under:
  "sticky_scan g t ms ov un = (a, b) \<Longrightarrow>
   b = fst un \<or> (b \<in> set ms \<and> length (parts g b) < t)"
  by (induction ms arbitrary: ov un) (fastforce simp: Let_def split: if_splits)+

lemma sticky_pair_sound:
  assumes "sticky_pair g n t ms = (a, b)"
  shows "a \<noteq> '''' \<Longrightarrow> a \<in> set ms \<and> length (parts g a) > t + 1"
    and "b \<noteq> '''' \<Longrightarrow> b \<in> set ms \<and> length (parts g b) < t"
  using sticky_scan_over [OF assms [unfolded sticky_pair_def]]
    sticky_scan_under [OF assms [unfolded sticky_pair_def]] by auto

lemma parts_steal:
  assumes "parts g ov \<noteq> []" "ov \<noteq> un"
  shows "parts (steal ov un g) m =
    (if m = ov then butlast (parts g ov)
     else if m = un \<and> un \<in> ids g then parts g un @ [last (parts g ov)] else parts g m)"
proof -
  have "ov \<in> ids g"
    using assms(1) parts_nonmember by blast
  then show ?thesis
    using assms(2) by (auto simp: steal_def Let_def parts_set_parts)
qed

lemma square_move:
  fixes b k d :: nat
  assumes "d \<le> b + 1"
  shows "(b + 2 + k)\<^sup>2 + d\<^sup>2 < (b + 3 + k)\<^sup>2 + b\<^sup>2"
proof -
  have "d\<^sup>2 \<le> (b + 1)\<^sup>2"
    using assms by (simp add: power_mono)
  then show ?thesis
    by (simp add: power2_eq_square algebra_simps)
qed

lemma load2_steal:
  assumes "ov \<in> set ms" "un \<in> set ms" and ov: "length (parts g ov) > t + 1" and un: "length (parts g un) < t"
  shows "load2 ms (steal ov un g) < load2 ms g"
proof -
  have ne: "ov \<noteq> un" "parts g ov \<noteq> []"
    using ov un by auto
  let ?f = "\<lambda>g m. (length (parts g m))\<^sup>2" and ?R = "set ms - {ov} - {un}"
  have split: "load2 ms h = ?f h ov + ?f h un + (\<Sum>m\<in>?R. ?f h m)" for h
    using assms(1,2) ne(1) by (simp add: load2_def sum.remove [of _ ov] sum.remove [of _ un])
  have rest: "(\<Sum>m\<in>?R. ?f (steal ov un g) m) = (\<Sum>m\<in>?R. ?f g m)"
    by (rule sum.cong) (auto simp: parts_steal ne)
  obtain k where k: "length (parts g ov) = length (parts g un) + 3 + k"
    using le_Suc_ex [of "length (parts g un) + 3" "length (parts g ov)"] ov un by auto
  have "?f (steal ov un g) ov + ?f (steal ov un g) un < ?f g ov + ?f g un"
    using square_move [of "length (parts (steal ov un g) un)" "length (parts g un)" k] ne(1)
    by (simp add: parts_steal [OF ne(2,1)] k)
  then show ?thesis
    by (simp add: split rest)
qed

function sticky_loop :: "nat \<Rightarrow> nat \<Rightarrow> string list \<Rightarrow> ConsumerGroup \<Rightarrow> ConsumerGroup" where
  "sticky_loop n target ms g =
     (let (overMember, underMember) = sticky_pair g n target ms
      in if overMember = '''' \<or> underMember = '''' then g
         else sticky_loop n target ms (steal overMember underMember g))"
  by auto
termination
proof (relation "measure (\<lambda>(n, t, ms, g). load2 ms g)", goal_cases)
  case (2 n t ms g p ov un)
  then show ?case
    using sticky_pair_sound [of g n t ms ov un] load2_steal [of ov ms un t g] by auto
qed simp

declare sticky_loop.simps [simp del]

definition rebalanceSticky :: "nat list \<Rightarrow> string list \<Rightarrow> (nat \<Rightarrow> string option) \<Rightarrow> ConsumerGroup \<Rightarrow> ConsumerGroup" where
  "rebalanceSticky ps ms prev g =
     (let g1 = sticky_keep ms prev ps g;
          g2 = sticky_fill ms (unassigned ps g1) g1
      in sticky_loop (length ps) (length ps div length ms) ms g2)"

definition cleared :: "ConsumerGroup \<Rightarrow> ConsumerGroup" where
  "cleared g = g\<lparr>grp_assignments := (\<lambda>_. None),
     grp_members := map (\<lambda>(k, m). (k, m\<lparr>gm_partitions := []\<rparr>)) (grp_members g)\<rparr>"

definition memberIDs :: "ConsumerGroup \<Rightarrow> string list" where
  "memberIDs g = sort (map fst (grp_members g))"

text \<open>Values of the strategy other than the three constants are treated as \<open>StrategyRoundRobin\<close>.\<close>

definition rebalance :: "ConsumerGroup \<Rightarrow> ConsumerGroup" where
  "rebalance g =
     (let prevAssignments = grp_assignments g; g' = cleared g; partitions = [0..<grp_partitionCount g]
      in if grp_members g' = [] then g'
         else case grp_strategy g' of
           StrategyRange \<Rightarrow> rebalanceRange partitions (memberIDs g') g'
         | StrategySticky \<Rightarrow> rebalanceSticky partitions (memberIDs g') prevAssignments g'
         | StrategyRoundRobin \<Rightarrow> rebalanceRoundRobin partitions (memberIDs g') g')"

section \<open>Operations\<close>

text \<open>The part of each operation under the lock; \<open>now\<close> is the time of the call.\<close>

definition join_add :: "nat \<Rightarrow> string \<Rightarrow> ConsumerGroup \<Rightarrow> ConsumerGroup" where
  "join_add now m g = g\<lparr>grp_members := AList.update m \<lparr>gm_partitions = [], gm_lastHeartbeat = now\<rparr> (grp_members g)\<rparr>"

definition Join :: "nat \<Rightarrow> string \<Rightarrow> ConsumerGroup \<Rightarrow> ConsumerGroup" where
  "Join now m g = rebalance (join_add now m g)"

definition leave_del :: "string \<Rightarrow> ConsumerGroup \<Rightarrow> ConsumerGroup" where
  "leave_del m g = g\<lparr>grp_members := AList.delete m (grp_members g)\<rparr>"

definition Leave :: "string \<Rightarrow> ConsumerGroup \<Rightarrow> ConsumerGroup" where
  "Leave m g = rebalance (leave_del m g)"

definition Heartbeat :: "nat \<Rightarrow> string \<Rightarrow> ConsumerGroup \<Rightarrow> group_error option \<times> ConsumerGroup" where
  "Heartbeat now m g = (case map_of (grp_members g) m of
     None \<Rightarrow> (Some (NotInGroup m), g)
   | Some gm \<Rightarrow> (None, g\<lparr>grp_members := AList.update m (gm\<lparr>gm_lastHeartbeat := now\<rparr>) (grp_members g)\<rparr>))"

definition CommitOffset ::
  "bool \<Rightarrow> nat \<Rightarrow> nat \<Rightarrow> ConsumerGroup \<Rightarrow> OffsetStore \<Rightarrow> group_error option \<times> ConsumerGroup \<times> OffsetStore" where
  "CommitOffset written partitionID offset g s =
     (let g' = g\<lparr>grp_committed := (grp_committed g)(partitionID \<mapsto> offset)\<rparr>;
          (err, s') = Save written (grp_name g) partitionID offset s
      in (err, g', s'))"

definition GetCommittedOffset :: "ConsumerGroup \<Rightarrow> nat \<Rightarrow> nat" where
  "GetCommittedOffset g partitionID = (case grp_committed g partitionID of Some off \<Rightarrow> off | None \<Rightarrow> 0)"

text \<open>A tick of \<open>heartbeatLoop\<close>: the members not heard of within the timeout, and their removal.\<close>

definition expired :: "nat \<Rightarrow> ConsumerGroup \<Rightarrow> string list" where
  "expired now g = map fst (filter (\<lambda>(k, m). now - gm_lastHeartbeat m > grp_sessionTimeout g) (grp_members g))"

definition expire_del :: "nat \<Rightarrow> ConsumerGroup \<Rightarrow> ConsumerGroup" where
  "expire_del now g = fold leave_del (expired now g) g"

definition heartbeat_tick :: "nat \<Rightarrow> ConsumerGroup \<Rightarrow> ConsumerGroup" where
  "heartbeat_tick now g = (if expired now g \<noteq> [] then rebalance (expire_del now g) else expire_del now g)"

text \<open>\<open>Members\<close> copies each list of partitions with \<open>append\<close> onto a nil slice, so that an empty list
  becomes nil, which \<open>None\<close> stands for.\<close>

definition Members :: "ConsumerGroup \<Rightarrow> (string \<times> nat list option) list" where
  "Members g = map (\<lambda>(k, m). (k, if gm_partitions m = [] then None else Some (gm_partitions m))) (grp_members g)"

section \<open>Interleaving\<close>

text \<open>A group with the number of calls that have changed the members and still have to rebalance.\<close>

datatype group_event = JoinAdd nat string | LeaveDel string | Tick nat | Rebalance | Beat nat string | Commit nat nat

inductive group_step :: "ConsumerGroup \<times> nat \<Rightarrow> group_event \<Rightarrow> ConsumerGroup \<times> nat \<Rightarrow> bool" where
  step_join: "group_step (g, k) (JoinAdd now m) (join_add now m g, Suc k)"
| step_leave: "group_step (g, k) (LeaveDel m) (leave_del m g, Suc k)"
| step_tick: "group_step (g, k) (Tick now) (expire_del now g, if expired now g = [] then k else Suc k)"
| step_rebalance: "group_step (g, Suc k) Rebalance (rebalance g, k)"
| step_beat: "group_step (g, k) (Beat now m) (snd (Heartbeat now m g), k)"
| step_commit: "group_step (g, k) (Commit p off) (g\<lparr>grp_committed := (grp_committed g)(p \<mapsto> off)\<rparr>, k)"

inductive_cases group_stepE: "group_step (g, k) e (g', k')"

inductive group_reachable :: "string \<Rightarrow> string \<Rightarrow> nat \<Rightarrow> strategy \<Rightarrow> OffsetStore \<Rightarrow> ConsumerGroup \<times> nat \<Rightarrow> bool"
  for name topic n str store where
  reach_new: "group_reachable name topic n str store (NewConsumerGroup name topic n str store, 0)"
| reach_step: "group_reachable name topic n str store s \<Longrightarrow> group_step s e s' \<Longrightarrow> group_reachable name topic n str store s'"

section \<open>Sequences of assignments\<close>

text \<open>What a rebalance leaves alone.\<close>

definition frame :: "ConsumerGroup \<Rightarrow> (string \<times> nat) list \<times> string \<times> string \<times> nat \<times> offsets \<times> strategy \<times> nat" where
  "frame g = (map (\<lambda>(k, m). (k, gm_lastHeartbeat m)) (grp_members g), grp_name g, grp_topic g, grp_partitionCount g,
     grp_committed g, grp_strategy g, grp_sessionTimeout g)"

text \<open>The lists of the members and the map of the assignments say the same.\<close>

definition consistent :: "ConsumerGroup \<Rightarrow> bool" where
  "consistent g \<longleftrightarrow> (\<forall>m. distinct (parts g m)) \<and> (\<forall>p m. p \<in> set (parts g m) \<longleftrightarrow> grp_assignments g p = Some m)"

definition gives :: "(nat \<times> string) list \<Rightarrow> ConsumerGroup \<Rightarrow> ConsumerGroup" where
  "gives xs g = fold (\<lambda>(p, m). give p m) xs g"

lemma gives_simps [simp]: "gives [] g = g" "gives ((p, m) # xs) g = gives xs (give p m g)"
  by (simp_all add: gives_def)

lemma gives_append: "gives (xs @ ys) g = gives ys (gives xs g)"
  by (simp add: gives_def)

lemma map_entry_frame:
  "(\<And>m. gm_lastHeartbeat (f m) = gm_lastHeartbeat m) \<Longrightarrow>
   map (\<lambda>(k, m). (k, gm_lastHeartbeat m)) (AList.map_entry k f xs) = map (\<lambda>(k, m). (k, gm_lastHeartbeat m)) xs"
  by (induction xs) auto

lemma frame_set_parts [simp]: "frame (set_parts m ps g) = frame g"
  by (simp add: frame_def set_parts_def map_entry_frame)

lemma frame_assignments [simp]: "frame (g\<lparr>grp_assignments := a\<rparr>) = frame g"
  by (simp add: frame_def)

lemma frame_give [simp]: "frame (give p m g) = frame g"
  by (simp add: give_def)

lemma frame_steal [simp]: "frame (steal a b g) = frame g"
  by (simp add: steal_def Let_def)

lemma frame_gives [simp]: "frame (gives xs g) = frame g"
  by (induction xs arbitrary: g) auto

lemma frame_keys: "frame g = frame g' \<Longrightarrow> map fst (grp_members g) = map fst (grp_members g')"
  by (metis (no_types, lifting) ext case_prod_beta comp_apply frame_def fst_conv list.map_comp prod.inject)

lemma frame_ids: "frame g = frame g' \<Longrightarrow> ids g = ids g'"
  unfolding ids_def by (metis frame_keys list.set_map)

lemma assignments_set_parts [simp]: "grp_assignments (set_parts m ps g) = grp_assignments g"
  by (simp add: set_parts_def)

lemma assignments_give [simp]: "grp_assignments (give p m g) = (grp_assignments g)(p \<mapsto> m)"
  by (simp add: give_def)

lemma parts_give:
  "m \<in> ids g \<Longrightarrow> parts (give p m g) m' = (if m' = m then parts g m @ [p] else parts g m')"
  by (simp add: give_def parts_set_parts)

lemma give_consistent:
  "consistent g \<Longrightarrow> grp_assignments g p = None \<Longrightarrow> m \<in> ids g \<Longrightarrow> consistent (give p m g)"
  by (auto simp: consistent_def parts_give)

lemma ids_give [simp]: "ids (give p m g) = ids g"
  by (rule frame_ids) simp

lemma ids_gives [simp]: "ids (gives xs g) = ids g"
  by (rule frame_ids) simp

lemma ids_steal [simp]: "ids (steal a b g) = ids g"
  by (rule frame_ids) simp

lemma dom_gives [simp]: "dom (grp_assignments (gives xs g)) = dom (grp_assignments g) \<union> fst ` set xs"
proof (induction xs arbitrary: g)
  case (Cons x xs)
  then show ?case
    by (cases x) (simp del: fun_upd_apply)
qed simp

lemma gives_consistent:
  assumes "consistent g" "distinct (map fst xs)" "fst ` set xs \<inter> dom (grp_assignments g) = {}"
    "snd ` set xs \<subseteq> ids g"
  shows "consistent (gives xs g)"
  using assms
proof (induction xs arbitrary: g)
  case (Cons x xs)
  obtain p m where x: "x = (p, m)"
    by fastforce
  from Cons.prems have "consistent (give p m g)"
    by (intro give_consistent) (auto simp: x)
  moreover have "fst ` set xs \<inter> dom (grp_assignments (give p m g)) = {}"
    using Cons.prems(2,3) by (auto simp: x image_iff)
  ultimately show ?case
    using Cons.IH [of "give p m g"] Cons.prems(2,4) by (simp add: x del: fun_upd_apply)
qed simp

lemma count_gives:
  "snd ` set xs \<subseteq> ids g \<Longrightarrow>
   length (parts (gives xs g) m) = length (parts g m) + count_list (map snd xs) m"
  by (induction xs arbitrary: g) (auto simp: parts_give)

lemma assignments_gives_other: "p \<notin> fst ` set xs \<Longrightarrow> grp_assignments (gives xs g) p = grp_assignments g p"
  by (induction xs arbitrary: g) (auto simp: image_iff)

section \<open>The strategies as sequences of assignments\<close>

text \<open>A strategy hands out the partitions of a cleared group: every partition to one member.\<close>

definition fresh :: "string list \<Rightarrow> ConsumerGroup \<Rightarrow> bool" where
  "fresh ms g \<longleftrightarrow> consistent g \<and> grp_assignments g = (\<lambda>_. None) \<and> ids g = set ms"

locale assignor =
  fixes assign :: "nat list \<Rightarrow> string list \<Rightarrow> ConsumerGroup \<Rightarrow> ConsumerGroup"
  assumes assign_frame: "frame (assign ps ms g) = frame g"
    and assign_consistent: "fresh ms g \<Longrightarrow> ms \<noteq> [] \<Longrightarrow> distinct ps \<Longrightarrow> consistent (assign ps ms g)"
    and assign_all: "fresh ms g \<Longrightarrow> ms \<noteq> [] \<Longrightarrow> distinct ps \<Longrightarrow> dom (grp_assignments (assign ps ms g)) = set ps"
begin

lemma assign_owner:
  assumes "fresh ms g" "ms \<noteq> []" "distinct ps" "p \<in> set ps"
  shows "\<exists>!m. p \<in> set (parts (assign ps ms g) m)"
proof -
  from assms obtain m where "grp_assignments (assign ps ms g) p = Some m"
    using assign_all by blast
  with assms assign_consistent [of ms g ps] show ?thesis
    by (auto simp: consistent_def)
qed

lemma assign_ids: "fresh ms g \<Longrightarrow> ids (assign ps ms g) = set ms"
  using frame_ids [OF assign_frame] by (simp add: fresh_def)

lemma assign_to_members: "fresh ms g \<Longrightarrow> p \<in> set (parts (assign ps ms g) m) \<Longrightarrow> m \<in> set ms"
  by (metis assign_ids empty_iff empty_set parts_nonmember)

end

text \<open>The owners that the range strategy gives to successive partitions.\<close>

fun range_owners :: "nat \<Rightarrow> nat \<Rightarrow> nat \<Rightarrow> string list \<Rightarrow> string list" where
  "range_owners perMember remainder i [] = []"
| "range_owners perMember remainder i (m # ms) =
     replicate (if i < remainder then perMember + 1 else perMember) m @ range_owners perMember remainder (Suc i) ms"

lemma range_inner_gives:
  "idx + c \<le> length ps \<Longrightarrow>
   range_inner ps m c idx g = (gives (map (\<lambda>p. (p, m)) (take c (drop idx ps))) g, idx + c)"
proof (induction c arbitrary: idx g)
  case (Suc c)
  then have "take (Suc c) (drop idx ps) = ps ! idx # take c (drop (Suc idx) ps)"
    by (simp add: Cons_nth_drop_Suc [symmetric])
  with Suc show ?case
    by simp
qed simp

lemma zip_replicate_take: "c \<le> length xs \<Longrightarrow> map (\<lambda>p. (p, m)) (take c xs) = zip (take c xs) (replicate c m)"
  by (simp add: zip_replicate2)

lemma range_outer_gives:
  "idx + length (range_owners q r i ms) = length ps \<Longrightarrow>
   range_outer ps q r i ms idx g = gives (zip (drop idx ps) (range_owners q r i ms)) g"
proof (induction ms arbitrary: i idx g)
  case Nil
  then show ?case by simp
next
  case (Cons m ms)
  define c where "c = (if i < r then q + 1 else q)"
  have len: "idx + c + length (range_owners q r (Suc i) ms) = length ps"
    using Cons.prems by (simp add: range_owners.simps(2) c_def)
  have "zip (drop idx ps) (range_owners q r i (m # ms)) =
    map (\<lambda>p. (p, m)) (take c (drop idx ps)) @ zip (drop (idx + c) ps) (range_owners q r (Suc i) ms)"
    using len by (simp add: range_owners.simps(2) c_def [symmetric] zip_append2 zip_replicate_take add.commute)
  moreover have "range_inner ps m c idx g = (gives (map (\<lambda>p. (p, m)) (take c (drop idx ps))) g, idx + c)"
    using len by (intro range_inner_gives) simp
  ultimately show ?case
    using Cons.IH [OF len] by (simp add: c_def [symmetric] Let_def gives_append)
qed

lemma length_range_owners: "length (range_owners q r i ms) = q * length ms + min (r - i) (length ms)"
proof (induction ms arbitrary: i)
  case Nil
  then show ?case by simp
next
  case (Cons m ms)
  then show ?case by (auto simp: range_owners.simps(2) min_def)
qed

lemma rebalanceRange_gives:
  assumes "ms \<noteq> []"
  shows "rebalanceRange ps ms g = gives (zip ps (range_owners (length ps div length ms) (length ps mod length ms) 0 ms)) g"
proof -
  have "length ps mod length ms < length ms"
    using assms by simp
  then show ?thesis
    by (simp add: rebalanceRange_def range_outer_gives length_range_owners)
qed

lemma set_range_owners: "set (range_owners q r i ms) \<subseteq> set ms"
  by (induction ms arbitrary: i) auto

lemma rebalanceRoundRobin_gives:
  "rebalanceRoundRobin ps ms g = gives (zip ps (map (\<lambda>i. ms ! (i mod length ms)) [0..<length ps])) g"
proof -
  have "zip ps (map f [0..<length ps]) = map (\<lambda>(i, p). (p, f i)) (zip [0..<length ps] ps)" for f :: "nat \<Rightarrow> string"
    by (rule nth_equalityI) auto
  then show ?thesis
    by (simp add: rebalanceRoundRobin_def gives_def fold_map comp_def case_prod_unfold)
qed

text \<open>Handing out \<open>ps\<close> to owners of the same number is an assignment of all of them.\<close>

lemma gives_zip_assigns:
  assumes "fresh ms g" "length os = length ps" "set os \<subseteq> set ms"
  shows "distinct ps \<Longrightarrow> consistent (gives (zip ps os) g)"
    and "dom (grp_assignments (gives (zip ps os) g)) = set ps"
proof -
  have "set (map fst (zip ps os)) = set ps" "set (map snd (zip ps os)) = set os"
    using assms(2) by (simp_all only: map_fst_zip map_snd_zip)
  then have "fst ` set (zip ps os) = set ps" "snd ` set (zip ps os) = set os"
    by simp_all
  with assms show "distinct ps \<Longrightarrow> consistent (gives (zip ps os) g)"
    "dom (grp_assignments (gives (zip ps os) g)) = set ps"
    by (auto intro!: gives_consistent simp: fresh_def)
qed

lemma range_frame: "frame (rebalanceRange ps ms g) = frame g"
proof -
  have inner: "frame (fst (range_inner ps m c idx g)) = frame g" for m c idx g
    by (induction ps m c idx g rule: range_inner.induct) auto
  have "frame (range_outer ps q r i ms idx g) = frame g" for q r i idx
  proof (induction ms arbitrary: i idx g)
    case (Cons m ms)
    then show ?case
      by (metis (no_types, lifting) case_prod_conv inner prod.collapse range_outer.simps(2))
  qed simp
  then show ?thesis
    by (simp add: rebalanceRange_def)
qed

lemma length_range_all:
  "ms \<noteq> [] \<Longrightarrow> length (range_owners (n div length ms) (n mod length ms) 0 ms) = n"
  using div_mult_mod_eq [of n "length ms"] mod_less_divisor [of "length ms" n]
  by (simp add: length_range_owners)

interpretation range_strategy: assignor rebalanceRange
proof
  fix ps ms and g :: ConsumerGroup
  show "frame (rebalanceRange ps ms g) = frame g"
    by (rule range_frame)
  assume "fresh ms g" "ms \<noteq> []"
  note gives = gives_zip_assigns [OF this(1) length_range_all [OF this(2)] set_range_owners]
  show "distinct ps \<Longrightarrow> consistent (rebalanceRange ps ms g)"
    "dom (grp_assignments (rebalanceRange ps ms g)) = set ps"
    using \<open>ms \<noteq> []\<close> gives by (simp_all add: rebalanceRange_gives)
qed

lemma round_robin_owners: "ms \<noteq> [] \<Longrightarrow> set (map (\<lambda>i. ms ! (i mod length ms)) [0..<n]) \<subseteq> set ms"
  by auto

interpretation round_robin_strategy: assignor rebalanceRoundRobin
proof
  fix ps ms and g :: ConsumerGroup
  show "frame (rebalanceRoundRobin ps ms g) = frame g"
    by (simp add: rebalanceRoundRobin_gives)
  assume "fresh ms g" "ms \<noteq> []"
  note gives = gives_zip_assigns [OF this(1) _ round_robin_owners [OF this(2)]]
  show "distinct ps \<Longrightarrow> consistent (rebalanceRoundRobin ps ms g)"
    "dom (grp_assignments (rebalanceRoundRobin ps ms g)) = set ps"
    unfolding rebalanceRoundRobin_gives by (rule gives; simp)+
qed

section \<open>The sticky strategy\<close>

definition kept :: "string list \<Rightarrow> (nat \<Rightarrow> string option) \<Rightarrow> nat list \<Rightarrow> (nat \<times> string) list" where
  "kept ms prev ps = concat (map (\<lambda>p. case prev p of Some m \<Rightarrow> if m \<in> set ms then [(p, m)] else [] | None \<Rightarrow> []) ps)"

lemma sticky_keep_gives: "sticky_keep ms prev ps g = gives (kept ms prev ps) g"
  by (induction ps arbitrary: g) (auto simp: sticky_keep_def kept_def split: option.split)

lemma set_kept: "set (kept ms prev ps) = {(p, m). p \<in> set ps \<and> prev p = Some m \<and> m \<in> set ms}"
  by (auto simp: kept_def split: option.splits if_splits)

lemma fst_kept: "fst ` set (kept ms prev ps) = {p \<in> set ps. \<exists>m\<in>set ms. prev p = Some m}"
  unfolding set_kept by force

lemma snd_kept: "snd ` set (kept ms prev ps) \<subseteq> set ms"
  unfolding set_kept by force

lemma distinct_kept: "distinct ps \<Longrightarrow> distinct (map fst (kept ms prev ps))"
proof (induction ps)
  case (Cons p ps)
  moreover have "p \<notin> fst ` set (kept ms prev ps)" if "p \<notin> set ps"
    using that by (auto simp: set_kept)
  ultimately show ?case
    by (auto simp: kept_def split: option.split)
qed (simp add: kept_def)

lemma set_unassigned: "set (unassigned ps g) = set ps - dom (grp_assignments g)"
  by (auto simp: unassigned_def)

lemma distinct_unassigned: "distinct ps \<Longrightarrow> distinct (unassigned ps g)"
  by (simp add: unassigned_def)

lemma fewest_sound:
  "fewest g (Some (length (parts g c))) c ms \<in> set (c # ms) \<and>
   (\<forall>m\<in>set (c # ms). length (parts g (fewest g (Some (length (parts g c))) c ms)) \<le> length (parts g m))"
proof (induction ms arbitrary: c)
  case (Cons m ms)
  show ?case
  proof (cases "length (parts g m) < length (parts g c)")
    case True
    with Cons.IH [of m] show ?thesis by fastforce
  next
    case False
    with Cons.IH [of c] show ?thesis by fastforce
  qed
qed simp

lemma memberWithFewest_sound:
  assumes "ms \<noteq> []"
  shows "memberWithFewest g ms \<in> set ms" "m \<in> set ms \<Longrightarrow> length (parts g (memberWithFewest g ms)) \<le> length (parts g m)"
proof -
  from assms obtain c cs where ms: "ms = c # cs"
    by (cases ms) auto
  have "memberWithFewest g ms = fewest g (Some (length (parts g c))) c cs"
    by (simp add: memberWithFewest_def ms)
  with fewest_sound [of g c cs] show "memberWithFewest g ms \<in> set ms"
    "m \<in> set ms \<Longrightarrow> length (parts g (memberWithFewest g ms)) \<le> length (parts g m)"
    by (simp_all only: ms)
qed

lemma sticky_fill_gives:
  assumes "ms \<noteq> []"
  shows "\<exists>os. length os = length us \<and> set os \<subseteq> set ms \<and> sticky_fill ms us g = gives (zip us os) g"
proof (induction us arbitrary: g)
  case (Cons u us)
  from Cons [of "give u (memberWithFewest g ms) g"] obtain os where
    "length os = length us" "set os \<subseteq> set ms" "sticky_fill ms (u # us) g = gives (zip us os) (give u (memberWithFewest g ms) g)"
    by (auto simp: sticky_fill_def)
  with memberWithFewest_sound(1) [OF assms, of g] show ?case
    by (intro exI [of _ "memberWithFewest g ms # os"]) simp
qed (simp add: sticky_fill_def)

lemma steal_consistent:
  assumes "consistent g" "parts g ov \<noteq> []" "ov \<noteq> un" "un \<in> ids g"
  shows "consistent (steal ov un g)" "dom (grp_assignments (steal ov un g)) = dom (grp_assignments g)"
proof -
  define p where "p = last (parts g ov)"
  obtain xs where xs: "parts g ov = xs @ [p]"
    using assms(2) append_butlast_last_id p_def by metis
  have owner: "grp_assignments g p = Some ov"
    using assms(1) xs unfolding consistent_def by (metis in_set_conv_decomp)
  have ov: "distinct (xs @ [p])" "\<And>q. q \<in> set (xs @ [p]) \<longleftrightarrow> grp_assignments g q = Some ov"
    using assms(1) xs unfolding consistent_def by metis+
  have assignments: "grp_assignments (steal ov un g) = (grp_assignments g)(p \<mapsto> un)"
    by (simp add: steal_def Let_def p_def)
  then show "dom (grp_assignments (steal ov un g)) = dom (grp_assignments g)"
    using owner by auto
  show "consistent (steal ov un g)"
    using assms owner unfolding consistent_def assignments parts_steal [OF assms(2,3)]
    using ov by (auto simp: xs)
qed

lemma sticky_loop_invariant:
  assumes "P g"
    and "\<And>g a b. P g \<Longrightarrow> a \<in> set ms \<Longrightarrow> b \<in> set ms \<Longrightarrow> length (parts g a) > t + 1 \<Longrightarrow> length (parts g b) < t \<Longrightarrow> P (steal a b g)"
  shows "P (sticky_loop n t ms g)"
  using assms
proof (induction n t ms g rule: sticky_loop.induct [case_names loop])
  case (loop n t ms g)
  obtain a b where ab: "sticky_pair g n t ms = (a, b)"
    by fastforce
  show ?case
  proof (cases "a = '''' \<or> b = ''''")
    case True
    with ab loop.prems show ?thesis by (simp add: sticky_loop.simps [of n t ms g])
  next
    case False
    with ab have "P (steal a b g)"
      using sticky_pair_sound [OF ab] loop.prems by blast
    with False ab loop.IH [OF ab [symmetric] refl _ _ loop.prems(2)] show ?thesis
      by (simp add: sticky_loop.simps [of n t ms g])
  qed
qed

lemma sticky_frame [simp]: "frame (sticky_loop n t ms g) = frame g"
  by (rule sticky_loop_invariant [where P = "\<lambda>h. frame h = frame g"]) simp_all

lemma sticky_fill_frame [simp]: "frame (sticky_fill ms us g) = frame g"
  by (induction us arbitrary: g) (simp_all add: sticky_fill_def)

lemma sticky_loop_consistent:
  assumes "consistent g" "set ms \<subseteq> ids g"
  shows "consistent (sticky_loop n t ms g) \<and> dom (grp_assignments (sticky_loop n t ms g)) = dom (grp_assignments g)"
proof -
  have "consistent (sticky_loop n t ms g) \<and> set ms \<subseteq> ids (sticky_loop n t ms g) \<and>
    dom (grp_assignments (sticky_loop n t ms g)) = dom (grp_assignments g)"
  proof (rule sticky_loop_invariant [where P = "\<lambda>h. consistent h \<and> set ms \<subseteq> ids h \<and> dom (grp_assignments h) = dom (grp_assignments g)"])
    fix h a b
    assume h: "consistent h \<and> set ms \<subseteq> ids h \<and> dom (grp_assignments h) = dom (grp_assignments g)"
      and "b \<in> set ms" and len: "length (parts h a) > t + 1" "length (parts h b) < t"
    then have "parts h a \<noteq> []" "a \<noteq> b" "b \<in> ids h"
      by auto
    from steal_consistent [OF _ this] h show "consistent (steal a b h) \<and> set ms \<subseteq> ids (steal a b h) \<and>
      dom (grp_assignments (steal a b h)) = dom (grp_assignments g)"
      by simp
  qed (use assms in simp)
  then show ?thesis by blast
qed

lemma rebalanceSticky_steps:
  fixes prev
  assumes "fresh ms g" "ms \<noteq> []" "distinct ps"
  defines "g1 \<equiv> sticky_keep ms prev ps g"
  defines "g2 \<equiv> sticky_fill ms (unassigned ps g1) g1"
  shows "consistent g1" "dom (grp_assignments g1) = {p \<in> set ps. \<exists>m\<in>set ms. prev p = Some m}"
    and "consistent g2" "dom (grp_assignments g2) = set ps" "ids g1 = set ms" "ids g2 = set ms"
proof -
  show ids1: "ids g1 = set ms"
    using assms(1) by (simp add: g1_def sticky_keep_gives fresh_def)
  show g1: "consistent g1"
    unfolding g1_def sticky_keep_gives
    by (rule gives_consistent) (use assms(1,3) snd_kept in \<open>simp_all add: distinct_kept fresh_def\<close>)
  show dom1: "dom (grp_assignments g1) = {p \<in> set ps. \<exists>m\<in>set ms. prev p = Some m}"
    using assms(1) by (simp add: g1_def sticky_keep_gives fresh_def fst_kept)
  obtain os where os: "length os = length (unassigned ps g1)" "set os \<subseteq> set ms" "g2 = gives (zip (unassigned ps g1) os) g1"
    using sticky_fill_gives [OF assms(2)] g2_def by metis
  have sets: "fst ` set (zip (unassigned ps g1) os) = set (unassigned ps g1)"
    using os(1) by (metis list.set_map map_fst_zip)
  have owners: "snd ` set (zip (unassigned ps g1) os) = set os"
    using os(1) by (metis list.set_map map_snd_zip)
  show "ids g2 = set ms"
    using ids1 by (simp add: os(3))
  show "consistent g2"
    unfolding os(3) by (rule gives_consistent [OF g1])
      (use os(1,2) assms(3) in \<open>auto simp: sets owners ids1 set_unassigned distinct_unassigned\<close>)
  show "dom (grp_assignments g2) = set ps"
    unfolding os(3) dom_gives sets using dom1 by (auto simp: set_unassigned)
qed

interpretation sticky_strategy: assignor "\<lambda>ps ms. rebalanceSticky ps ms prev" for prev
proof
  fix ps ms and g :: ConsumerGroup
  show "frame (rebalanceSticky ps ms prev g) = frame g"
    by (simp add: rebalanceSticky_def Let_def sticky_keep_gives)
  assume "fresh ms g" "ms \<noteq> []"
  show "consistent (rebalanceSticky ps ms prev g)" if "distinct ps"
    using rebalanceSticky_steps [OF \<open>fresh ms g\<close> \<open>ms \<noteq> []\<close> that] sticky_loop_consistent
    by (simp add: rebalanceSticky_def Let_def)
  show "dom (grp_assignments (rebalanceSticky ps ms prev g)) = set ps" if "distinct ps"
    using rebalanceSticky_steps [OF \<open>fresh ms g\<close> \<open>ms \<noteq> []\<close> that] sticky_loop_consistent
    by (simp add: rebalanceSticky_def Let_def)
qed

text \<open>The partitions in the lists of the members are the assigned ones.\<close>

lemma sum_parts:
  assumes "consistent g" "finite (ids g)"
  shows "(\<Sum>m\<in>ids g. length (parts g m)) = card (dom (grp_assignments g))"
proof -
  have "(\<Sum>m\<in>ids g. length (parts g m)) = (\<Sum>m\<in>ids g. card (set (parts g m)))"
    using assms(1) by (simp add: consistent_def distinct_card)
  also have "\<dots> = card (\<Union>m\<in>ids g. set (parts g m))"
    using assms by (intro card_UN_disjoint [symmetric]) (auto simp: consistent_def)
  also have "(\<Union>m\<in>ids g. set (parts g m)) = dom (grp_assignments g)"
  proof (intro equalityI subsetI)
    fix p assume "p \<in> dom (grp_assignments g)"
    then obtain m where "p \<in> set (parts g m)"
      using assms(1) by (auto simp: consistent_def)
    then show "p \<in> (\<Union>m\<in>ids g. set (parts g m))"
      using parts_nonmember [of m g] by fastforce
  qed (use assms(1) in \<open>auto simp: consistent_def\<close>)
  finally show ?thesis .
qed

text \<open>While a partition is unassigned, the member with the fewest has at most the target.\<close>

lemma fewest_below:
  assumes "consistent g" "ids g = set ms" "distinct ms" "ms \<noteq> []" "card (dom (grp_assignments g)) < n"
  shows "length (parts g (memberWithFewest g ms)) \<le> n div length ms"
proof (rule ccontr)
  assume "\<not> ?thesis"
  then have "n div length ms + 1 \<le> length (parts g m)" if "m \<in> set ms" for m
    using memberWithFewest_sound(2) [OF assms(4) that, of g] by linarith
  then have "(\<Sum>m\<in>set ms. n div length ms + 1) \<le> (\<Sum>m\<in>set ms. length (parts g m))"
    by (rule sum_mono)
  also have "\<dots> = card (dom (grp_assignments g))"
    using sum_parts [OF assms(1)] assms(2) by simp
  finally have "length ms * (n div length ms + 1) \<le> card (dom (grp_assignments g))"
    by (simp add: distinct_card assms(3))
  moreover have "n < length ms * (n div length ms + 1)"
    using assms(4) by (metis dividend_less_times_div distrib_left length_greater_0_conv mult.right_neutral add.commute)
  ultimately show False
    using assms(5) by simp
qed

lemma sticky_fill_bound:
  assumes "consistent g" "ids g = set ms" "distinct ms" "ms \<noteq> []" "distinct us"
    "set us \<inter> dom (grp_assignments g) = {}" "card (dom (grp_assignments g)) + length us \<le> n"
    "finite (dom (grp_assignments g))" "length (parts g m) \<le> n div length ms + 1"
  shows "length (parts (sticky_fill ms us g) m) \<le> n div length ms + 1"
  using assms
proof (induction us arbitrary: g)
  case (Cons u us)
  define c where "c = memberWithFewest g ms"
  have c: "c \<in> ids g" "length (parts g c) \<le> n div length ms"
    using memberWithFewest_sound(1) [OF assms(4)] Cons.prems fewest_below [of g ms n] by (simp_all add: c_def)
  have u: "u \<notin> dom (grp_assignments g)"
    using Cons.prems(6) by simp
  have "length (parts (sticky_fill ms us (give u c g)) m) \<le> n div length ms + 1"
  proof (rule Cons.IH)
    show "consistent (give u c g)"
      using Cons.prems(1) c(1) u by (intro give_consistent) auto
    show "length (parts (give u c g) m) \<le> n div length ms + 1"
      using c Cons.prems(9) by (simp add: parts_give)
  qed (use Cons.prems u in \<open>simp_all del: fun_upd_apply\<close>)
  then show ?case
    by (simp add: sticky_fill_def c_def)
qed (simp add: sticky_fill_def)

text \<open>A member that is not overloaded loses nothing in the loop.\<close>

lemma sticky_loop_keeps:
  assumes "consistent g" "set ms \<subseteq> ids g" "length (parts g m) \<le> t + 1" "grp_assignments g p = Some m"
  shows "grp_assignments (sticky_loop n t ms g) p = Some m"
proof -
  let ?P = "\<lambda>h. consistent h \<and> set ms \<subseteq> ids h \<and> length (parts h m) \<le> t + 1 \<and> grp_assignments h p = Some m"
  have "?P (sticky_loop n t ms g)"
  proof (rule sticky_loop_invariant [where P = ?P])
    fix h a b
    assume h: "?P h" and "b \<in> set ms" and len: "length (parts h a) > t + 1" "length (parts h b) < t"
    then have ne: "parts h a \<noteq> []" "a \<noteq> b" "b \<in> ids h" "a \<noteq> m"
      by auto
    then have "last (parts h a) \<noteq> p"
      using h last_in_set [OF ne(1)] by (auto simp: consistent_def)
    then have "grp_assignments (steal a b h) p = Some m"
      using h by (simp add: steal_def Let_def)
    moreover have "length (parts (steal a b h) m) \<le> t + 1"
      using h ne len by (auto simp: parts_steal)
    ultimately show "?P (steal a b h)"
      using steal_consistent [OF _ ne(1-3)] h by simp
  qed (use assms in simp)
  then show ?thesis by blast
qed

text \<open>The scan finds a pair whenever there is one, if no member has the empty name.\<close>

lemma sticky_scan_no_over:
  "'''' \<notin> set ms \<Longrightarrow> sticky_scan g t ms ov un = ('''', b) \<Longrightarrow>
   fst ov = '''' \<and> (snd ov = 0 \<longrightarrow> (\<forall>m\<in>set ms. length (parts g m) \<le> t + 1))"
proof (induction ms arbitrary: ov un)
  case (Cons m ms)
  define un' where "un' = (if length (parts g m) < t \<and> length (parts g m) < snd un then (m, length (parts g m)) else un)"
  show ?case
  proof (cases "length (parts g m) > t + 1 \<and> length (parts g m) > snd ov")
    case True
    with Cons.prems Cons.IH [of "(m, length (parts g m))" un'] show ?thesis
      by (simp only: sticky_scan.simps Let_def un'_def [symmetric] if_True) simp
  next
    case False
    with Cons.prems Cons.IH [of ov un'] have "fst ov = '''' \<and> (snd ov = 0 \<longrightarrow> (\<forall>m\<in>set ms. length (parts g m) \<le> t + 1))"
      by (simp only: sticky_scan.simps Let_def un'_def [symmetric] if_False) simp
    with False show ?thesis by auto
  qed
qed simp

lemma sticky_scan_no_under:
  "'''' \<notin> set ms \<Longrightarrow> sticky_scan g t ms ov un = (a, '''') \<Longrightarrow>
   fst un = '''' \<and> (t \<le> snd un \<longrightarrow> (\<forall>m\<in>set ms. t \<le> length (parts g m)))"
proof (induction ms arbitrary: ov un)
  case (Cons m ms)
  define ov' where "ov' = (if length (parts g m) > t + 1 \<and> length (parts g m) > snd ov then (m, length (parts g m)) else ov)"
  show ?case
  proof (cases "length (parts g m) < t \<and> length (parts g m) < snd un")
    case True
    with Cons.prems Cons.IH [of ov' "(m, length (parts g m))"] show ?thesis
      by (simp only: sticky_scan.simps Let_def ov'_def [symmetric] if_True) simp
  next
    case False
    with Cons.prems Cons.IH [of ov' un] have "fst un = '''' \<and> (t \<le> snd un \<longrightarrow> (\<forall>m\<in>set ms. t \<le> length (parts g m)))"
      by (simp only: sticky_scan.simps Let_def ov'_def [symmetric] if_False) simp
    with False show ?thesis by auto
  qed
qed simp

lemma sticky_pair_complete:
  assumes "'''' \<notin> set ms" "t \<le> n + 1" "sticky_pair g n t ms = (a, b)" "a = '''' \<or> b = ''''"
  shows "(\<forall>m\<in>set ms. length (parts g m) \<le> t + 1) \<or> (\<forall>m\<in>set ms. t \<le> length (parts g m))"
  using assms sticky_scan_no_over [of ms g t "('''', 0)" "('''', n + 1)" b]
    sticky_scan_no_under [of ms g t "('''', 0)" "('''', n + 1)" a]
  by (auto simp: sticky_pair_def)

text \<open>One round of the loop, and how much the underloaded members miss: every round gives one partition to
  one of them.\<close>

definition steal_round :: "nat \<Rightarrow> nat \<Rightarrow> string list \<Rightarrow> ConsumerGroup \<Rightarrow> ConsumerGroup option" where
  "steal_round n target ms g =
     (case sticky_pair g n target ms of (a, b) \<Rightarrow> if a = '''' \<or> b = '''' then None else Some (steal a b g))"

fun rounds :: "nat \<Rightarrow> nat \<Rightarrow> string list \<Rightarrow> nat \<Rightarrow> ConsumerGroup \<Rightarrow> ConsumerGroup option" where
  "rounds n target ms 0 g = Some g"
| "rounds n target ms (Suc k) g = Option.bind (steal_round n target ms g) (rounds n target ms k)"

definition deficit :: "nat \<Rightarrow> string list \<Rightarrow> ConsumerGroup \<Rightarrow> nat" where
  "deficit t ms g = (\<Sum>m\<in>set ms. t - length (parts g m))"

lemma deficit_steal:
  assumes "b \<in> set ms" "b \<in> ids g" "length (parts g a) > t + 1" "length (parts g b) < t"
  shows "Suc (deficit t ms (steal a b g)) = deficit t ms g"
proof -
  have ne: "parts g a \<noteq> []" "a \<noteq> b"
    using assms(3,4) by auto
  have "(\<Sum>m\<in>set ms - {b}. t - length (parts (steal a b g) m)) = (\<Sum>m\<in>set ms - {b}. t - length (parts g m))"
    using assms(3) by (intro sum.cong) (auto simp: parts_steal ne)
  moreover have "length (parts (steal a b g) b) = Suc (length (parts g b))"
    using assms(2) ne(2) parts_steal [OF ne, of b] by (simp add: not_sym)
  ultimately show ?thesis
    using assms(4) unfolding deficit_def sum.remove [OF finite_set assms(1)] by simp
qed

lemma sticky_loop_round:
  "sticky_loop n t ms g = (case steal_round n t ms g of None \<Rightarrow> g | Some h \<Rightarrow> sticky_loop n t ms h)"
  by (simp add: sticky_loop.simps [of n t ms g] steal_round_def split: prod.split)

lemma sticky_loop_rounds:
  assumes "set ms \<subseteq> ids g"
  shows "\<exists>k\<le>deficit t ms g. rounds n t ms k g = Some (sticky_loop n t ms g) \<and> steal_round n t ms (sticky_loop n t ms g) = None"
  using assms
proof (induction "deficit t ms g" arbitrary: g rule: less_induct)
  case less
  show ?case
  proof (cases "steal_round n t ms g")
    case None
    then show ?thesis by (intro exI [of _ 0]) (simp add: sticky_loop_round [of n t ms g])
  next
    case (Some h)
    then obtain a b where ab: "sticky_pair g n t ms = (a, b)" "a \<noteq> ''''" "b \<noteq> ''''" "h = steal a b g"
      by (auto simp: steal_round_def split: prod.splits if_splits)
    have d: "Suc (deficit t ms h) = deficit t ms g"
      using sticky_pair_sound [OF ab(1)] ab(2-4) less.prems deficit_steal [of b ms g t a] by auto
    moreover have "set ms \<subseteq> ids h"
      using less.prems ab(4) by simp
    ultimately obtain k where "k \<le> deficit t ms h" "rounds n t ms k h = Some (sticky_loop n t ms h)"
      "steal_round n t ms (sticky_loop n t ms h) = None"
      using less.hyps [of h] by auto
    with Some d show ?thesis
      by (intro exI [of _ "Suc k"]) (simp add: sticky_loop_round [of n t ms g])
  qed
qed

lemma deficit_bound: "deficit (n div length ms) ms g \<le> n"
proof -
  have "deficit (n div length ms) ms g \<le> (\<Sum>m\<in>set ms. n div length ms)"
    unfolding deficit_def by (rule sum_mono) simp
  also have "\<dots> \<le> length ms * (n div length ms)"
    by (simp add: card_length)
  also have "\<dots> \<le> n"
    by simp
  finally show ?thesis .
qed

section \<open>Rebalancing\<close>

lemma frame_cleared [simp]: "frame (cleared g) = frame g"
  by (simp add: frame_def cleared_def comp_def case_prod_unfold)

lemma parts_cleared [simp]: "parts (cleared g) m = []"
  by (simp add: parts_def cleared_def map_of_map split: option.split)

lemma assignments_cleared [simp]: "grp_assignments (cleared g) = (\<lambda>_. None)"
  by (simp add: cleared_def)

lemma ids_cleared [simp]: "ids (cleared g) = ids g"
  by (rule frame_ids) simp

lemma members_cleared [simp]: "grp_members (cleared g) = [] \<longleftrightarrow> grp_members g = []"
  by (simp add: cleared_def)

lemma fields_cleared [simp]: "grp_partitionCount (cleared g) = grp_partitionCount g" "grp_strategy (cleared g) = grp_strategy g"
  by (simp_all add: cleared_def)

lemma memberIDs_cleared [simp]: "memberIDs (cleared g) = memberIDs g"
  using frame_keys [of "cleared g" g] by (simp add: memberIDs_def)

lemma set_memberIDs [simp]: "set (memberIDs g) = ids g"
  by (simp add: memberIDs_def ids_def)

lemma memberIDs_empty [simp]: "memberIDs g = [] \<longleftrightarrow> grp_members g = []"
  by (metis ids_def image_is_empty set_empty set_memberIDs)

lemma fresh_cleared: "fresh (memberIDs g) (cleared g)"
  by (simp add: fresh_def consistent_def)

text \<open>A settled group: every partition belongs to one member, if there is one.\<close>

definition settled :: "ConsumerGroup \<Rightarrow> bool" where
  "settled g \<longleftrightarrow> consistent g \<and> dom (grp_assignments g) = (if grp_members g = [] then {} else {..<grp_partitionCount g})"

lemma rebalance_frame [simp]: "frame (rebalance g) = frame g"
  by (simp add: rebalance_def Let_def range_strategy.assign_frame round_robin_strategy.assign_frame
      sticky_strategy.assign_frame split: strategy.split)

lemma rebalance_settled: "settled (rebalance g)"
proof (cases "grp_members g = []")
  case True
  then show ?thesis
    by (simp add: rebalance_def Let_def settled_def consistent_def)
next
  case False
  have "grp_members (rebalance g) \<noteq> []" "grp_partitionCount (rebalance g) = grp_partitionCount g"
    using rebalance_frame [of g] frame_keys [OF rebalance_frame, of g] False by (auto simp: frame_def)
  moreover have "consistent (rebalance g) \<and> dom (grp_assignments (rebalance g)) = {..<grp_partitionCount g}"
    using False fresh_cleared [of g]
      range_strategy.assign_consistent range_strategy.assign_all
      round_robin_strategy.assign_consistent round_robin_strategy.assign_all
      sticky_strategy.assign_consistent sticky_strategy.assign_all
    by (simp add: rebalance_def Let_def atLeast0LessThan split: strategy.split)
  ultimately show ?thesis
    by (simp add: settled_def)
qed

section \<open>Reachable groups\<close>

lemma keys_leave_del: "distinct (map fst (grp_members g)) \<Longrightarrow> distinct (map fst (grp_members (leave_del m g)))"
  by (simp add: leave_del_def AList.distinct_delete)

lemma keys_expire_del:
  "distinct (map fst (grp_members g)) \<Longrightarrow> distinct (map fst (grp_members (expire_del now g)))"
proof -
  have "distinct (map fst (grp_members (fold leave_del ms g)))" if "distinct (map fst (grp_members g))" for ms
    using that by (induction ms arbitrary: g) (simp_all add: keys_leave_del)
  then show "distinct (map fst (grp_members g)) \<Longrightarrow> ?thesis"
    by (simp add: expire_del_def)
qed

lemma keys_Heartbeat:
  "distinct (map fst (grp_members g)) \<Longrightarrow> distinct (map fst (grp_members (snd (Heartbeat now m g))))"
  by (simp add: Heartbeat_def AList.distinct_update split: option.split)

lemma count_leave_del [simp]: "grp_partitionCount (leave_del m g) = grp_partitionCount g"
  by (simp add: leave_del_def)

lemma count_expire_del [simp]: "grp_partitionCount (expire_del now g) = grp_partitionCount g"
proof -
  have "grp_partitionCount (fold leave_del ms g) = grp_partitionCount g" for ms
    by (induction ms arbitrary: g) simp_all
  then show ?thesis by (simp add: expire_del_def)
qed

lemma expire_none: "expired now g = [] \<Longrightarrow> expire_del now g = g"
  by (simp add: expire_del_def)

lemma parts_Heartbeat [simp]: "parts (snd (Heartbeat now m g)) m' = parts g m'"
  by (auto simp: Heartbeat_def parts_def update_conv split: option.split)

lemma count_Heartbeat [simp]: "grp_partitionCount (snd (Heartbeat now m g)) = grp_partitionCount g"
  by (simp add: Heartbeat_def split: option.split)

lemma settled_Heartbeat: "settled g \<Longrightarrow> settled (snd (Heartbeat now m g))"
proof -
  have "grp_members (snd (Heartbeat now m g)) = [] \<longleftrightarrow> grp_members g = []"
    "grp_assignments (snd (Heartbeat now m g)) = grp_assignments g"
    "grp_partitionCount (snd (Heartbeat now m g)) = grp_partitionCount g"
    by (cases "grp_members g"; auto simp: Heartbeat_def split: option.split)+
  then show "settled g \<Longrightarrow> ?thesis"
    by (simp add: settled_def consistent_def)
qed

lemma settled_committed [simp]: "settled (g\<lparr>grp_committed := c\<rparr>) = settled g"
  by (simp add: settled_def consistent_def parts_def)

definition group_inv :: "nat \<Rightarrow> ConsumerGroup \<times> nat \<Rightarrow> bool" where
  "group_inv n s \<longleftrightarrow> distinct (map fst (grp_members (fst s))) \<and> grp_partitionCount (fst s) = n \<and>
     (snd s = 0 \<longrightarrow> settled (fst s))"

lemma group_inv_step: "group_step s e s' \<Longrightarrow> group_inv n s \<Longrightarrow> group_inv n s'"
proof (induction rule: group_step.induct)
  case (step_rebalance g k)
  have "map fst (grp_members (rebalance g)) = map fst (grp_members g)" "grp_partitionCount (rebalance g) = grp_partitionCount g"
    using frame_keys [OF rebalance_frame] rebalance_frame [of g] by (auto simp: frame_def)
  with step_rebalance rebalance_settled [of g] show ?case
    by (simp add: group_inv_def)
next
  case (step_tick g k now)
  then show ?case
    by (auto simp: group_inv_def keys_expire_del expire_none)
next
  case (step_beat g k now m)
  then show ?case
    by (auto simp: group_inv_def keys_Heartbeat settled_Heartbeat)
qed (auto simp: group_inv_def join_add_def keys_leave_del AList.distinct_update)

lemma group_inv_reachable: "group_reachable name topic n str store s \<Longrightarrow> group_inv n s"
proof (induction rule: group_reachable.induct)
  case reach_new
  then show ?case
    by (simp add: group_inv_def NewConsumerGroup_def settled_def consistent_def parts_def)
next
  case (reach_step s e s')
  then show ?case
    by (blast intro: group_inv_step)
qed

section \<open>Counts\<close>

lemma count_list_replicate: "count_list (replicate n x) y = (if x = y then n else 0)"
  by (induction n) auto

lemma count_range_owners:
  "distinct ms \<Longrightarrow> j < length ms \<Longrightarrow>
   count_list (range_owners q r i ms) (ms ! j) = (if i + j < r then q + 1 else q)"
proof (induction ms arbitrary: i j)
  case (Cons m ms)
  show ?case
  proof (cases j)
    case 0
    have "count_list (range_owners q r (Suc i) ms) m = 0"
      using Cons.prems(1) set_range_owners [of q r "Suc i" ms] by (auto simp: count_list_0_iff)
    with 0 show ?thesis by (simp add: count_list_replicate)
  next
    case (Suc j')
    with Cons.prems Cons.IH [of j' "Suc i"] show ?thesis
      by (auto simp: count_list_replicate)
  qed
qed simp

lemma count_round_robin:
  assumes "distinct ms" "j < length ms"
  shows "count_list (map (\<lambda>i. ms ! (i mod length ms)) [0..<n]) (ms ! j) =
    n div length ms + (if j < n mod length ms then 1 else 0)"
proof (induction n)
  case (Suc n)
  have "n mod length ms < length ms"
    using assms(2) by (intro mod_less_divisor) linarith
  then have "ms ! (n mod length ms) = ms ! j \<longleftrightarrow> n mod length ms = j"
    using assms by (simp add: nth_eq_iff_index_eq)
  then show ?case
    using Suc assms(2) by (auto simp: mod_Suc div_Suc)
qed simp

lemma distinct_memberIDs: "distinct (map fst (grp_members g)) \<Longrightarrow> distinct (memberIDs g)"
  by (simp add: memberIDs_def)

lemma length_memberIDs: "length (memberIDs g) = length (grp_members g)"
  by (simp add: memberIDs_def)

lemma count_assigned:
  assumes "length os = length ps" "set os \<subseteq> ids g" "parts g m = []"
  shows "length (parts (gives (zip ps os) g) m) = count_list os m"
proof -
  have "map snd (zip ps os) = os"
    using assms(1) by simp
  then have "snd ` set (zip ps os) \<subseteq> ids g"
    using assms(2) by (metis list.set_map)
  then show ?thesis
    using assms(3) \<open>map snd (zip ps os) = os\<close> by (simp add: count_gives)
qed

lemma gives_assigns: "distinct (map fst xs) \<Longrightarrow> (p, m) \<in> set xs \<Longrightarrow> grp_assignments (gives xs g) p = Some m"
proof (induction xs arbitrary: g)
  case (Cons x xs)
  then show ?case
    by (cases x) (auto simp: assignments_gives_other)
qed simp

lemma sticky_keep_assigns:
  assumes "fresh ms g" "distinct ps"
  shows "grp_assignments (sticky_keep ms prev ps g) q = Some m \<longleftrightarrow> q \<in> set ps \<and> prev q = Some m \<and> m \<in> set ms"
proof
  assume g1: "grp_assignments (sticky_keep ms prev ps g) q = Some m"
  then have "q \<in> fst ` set (kept ms prev ps)"
    using assms(1) assignments_gives_other [of q "kept ms prev ps" g] by (auto simp: sticky_keep_gives fresh_def)
  then obtain m' where m': "(q, m') \<in> set (kept ms prev ps)"
    by auto
  with g1 have "m' = m"
    using gives_assigns [OF distinct_kept [OF assms(2)] m', of g] by (simp add: sticky_keep_gives)
  with m' show "q \<in> set ps \<and> prev q = Some m \<and> m \<in> set ms"
    by (simp add: set_kept)
next
  assume "q \<in> set ps \<and> prev q = Some m \<and> m \<in> set ms"
  then show "grp_assignments (sticky_keep ms prev ps g) q = Some m"
    using gives_assigns [OF distinct_kept [OF assms(2)], of q m ms prev g] by (simp add: sticky_keep_gives set_kept)
qed

lemma length_unassigned:
  assumes "dom (grp_assignments g) \<subseteq> set ps" "distinct ps" "length ps = n"
  shows "card (dom (grp_assignments g)) + length (unassigned ps g) = n"
proof -
  have "length (unassigned ps g) = card (set ps - dom (grp_assignments g))"
    using distinct_card [OF distinct_unassigned [OF assms(2)], of g] by (simp add: set_unassigned)
  also have "\<dots> = n - card (dom (grp_assignments g))"
    using assms by (simp add: card_Diff_subset finite_subset distinct_card)
  finally show ?thesis
    using card_mono [OF _ assms(1)] assms(2,3) by (simp add: distinct_card)
qed

lemma sticky_fill_other:
  assumes "ms \<noteq> []" "p \<notin> set us"
  shows "grp_assignments (sticky_fill ms us g) p = grp_assignments g p"
proof -
  obtain os where "length os = length us" "sticky_fill ms us g = gives (zip us os) g"
    using sticky_fill_gives [OF assms(1)] by blast
  moreover from this(1) have "fst ` set (zip us os) = set us"
    by (metis list.set_map map_fst_zip)
  ultimately show ?thesis
    using assms(2) by (simp add: assignments_gives_other)
qed

lemma count_range:
  assumes "distinct ms" "j < length ms" "ids g = set ms" "parts g (ms ! j) = []"
  shows "length (parts (rebalanceRange ps ms g) (ms ! j)) = length ps div length ms + (if j < length ps mod length ms then 1 else 0)"
proof -
  from assms(2) have ne: "ms \<noteq> []"
    by auto
  from count_assigned [OF length_range_all [OF ne] _ assms(4)] set_range_owners assms(3)
  show ?thesis
    by (simp add: rebalanceRange_gives [OF ne] count_range_owners [OF assms(1,2)])
qed

lemma count_round_robin_parts:
  assumes "distinct ms" "j < length ms" "ids g = set ms" "parts g (ms ! j) = []"
  shows "length (parts (rebalanceRoundRobin ps ms g) (ms ! j)) = length ps div length ms + (if j < length ps mod length ms then 1 else 0)"
proof -
  from assms(2) have "ms \<noteq> []"
    by auto
  from count_assigned [OF _ round_robin_owners [OF this, of "length ps", folded assms(3)] assms(4), of ps]
  show ?thesis
    by (simp add: rebalanceRoundRobin_gives count_round_robin [OF assms(1,2)])
qed

lemma count_rebalanced:
  assumes "distinct (map fst (grp_members g))" "i < length (grp_members g)" "grp_strategy g \<noteq> StrategySticky"
  shows "length (parts (rebalance g) (memberIDs g ! i)) =
    grp_partitionCount g div length (grp_members g) + (if i < grp_partitionCount g mod length (grp_members g) then 1 else 0)"
  using assms count_range [OF distinct_memberIDs, of g i "cleared g"] count_round_robin_parts [OF distinct_memberIDs, of g i "cleared g"]
  by (cases "grp_strategy g") (auto simp: rebalance_def Let_def length_memberIDs)

lemma sticky_rebalance_keeps:
  assumes "distinct (map fst (grp_members g))" "grp_strategy g = StrategySticky" "m \<in> ids g"
    and "p < grp_partitionCount g" "grp_assignments g p = Some m"
    and few: "card {p. p < grp_partitionCount g \<and> grp_assignments g p = Some m} \<le> grp_partitionCount g div length (grp_members g) + 1"
  shows "grp_assignments (rebalance g) p = Some m"
proof -
  define n ms ps where "n = grp_partitionCount g" and "ms = memberIDs g" and "ps = [0..<n]"
  define g1 where "g1 = sticky_keep ms (grp_assignments g) ps (cleared g)"
  define g2 where "g2 = sticky_fill ms (unassigned ps g1) g1"
  have ms: "distinct ms" "length ms = length (grp_members g)" "ms \<noteq> []" "m \<in> set ms"
    using assms(1,3) by (auto simp: distinct_memberIDs length_memberIDs ms_def ids_def)
  have ps: "distinct ps" "length ps = n" "p \<in> set ps"
    using assms(4) by (simp_all add: ps_def n_def)
  have fr: "fresh ms (cleared g)"
    unfolding ms_def by (rule fresh_cleared)
  note st = rebalanceSticky_steps [OF fr ms(3) ps(1), of "grp_assignments g", folded g1_def, folded g2_def]
  have assigned1: "grp_assignments g1 q = Some m \<longleftrightarrow> q < n \<and> grp_assignments g q = Some m" for q
    using sticky_keep_assigns [OF fr ps(1), of "grp_assignments g" q m] ms(4) by (simp add: g1_def ps_def)
  have "set (parts g1 m) = {q. grp_assignments g1 q = Some m}" "distinct (parts g1 m)"
    using st(1) by (auto simp: consistent_def)
  then have "length (parts g1 m) = card {q. grp_assignments g1 q = Some m}"
    using distinct_card by metis
  then have len1: "length (parts g1 m) \<le> n div length ms + 1"
    using few by (simp add: assigned1 ms(2) n_def)
  have "card (dom (grp_assignments g1)) + length (unassigned ps g1) = n"
    using st(2) ps(1,2) by (intro length_unassigned) auto
  then have len2: "length (parts g2 m) \<le> n div length ms + 1"
    unfolding g2_def using st ms(1,3) len1 distinct_unassigned [OF ps(1), of g1]
    by (intro sticky_fill_bound) (auto simp: set_unassigned)
  have "grp_assignments g2 p = Some m"
    unfolding g2_def using assigned1 [of p] assms(4,5) ms(3)
    by (subst sticky_fill_other) (auto simp: set_unassigned n_def)
  with len2 st show ?thesis
    using sticky_loop_keeps [of g2 ms m "n div length ms" p n] ms(3) assms(2,3)
    by (auto simp: rebalance_def Let_def rebalanceSticky_def g1_def g2_def ms_def ps_def n_def)
qed

text \<open>A newcomer of a group whose members all own at most one above the new target gets nothing.\<close>

lemma settled_counts:
  assumes "settled g" "grp_members g \<noteq> []"
  shows "card {p. p < grp_partitionCount g \<and> grp_assignments g p = Some m} = length (parts g m)"
proof -
  have "{p. p < grp_partitionCount g \<and> grp_assignments g p = Some m} = set (parts g m)" "distinct (parts g m)"
    using assms by (auto simp: settled_def consistent_def)
  then show ?thesis
    by (simp add: distinct_card)
qed

lemma join_add_new:
  assumes "m \<notin> ids g"
  shows "grp_members (join_add now m g) = grp_members g @ [(m, \<lparr>gm_partitions = [], gm_lastHeartbeat = now\<rparr>)]"
proof -
  have "k \<notin> fst ` set xs \<Longrightarrow> AList.update k v xs = xs @ [(k, v)]" for k :: string and v :: GroupMember and xs
    by (induction xs) auto
  with assms show ?thesis
    by (simp add: join_add_def ids_def)
qed

lemma newcomer_gets_nothing:
  assumes "distinct (map fst (grp_members g))" "settled g" "grp_members g \<noteq> []" "grp_strategy g = StrategySticky" "m \<notin> ids g"
    and few: "\<forall>m'\<in>ids g. length (parts g m') \<le> grp_partitionCount g div (length (grp_members g) + 1) + 1"
  shows "parts (Join now m g) m = []" "m \<in> ids (Join now m g)"
proof -
  let ?j = "join_add now m g"
  have j: "grp_assignments ?j = grp_assignments g" "grp_partitionCount ?j = grp_partitionCount g" "grp_strategy ?j = StrategySticky"
    "distinct (map fst (grp_members ?j))" "length (grp_members ?j) = length (grp_members g) + 1" "ids ?j = insert m (ids g)"
    using assms(1,4,5) join_add_new [OF assms(5), of now] by (auto simp: join_add_def ids_def)
  have "grp_assignments (rebalance ?j) p \<noteq> Some m" for p
  proof
    assume p: "grp_assignments (rebalance ?j) p = Some m"
    then have "p < grp_partitionCount g"
      using rebalance_settled [of ?j] rebalance_frame [of ?j] j(2)
      by (auto simp: settled_def frame_def split: if_splits)
    then obtain m' where m': "grp_assignments g p = Some m'"
      using assms(2,3) by (auto simp: settled_def)
    then have "m' \<in> ids g"
      using assms(2) parts_nonmember [of m' g] unfolding settled_def consistent_def by (metis empty_iff empty_set)
    then have "grp_assignments (rebalance ?j) p = Some m'"
      using few m' \<open>p < grp_partitionCount g\<close> settled_counts [OF assms(2,3), of m']
      by (intro sticky_rebalance_keeps) (simp_all add: j)
    with p \<open>m' \<in> ids g\<close> assms(5) show False
      by simp
  qed
  then show "parts (Join now m g) m = []"
    using rebalance_settled [of ?j] unfolding Join_def settled_def consistent_def by (metis list.set_intros(1) neq_Nil_conv)
  show "m \<in> ids (Join now m g)"
    using frame_ids [OF rebalance_frame, of ?j] j(6) by (simp add: Join_def)
qed

lemma Members_empty: "m \<in> ids g \<Longrightarrow> distinct (map fst (grp_members g)) \<Longrightarrow> parts g m = [] \<Longrightarrow> (m, None) \<in> set (Members g)"
  by (force simp: ids_def Members_def parts_def)

lemma reachable_strategy: "group_reachable name topic n str store s \<Longrightarrow> grp_strategy (fst s) = str"
proof (induction rule: group_reachable.induct)
  case reach_new
  then show ?case by (simp add: NewConsumerGroup_def)
next
  case (reach_step s e s')
  have fold: "grp_strategy (fold leave_del ms g) = grp_strategy g" for ms g
    by (induction ms arbitrary: g) (simp_all add: leave_del_def)
  have "grp_strategy (rebalance g) = grp_strategy g" for g
    using rebalance_frame [of g] by (simp add: frame_def)
  with reach_step.hyps(2) reach_step.IH show ?case
    by cases (auto simp: join_add_def leave_del_def expire_del_def fold Heartbeat_def split: option.split)
qed

text \<open>The first member of a group with two partitions.\<close>

definition group_ex :: "strategy \<Rightarrow> nat \<Rightarrow> ConsumerGroup" where
  "group_ex str n = NewConsumerGroup ''g'' ''t'' n str (NewOffsetStore (\<lambda>_. None))"

lemma join_reachable:
  assumes "group_reachable name topic n str store (g, 0)"
  shows "group_reachable name topic n str store (Join now m g, 0)"
  unfolding Join_def using reach_step [OF reach_step [OF assms step_join] step_rebalance] .

lemma group_ex_reachable: "group_reachable ''g'' ''t'' n str (NewOffsetStore (\<lambda>_. None)) (group_ex str n, 0)"
  unfolding group_ex_def by (rule reach_new)

lemma first_member:
  defines "g \<equiv> Join 0 ''a'' (group_ex StrategySticky 2)"
  shows "group_reachable ''g'' ''t'' 2 StrategySticky (NewOffsetStore (\<lambda>_. None)) (g, 0)"
    and "grp_members g \<noteq> []" "length (grp_members g) = 1" "ids g = {''a''}" "length (parts g m) \<le> 2"
proof -
  show reach: "group_reachable ''g'' ''t'' 2 StrategySticky (NewOffsetStore (\<lambda>_. None)) (g, 0)"
    unfolding g_def by (intro join_reachable group_ex_reachable)
  have "map fst (grp_members g) = [''a'']"
    unfolding g_def Join_def frame_keys [OF rebalance_frame] by (simp add: join_add_def group_ex_def NewConsumerGroup_def)
  then show ne: "grp_members g \<noteq> []" and "length (grp_members g) = 1" and "ids g = {''a''}"
    by (auto simp: ids_def)
  have "length (parts g m) = card {p. p < 2 \<and> grp_assignments g p = Some m}"
    using group_inv_reachable [OF reach] ne settled_counts [of g m] by (simp add: group_inv_def)
  also have "\<dots> \<le> card {..<2::nat}"
    by (intro card_mono) auto
  finally show "length (parts g m) \<le> 2"
    by simp
qed

section \<open>Offsets\<close>

lemma Get_loaded:
  "ValidateGroupName name = None \<Longrightarrow> Get (NewOffsetStore files) name p =
     (case files name of Some g \<Rightarrow> (case g p of Some off \<Rightarrow> off | None \<Rightarrow> 0) | None \<Rightarrow> 0)"
  by (simp add: Get_def NewOffsetStore_def loadAll_def)

lemma committed_update:
  "GetCommittedOffset (g\<lparr>grp_committed := c\<rparr>) p = (case c p of Some off \<Rightarrow> off | None \<Rightarrow> 0)"
  by (simp add: GetCommittedOffset_def)

lemma committed_new:
  "GetCommittedOffset (NewConsumerGroup name topic n str store) p = (if p < n then Get store name p else 0)"
  by (simp add: GetCommittedOffset_def NewConsumerGroup_def loadCommittedOffsets_def)

section \<open>Properties\<close>

text \<open>C4: Joins, leaves, expiries, heartbeats, commits and rebalances interleave in any order; whenever no
  rebalance is outstanding, the lists of the members have no repetitions and say what the assignments
  say, every partition of the topic is in the list of exactly one member and no other partition is
  assigned, and a group without members has no assignments.\<close>

theorem group_assigns_every_partition_once:
  assumes "group_reachable name topic n str store (g, 0)"
  shows "(\<forall>m. distinct (parts g m)) \<and> (\<forall>p m. p \<in> set (parts g m) \<longleftrightarrow> grp_assignments g p = Some m) \<and>
    (if grp_members g = [] then grp_assignments g = (\<lambda>_. None)
     else (\<forall>p. (\<exists>!m. m \<in> ids g \<and> p \<in> set (parts g m)) \<longleftrightarrow> p < n) \<and> dom (grp_assignments g) = {..<n})"
proof -
  from group_inv_reachable [OF assms] have g: "consistent g"
    "dom (grp_assignments g) = (if grp_members g = [] then {} else {..<n})"
    by (auto simp: group_inv_def settled_def)
  have "(\<exists>!m. m \<in> ids g \<and> p \<in> set (parts g m)) \<longleftrightarrow> p \<in> dom (grp_assignments g)" for p
  proof -
    have "m \<in> ids g \<and> p \<in> set (parts g m) \<longleftrightarrow> grp_assignments g p = Some m" for m
      using g(1) parts_nonmember [of m g] unfolding consistent_def by (metis empty_iff empty_set)
    then show ?thesis by auto
  qed
  moreover have "grp_assignments g = (\<lambda>_. None)" if "grp_members g = []"
    using g(2) that by simp
  ultimately show ?thesis
    using g by (simp add: consistent_def)
qed

theorem group_assigns_every_partition_once_witness:
  "\<exists>!m. m \<in> ids (Join 1 ''b'' (Join 0 ''a'' (group_ex StrategySticky 3))) \<and>
     2 \<in> set (parts (Join 1 ''b'' (Join 0 ''a'' (group_ex StrategySticky 3))) m)"
proof -
  let ?g = "Join 1 ''b'' (Join 0 ''a'' (group_ex StrategySticky 3))"
  have reach: "group_reachable ''g'' ''t'' 3 StrategySticky (NewOffsetStore (\<lambda>_. None)) (?g, 0)"
    by (intro join_reachable group_ex_reachable)
  have "map fst (grp_members ?g) \<noteq> []"
    unfolding Join_def frame_keys [OF rebalance_frame] by (simp add: join_add_def update_nonempty)
  then have ne: "grp_members ?g \<noteq> []"
    by blast
  have "(\<exists>!m. m \<in> ids ?g \<and> 2 \<in> set (parts ?g m)) \<longleftrightarrow> 2 < (3::nat)"
    by (rule group_assigns_every_partition_once
        [OF reach, THEN conjunct2, THEN conjunct2, unfolded if_not_P [OF ne], THEN conjunct1, THEN spec])
  then show ?thesis
    by (rule iffD2) simp
qed

text \<open>C20: The range and the round-robin strategy are even: of the members in the order of their names,
  the first \<open>n mod k\<close> get one partition more than \<open>n div k\<close>.\<close>

theorem rebalance_even:
  assumes "distinct (map fst (grp_members g))" "i < length (grp_members g)" "grp_strategy g \<noteq> StrategySticky"
  shows "length (parts (rebalance g) (memberIDs g ! i)) =
    grp_partitionCount g div length (grp_members g) + (if i < grp_partitionCount g mod length (grp_members g) then 1 else 0)"
  using assms by (rule count_rebalanced)

theorem rebalance_even_witness:
  "length (parts (rebalance (join_add 0 ''b'' (join_add 0 ''a'' (group_ex StrategyRange 3)))) ''a'') = 2"
  using rebalance_even [of "join_add 0 ''b'' (join_add 0 ''a'' (group_ex StrategyRange 3))" 0]
  by (simp add: join_add_def group_ex_def NewConsumerGroup_def memberIDs_def flip: numeral_2_eq_2)

text \<open>C19: The loop of the sticky strategy that moves partitions from overloaded to underloaded members ends
  after at most as many rounds as there are partitions, in a state in which no further round is
  possible: then no member has more than one above the target, or none is below it, provided that no
  member has the empty name.\<close>

theorem sticky_loop_ends:
  assumes "set ms \<subseteq> ids g" "'''' \<notin> set ms"
  shows "\<exists>k\<le>n. rounds n (n div length ms) ms k g = Some (sticky_loop n (n div length ms) ms g) \<and>
    steal_round n (n div length ms) ms (sticky_loop n (n div length ms) ms g) = None \<and>
    ((\<forall>m\<in>set ms. length (parts (sticky_loop n (n div length ms) ms g) m) \<le> n div length ms + 1) \<or>
     (\<forall>m\<in>set ms. n div length ms \<le> length (parts (sticky_loop n (n div length ms) ms g) m)))"
proof -
  define t where "t = n div length ms"
  obtain k where k: "k \<le> deficit t ms g" "rounds n t ms k g = Some (sticky_loop n t ms g)"
    "steal_round n t ms (sticky_loop n t ms g) = None"
    using sticky_loop_rounds [OF assms(1)] by blast
  obtain a b where "sticky_pair (sticky_loop n t ms g) n t ms = (a, b)" "a = '''' \<or> b = ''''"
    using k(3) by (auto simp: steal_round_def split: prod.splits if_splits)
  from sticky_pair_complete [OF assms(2) _ this] have
    "(\<forall>m\<in>set ms. length (parts (sticky_loop n t ms g) m) \<le> t + 1) \<or> (\<forall>m\<in>set ms. t \<le> length (parts (sticky_loop n t ms g) m))"
    by (simp add: t_def le_SucI)
  with k deficit_bound [of n ms g, folded t_def] show ?thesis
    unfolding t_def [symmetric] by (intro exI [of _ k]) simp
qed

theorem sticky_loop_ends_witness:
  "\<exists>k\<le>3. rounds 3 1 [''a'', ''b''] k (give 2 ''a'' (give 1 ''a'' (give 0 ''a'' (join_add 0 ''b'' (join_add 0 ''a'' (group_ex StrategySticky 3)))))) =
     Some (sticky_loop 3 1 [''a'', ''b''] (give 2 ''a'' (give 1 ''a'' (give 0 ''a'' (join_add 0 ''b'' (join_add 0 ''a'' (group_ex StrategySticky 3)))))))"
proof -
  let ?g = "give 2 ''a'' (give 1 ''a'' (give 0 ''a'' (join_add 0 ''b'' (join_add 0 ''a'' (group_ex StrategySticky 3)))))"
  have "ids ?g = {''a'', ''b''}"
    unfolding ids_give by (auto simp: ids_def join_add_def group_ex_def NewConsumerGroup_def)
  then have "set [''a'', ''b''] \<subseteq> ids ?g" "'''' \<notin> set [''a'', ''b'']"
    by simp_all
  moreover have "3 div length [''a'', ''b''] = 1"
    by (simp flip: numeral_2_eq_2)
  ultimately show ?thesis
    using sticky_loop_ends [of "[''a'', ''b'']" ?g 3] by metis
qed

text \<open>The sticky strategy keeps what it can: a partition whose owner is still in the group and owns no
  more than one above the target stays with its owner.\<close>

theorem sticky_keeps_partitions:
  assumes "distinct (map fst (grp_members g))" "grp_strategy g = StrategySticky" "m \<in> ids g"
    and "p < grp_partitionCount g" "grp_assignments g p = Some m"
    and "card {p. p < grp_partitionCount g \<and> grp_assignments g p = Some m} \<le> grp_partitionCount g div length (grp_members g) + 1"
  shows "grp_assignments (rebalance g) p = Some m"
  using assms by (rule sticky_rebalance_keeps)

theorem sticky_keeps_partitions_witness:
  "grp_assignments (rebalance ((join_add 0 ''b'' (join_add 0 ''a'' (group_ex StrategySticky 3)))\<lparr>grp_assignments := [2 \<mapsto> ''b'']\<rparr>)) 2 = Some ''b''"
proof (rule sticky_keeps_partitions)
  have "{p. p < (3::nat) \<and> [2 \<mapsto> ''b''] p = Some ''b''} = {2}"
    by auto
  then show "card {p. p < grp_partitionCount ((join_add 0 ''b'' (join_add 0 ''a'' (group_ex StrategySticky 3)))\<lparr>grp_assignments := [2 \<mapsto> ''b'']\<rparr>) \<and>
      grp_assignments ((join_add 0 ''b'' (join_add 0 ''a'' (group_ex StrategySticky 3)))\<lparr>grp_assignments := [2 \<mapsto> ''b'']\<rparr>) p = Some ''b''} \<le>
    grp_partitionCount ((join_add 0 ''b'' (join_add 0 ''a'' (group_ex StrategySticky 3)))\<lparr>grp_assignments := [2 \<mapsto> ''b'']\<rparr>) div
      length (grp_members ((join_add 0 ''b'' (join_add 0 ''a'' (group_ex StrategySticky 3)))\<lparr>grp_assignments := [2 \<mapsto> ''b'']\<rparr>)) + 1"
    by (simp add: join_add_def group_ex_def NewConsumerGroup_def)
qed (simp_all add: join_add_def group_ex_def NewConsumerGroup_def ids_def)

text \<open>C21: A committed offset survives a restart: when the commit reports no error, a group of the same name
  made from the files has the committed offset for every partition of its topic; a commit for a group with
  an invalid name changes the group and is lost.\<close>

theorem commit_survives_restart:
  "case CommitOffset written p off g s of (err, g', s') \<Rightarrow>
     GetCommittedOffset g' p = off \<and>
     (err = None \<longleftrightarrow> written \<and> ValidateGroupName (grp_name g) = None) \<and>
     (if err = None
      then \<forall>q. Get (NewOffsetStore (os_files s')) (grp_name g) q = (if q = p then off else Get s (grp_name g) q) \<and>
        GetCommittedOffset (NewConsumerGroup (grp_name g) topic n str (NewOffsetStore (os_files s'))) q =
          (if q < n then if q = p then off else Get s (grp_name g) q else 0)
      else os_files s' = os_files s)"
  by (cases "ValidateGroupName (grp_name g)"; cases "os_cache s (grp_name g)"; cases written)
    (auto simp: CommitOffset_def Save_def persist_def committed_update Get_loaded committed_new Get_def [of s] Let_def)

text \<open>The sticky strategy can leave a member without work for good: when every member of a group owns at
  most one partition more than the new target, a newcomer gets no partition at all, whatever the target
  is.  With two partitions and two members the second one stays idle.\<close>

theorem sticky_newcomer_gets_nothing:
  assumes "group_reachable name topic n StrategySticky store (g, 0)" "grp_members g \<noteq> []" "m \<notin> ids g"
    and "\<forall>m'\<in>ids g. length (parts g m') \<le> n div (length (grp_members g) + 1) + 1"
  shows "m \<in> ids (Join now m g) \<and> parts (Join now m g) m = []"
proof -
  from group_inv_reachable [OF assms(1)] have "distinct (map fst (grp_members g))" "settled g" "grp_partitionCount g = n"
    by (auto simp: group_inv_def)
  moreover have "grp_strategy g = StrategySticky"
    using reachable_strategy [OF assms(1)] by simp
  ultimately show ?thesis
    using newcomer_gets_nothing [of g m now] assms(2-4) by simp
qed

theorem sticky_newcomer_gets_nothing_witness:
  "parts (Join 1 ''b'' (Join 0 ''a'' (group_ex StrategySticky 2))) ''b'' = []"
  using sticky_newcomer_gets_nothing [OF first_member(1) first_member(2), of "''b''" 1] first_member(3-5)
  by (simp flip: numeral_2_eq_2)

end
