(* ===== verification/Server.thy ===== *)
theory Server
  imports Responses Consumer_Group
begin

text \<open>
  The part of the admin server the dashboard talks to: the routes of
  \<^verbatim>\<open>internal/protocol/http/server.go\<close>, how a request path is matched against them, and the handlers
  whose answers the pages depend on.  A handler is a function from the state of the broker it
  reads to the answer; the broker's subsystems behind it are arguments.  The path of a request is
  what the browser's URL parser makes of the string given to \<open>fetch\<close>: it ends at the first \<open>?\<close> or \<open>#\<close>
  and has its dot segments removed.  Characters that the browser percent-encodes are decoded again
  by the server and appear as themselves.
\<close>

section \<open>Paths\<close>

fun split_on :: "char \<Rightarrow> string \<Rightarrow> string list" where
  "split_on d [] = [[]]"
| "split_on d (c # cs) =
     (if c = d then [] # split_on d cs
      else case split_on d cs of [] \<Rightarrow> [[c]] | s # ss \<Rightarrow> (c # s) # ss)"

definition path_part :: "string \<Rightarrow> string" where
  "path_part u = takeWhile (\<lambda>c. c \<noteq> CHR ''?'' \<and> c \<noteq> CHR ''#'') u"

definition query_part :: "string \<Rightarrow> string" where
  "query_part u = takeWhile (\<lambda>c. c \<noteq> CHR ''#'') (tl (dropWhile (\<lambda>c. c \<noteq> CHR ''?'') u))"

text \<open>Dot segments: \<open>..\<close> drops the segment before it; at the end of the path both leave an empty
  segment.  The accumulator holds the segments so far in reverse.\<close>

fun remove_dots :: "string list \<Rightarrow> string list \<Rightarrow> string list" where
  "remove_dots acc [] = rev acc"
| "remove_dots acc (s # ss) =
     (if s = ''..'' then (if ss = [] then rev ([] # tl acc) else remove_dots (tl acc) ss)
      else if s = ''.'' then (if ss = [] then rev ([] # acc) else remove_dots acc ss)
      else remove_dots (s # acc) ss)"

text \<open>The segments of an absolute URL path, without the leading slash.\<close>

definition url_segments :: "string \<Rightarrow> string list" where
  "url_segments u = remove_dots [] (split_on CHR ''/'' (tl (path_part u)))"

section \<open>Routes\<close>

definition routes :: "(string \<times> string) list" where
  "routes =
     [(''POST'', ''/v1/topics''), (''GET'', ''/v1/topics''),
      (''GET'', ''/v1/topics/{name}''), (''DELETE'', ''/v1/topics/{name}''),
      (''POST'', ''/v1/messages/{topic}''), (''POST'', ''/v1/messages/{topic}/batch''),
      (''GET'', ''/v1/messages/{topic}''), (''POST'', ''/v1/messages/{topic}/ack''),
      (''POST'', ''/v1/messages/{topic}/nack''), (''GET'', ''/v1/consumers''),
      (''GET'', ''/v1/consumers/{group}''), (''POST'', ''/v1/consumers/{group}/join''),
      (''POST'', ''/v1/consumers/{group}/leave''), (''POST'', ''/v1/consumers/{group}/heartbeat''),
      (''GET'', ''/v1/consumers/{group}/offsets''), (''POST'', ''/v1/consumers/{group}/offsets''),
      (''GET'', ''/v1/health''), (''GET'', ''/v1/health/detailed''),
      (''GET'', ''/v1/metrics''), (''GET'', ''/v1/cluster/members''),
      (''POST'', ''/v1/schemas/{subject}''), (''GET'', ''/v1/schemas/{subject}''),
      (''GET'', ''/v1/schemas/{subject}/latest''), (''GET'', ''/v1/schemas/{subject}/versions/{version}''),
      (''DELETE'', ''/v1/schemas/{subject}''), (''PUT'', ''/v1/schemas/{subject}/compatibility''),
      (''POST'', ''/v1/wasm/modules''), (''GET'', ''/v1/wasm/modules''),
      (''DELETE'', ''/v1/wasm/modules/{name}''), (''POST'', ''/v1/processors''),
      (''GET'', ''/v1/processors''), (''GET'', ''/v1/processors/{name}''),
      (''DELETE'', ''/v1/processors/{name}''), (''POST'', ''/v1/processors/{name}/start''),
      (''POST'', ''/v1/processors/{name}/stop''), (''GET'', ''/v1/dlq/{topic}''),
      (''DELETE'', ''/v1/dlq/{topic}''), (''POST'', ''/v1/dlq/{topic}/replay''),
      (''POST'', ''/v1/dlq/{topic}/preview''), (''GET'', ''/v1/dlq/{topic}/export''),
      (''POST'', ''/v1/tenants''), (''GET'', ''/v1/tenants''),
      (''GET'', ''/v1/tenants/{id}''), (''DELETE'', ''/v1/tenants/{id}''),
      (''GET'', ''/v1/tenants/{id}/usage''), (''GET'', ''/v1/tenants/{id}/quotas''),
      (''PUT'', ''/v1/tenants/{id}/quotas''), (''POST'', ''/v1/exchanges''),
      (''GET'', ''/v1/exchanges''), (''GET'', ''/v1/exchanges/{name}''),
      (''DELETE'', ''/v1/exchanges/{name}''), (''POST'', ''/v1/exchanges/{name}/bindings''),
      (''DELETE'', ''/v1/exchanges/{name}/bindings''), (''POST'', ''/v1/exchanges/{name}/publish''),
      (''POST'', ''/v1/config/reload''), (''GET'', ''/v1/geo-replication/status''),
      (''GET'', ''/v1/geo-replication/lag''), (''POST'', ''/v1/admin/drain'')]"

definition is_wildcard :: "string \<Rightarrow> bool" where
  "is_wildcard s \<longleftrightarrow> s \<noteq> [] \<and> hd s = CHR ''{''"

text \<open>A wildcard matches one segment that is not empty.\<close>

fun match_segs :: "string list \<Rightarrow> string list \<Rightarrow> string list option" where
  "match_segs [] [] = Some []"
| "match_segs (p # ps) (s # ss) =
     (if is_wildcard p then (if s = [] then None else map_option ((#) s) (match_segs ps ss))
      else if p = s then match_segs ps ss else None)"
| "match_segs _ _ = None"

definition pattern_segs :: "string \<Rightarrow> string list" where
  "pattern_segs p = split_on CHR ''/'' (tl p)"

definition find_route :: "string \<Rightarrow> string list \<Rightarrow> (string \<times> string list) option" where
  "find_route m segs = (case filter (\<lambda>(m', p). m' = m \<and> match_segs (pattern_segs p) segs \<noteq> None) routes of
     [] \<Rightarrow> None | (m', p) # rs \<Rightarrow> Some (p, the (match_segs (pattern_segs p) segs)))"

definition path_known :: "string list \<Rightarrow> bool" where
  "path_known segs \<longleftrightarrow> list_ex (\<lambda>(m, p). match_segs (pattern_segs p) segs \<noteq> None) routes"

section \<open>Answers\<close>

definition status_text :: "nat \<Rightarrow> string" where
  "status_text st = (case map_of
     [(200, ''OK''), (201, ''Created''), (204, ''No Content''), (400, ''Bad Request''), (403, ''Forbidden''), (404, ''Not Found''),
      (405, ''Method Not Allowed''), (409, ''Conflict''), (500, ''Internal Server Error''), (503, ''Service Unavailable'')] st of
     Some t \<Rightarrow> t | None \<Rightarrow> '''')"

definition writeJSON :: "nat \<Rightarrow> json \<Rightarrow> fetch_outcome" where
  "writeJSON st v = Response st (status_text st) (Some v)"

definition writeError :: "nat \<Rightarrow> string \<Rightarrow> fetch_outcome" where
  "writeError st msg = writeJSON st (JObj [(''error'', JStr msg)])"

text \<open>\<open>http.Error\<close> sends plain text and \<open>WriteHeader(204)\<close> no body: neither is JSON.\<close>

definition http_error :: "nat \<Rightarrow> string \<Rightarrow> fetch_outcome" where
  "http_error st msg = Response st (status_text st) None"

definition no_content :: fetch_outcome where
  "no_content = Response 204 (status_text 204) None"

text \<open>The server as the browser sees it: \<open>handle\<close> gives the answer of the handler of a route for the
  path values, the URL and the options of the request.\<close>

definition init_method :: "init_obj \<Rightarrow> string" where
  "init_method i = (case map_of i ''method'' of Some (Str m) \<Rightarrow> m | _ \<Rightarrow> ''GET'')"

definition serve :: "(string \<Rightarrow> string \<Rightarrow> string list \<Rightarrow> string \<Rightarrow> init_obj \<Rightarrow> fetch_outcome) \<Rightarrow> fetcher" where
  "serve handle url i =
     (case find_route (init_method i) (url_segments url) of
        Some (p, vals) \<Rightarrow> handle (init_method i) p vals url i
      | None \<Rightarrow> http_error (if path_known (url_segments url) then 405 else 404) '''')"

definition route_of :: "api_call \<Rightarrow> (string \<times> string list) option" where
  "route_of c = find_route (init_method (call_init c)) (url_segments (fetch_url (call_path c)))"

section \<open>Handlers\<close>

text \<open>\<open>strconv.Atoi\<close> on the digits a page sends; \<open>None\<close> is an error.\<close>

definition atoi :: "string \<Rightarrow> int option" where
  "atoi s = (if s \<noteq> [] \<and> list_all is_digit s then Some (int (read_nat s))
     else if s \<noteq> [] \<and> hd s = CHR ''-'' \<and> tl s \<noteq> [] \<and> list_all is_digit (tl s) then Some (- int (read_nat (tl s)))
     else if s \<noteq> [] \<and> hd s = CHR ''+'' \<and> tl s \<noteq> [] \<and> list_all is_digit (tl s) then Some (int (read_nat (tl s)))
     else None)"

definition query_get :: "string \<Rightarrow> string \<Rightarrow> string" where
  "query_get k u = (case map_of (map (\<lambda>kv. (takeWhile (\<lambda>c. c \<noteq> CHR ''='') kv, tl (dropWhile (\<lambda>c. c \<noteq> CHR ''='') kv)))
       (split_on CHR ''&'' (query_part u))) k of Some v \<Rightarrow> v | None \<Rightarrow> '''')"

definition maxListLimit :: int where "maxListLimit = 1000"
definition defaultListLimit :: int where "defaultListLimit = 100"

definition parsePagination :: "string \<Rightarrow> int \<times> int" where
  "parsePagination u =
     (let l = (case atoi (query_get ''limit'' u) of Some v \<Rightarrow> if v > 0 then v else defaultListLimit | None \<Rightarrow> defaultListLimit);
          off = (case atoi (query_get ''offset'' u) of Some v \<Rightarrow> if v \<ge> 0 then v else 0 | None \<Rightarrow> 0)
      in (if l > maxListLimit then maxListLimit else l, off))"

definition paginate :: "'a list \<Rightarrow> int \<Rightarrow> int \<Rightarrow> 'a list" where
  "paginate xs limit off =
     (if off \<ge> int (length xs) then []
      else let end = (if off + limit > int (length xs) then int (length xs) else off + limit)
           in drop (nat off) (take (nat end) xs))"

datatype topic_mode = ModeUnified | ModeStream | ModeQueue

record broker_topic =
  bt_name :: string
  bt_mode :: topic_mode
  bt_partitions :: nat
  bt_created_at :: string \<comment> \<open>formatted as RFC 3339\<close>

fun mode_str :: "topic_mode \<Rightarrow> string" where
  "mode_str ModeUnified = ''unified''" | "mode_str ModeStream = ''stream''" | "mode_str ModeQueue = ''queue''"

definition topic_info_json :: "broker_topic \<Rightarrow> json" where
  "topic_info_json t = JObj
     [(''name'', JStr (bt_name t)), (''mode'', JStr (mode_str (bt_mode t))),
      (''partitions'', JNum (int (bt_partitions t))), (''created_at'', JStr (bt_created_at t))]"

text \<open>\<open>topics\<close> is \<open>None\<close> when the broker has no topic manager.\<close>

definition handleListTopics :: "broker_topic list option \<Rightarrow> string \<Rightarrow> fetch_outcome" where
  "handleListTopics topics u = (case topics of
     None \<Rightarrow> writeError 503 ''topic manager not available''
   | Some ts \<Rightarrow> (let (limit, off) = parsePagination u
                 in writeJSON 200 (JArr (map topic_info_json (paginate ts limit off)))))"

record part_stat =
  ps_id :: nat
  ps_high :: nat
  ps_low :: nat

definition part_stat_json :: "part_stat \<Rightarrow> json" where
  "part_stat_json p = JObj [(''id'', JNum (int (ps_id p))), (''high_watermark'', JNum (int (ps_high p))),
     (''log_start_offset'', JNum (int (ps_low p)))]"

text \<open>\<open>part n i\<close> are the watermarks of a partition, \<open>None\<close> when it cannot be opened.\<close>

definition handleGetTopic ::
  "broker_topic list option \<Rightarrow> bool \<Rightarrow> (string \<Rightarrow> nat \<Rightarrow> (nat \<times> nat) option) \<Rightarrow> string \<Rightarrow> fetch_outcome" where
  "handleGetTopic topics storage part name = (case topics of
     None \<Rightarrow> writeError 503 ''topic manager not available''
   | Some ts \<Rightarrow>
      (if \<not> storage then writeError 503 ''storage not available''
       else case find (\<lambda>t. bt_name t = name) ts of
         None \<Rightarrow> writeError 404 ''topic not found''
       | Some t \<Rightarrow> writeJSON 200 (JObj
           [(''name'', JStr (bt_name t)),
            (''partitions'', JArr (map (\<lambda>i. part_stat_json (case part name i of
               Some (h, l) \<Rightarrow> \<lparr>ps_id = i, ps_high = h, ps_low = l\<rparr>
             | None \<Rightarrow> \<lparr>ps_id = 0, ps_high = 0, ps_low = 0\<rparr>)) [0..<bt_partitions t]))])))"

text \<open>The deletions.  \<open>del\<close> tells whether the subsystem removed the item; \<open>msg\<close> is its error.\<close>

definition handleDeleteTopic :: "bool \<Rightarrow> (string \<Rightarrow> bool) \<Rightarrow> string \<Rightarrow> string \<Rightarrow> fetch_outcome" where
  "handleDeleteTopic topics del msg name =
     (if \<not> topics then writeError 503 ''topic manager not available''
      else if \<not> del name then writeError 404 msg
      else writeJSON 200 (JObj [(''status'', JStr ''deleted'')]))"

definition handleDeleteSubject :: "bool \<Rightarrow> (string \<Rightarrow> bool) \<Rightarrow> string \<Rightarrow> fetch_outcome" where
  "handleDeleteSubject reg del subject =
     (if \<not> reg then http_error 503 ''schema registry not enabled''
      else if \<not> del subject then http_error 500 ''internal error'' else no_content)"

definition handleDeleteWASM :: "bool \<Rightarrow> (string \<Rightarrow> bool) \<Rightarrow> string \<Rightarrow> string \<Rightarrow> fetch_outcome" where
  "handleDeleteWASM rt del msg name =
     (if \<not> rt then http_error 503 ''WASM runtime not enabled''
      else if \<not> del name then http_error 404 msg else no_content)"

definition handleDeleteTopology :: "bool \<Rightarrow> (string \<Rightarrow> bool) \<Rightarrow> string \<Rightarrow> string \<Rightarrow> fetch_outcome" where
  "handleDeleteTopology p del msg name =
     (if \<not> p then http_error 503 ''stream processing not enabled''
      else if \<not> del name then http_error 409 msg else no_content)"

text \<open>\<open>ListGroups\<close> gives the names in the order of a Go map, so it is an argument; the group of a
  name is found by \<open>groups\<close>.  Ranging over the maps of the members and of the assignments visits
  their entries in the orders \<open>ms\<close> and \<open>asg\<close>; the keys of an encoded map are sorted.\<close>

definition handleListConsumers :: "bool \<Rightarrow> string list \<Rightarrow> string \<Rightarrow> fetch_outcome" where
  "handleListConsumers stream groups u =
     (if \<not> stream then writeError 503 ''stream engine not available''
      else let (limit, off) = parsePagination u; page = paginate groups limit off
           in writeJSON 200 (JObj [(''groups'', JArr (map JStr page)), (''count'', JNum (int (length page)))]))"

definition member_info_json :: "string \<times> nat list option \<Rightarrow> json" where
  "member_info_json m = JObj [(''id'', JStr (fst m)),
     (''partitions'', case snd m of None \<Rightarrow> JNull | Some ps \<Rightarrow> JArr (map (\<lambda>p. JNum (int p)) ps))]"

definition assignment_map_json :: "(nat \<times> string) list \<Rightarrow> json" where
  "assignment_map_json asg = JObj (map (\<lambda>m. (m, JArr (map (\<lambda>(p, _). JNum (int p)) (filter (\<lambda>(_, m'). m' = m) asg))))
     (sort (remdups (map snd asg))))"

definition handleGetConsumer ::
  "bool \<Rightarrow> bool \<Rightarrow> (string \<Rightarrow> ConsumerGroup option) \<Rightarrow>
   (ConsumerGroup \<Rightarrow> (string \<times> nat list option) list) \<Rightarrow> (ConsumerGroup \<Rightarrow> (nat \<times> string) list) \<Rightarrow> string \<Rightarrow> fetch_outcome" where
  "handleGetConsumer stream tenant groups ms asg name =
     (if \<not> stream then writeError 503 ''stream engine not available''
      else if tenant then writeError 403 ''tenant cannot access other tenant's consumer groups''
      else case groups name of
        None \<Rightarrow> writeError 404 ''consumer group not found''
      | Some cg \<Rightarrow> writeJSON 200 (JObj
          [(''assignments'', assignment_map_json (asg cg)), (''group'', JStr name), (''members'', JArr (map member_info_json (ms cg)))]))"

record geo_config =
  gc_local_dc :: string
  gc_mode :: string
  gc_remote_dcs :: "string list"

text \<open>\<open>geo\<close> is the configuration with the counters of the manager, \<open>None\<close> without a manager; the counters of the
  receiver are zero when there is none.\<close>

definition handleGeoStatus :: "(geo_config \<times> nat \<times> nat) option \<Rightarrow> (nat \<times> nat) option \<Rightarrow> fetch_outcome" where
  "handleGeoStatus geo receiver = (case geo of
     None \<Rightarrow> writeJSON 200 (JObj [(''enabled'', JBool False)])
   | Some (cfg, replicated, failed) \<Rightarrow>
       let (received, rejected) = (case receiver of Some c \<Rightarrow> c | None \<Rightarrow> (0, 0))
       in writeJSON 200 (JObj
         [(''enabled'', JBool True), (''local_dc'', JStr (gc_local_dc cfg)), (''mode'', JStr (gc_mode cfg)),
          (''receiver'', JObj [(''events_received'', JNum (int received)), (''events_rejected'', JNum (int rejected))]),
          (''remote_dcs'', JNum (int (length (gc_remote_dcs cfg)))),
          (''sender'', JObj [(''events_failed'', JNum (int failed)), (''events_sent'', JNum (int replicated))])]))"

definition validateTopicName :: "string \<Rightarrow> bool" where
  "validateTopicName name \<longleftrightarrow>
     \<not> (name = [] \<or> length name > 255) \<and>
     \<not> (str_includes name ''..'' \<or> list_ex (\<lambda>c. c \<in> {CHR ''/'', CHR 0x5C, CHR 0x0D, CHR 0x0A}) name)"


section \<open>The server\<close>

text \<open>What the modelled handlers read of the broker, and the dispatch of the routes to them.  The other
  handlers are the argument \<open>other\<close>.\<close>

record broker_view =
  bv_topics :: "broker_topic list option"
  bv_storage :: bool
  bv_partition :: "string \<Rightarrow> nat \<Rightarrow> (nat \<times> nat) option"
  bv_registry :: bool
  bv_wasm :: bool
  bv_processor :: bool
  bv_delete :: "string \<Rightarrow> string \<Rightarrow> bool" \<comment> \<open>kind of object and its name\<close>
  bv_error :: string
  bv_stream :: bool
  bv_tenant :: bool \<comment> \<open>the caller belongs to a tenant and is no cluster administrator\<close>
  bv_group_names :: "string list"
  bv_groups :: "string \<Rightarrow> ConsumerGroup option"
  bv_members :: "ConsumerGroup \<Rightarrow> (string \<times> nat list option) list" \<comment> \<open>\<open>Members\<close> in the order of iteration\<close>
  bv_assignments :: "ConsumerGroup \<Rightarrow> (nat \<times> string) list" \<comment> \<open>\<open>Assignments\<close> in the order of iteration\<close>

text \<open>Ranging over a map visits each entry once.\<close>

definition iterates :: "broker_view \<Rightarrow> bool" where
  "iterates b \<longleftrightarrow> (\<forall>n g. bv_groups b n = Some g \<longrightarrow> set (bv_members b g) = set (Members g) \<and> distinct (bv_assignments b g) \<and>
     set (bv_assignments b g) = {(p, m). grp_assignments g p = Some m})"

definition admin ::
  "broker_view \<Rightarrow> (string \<Rightarrow> string \<Rightarrow> string list \<Rightarrow> string \<Rightarrow> init_obj \<Rightarrow> fetch_outcome) \<Rightarrow>
   string \<Rightarrow> string \<Rightarrow> string list \<Rightarrow> string \<Rightarrow> init_obj \<Rightarrow> fetch_outcome" where
  "admin b other m p vals u i =
     (if (m, p) = (''GET'', ''/v1/topics'') then handleListTopics (bv_topics b) u
      else if (m, p) = (''GET'', ''/v1/topics/{name}'') then handleGetTopic (bv_topics b) (bv_storage b) (bv_partition b) (hd vals)
      else if (m, p) = (''DELETE'', ''/v1/topics/{name}'')
        then handleDeleteTopic (bv_topics b \<noteq> None) (bv_delete b ''topic'') (bv_error b) (hd vals)
      else if (m, p) = (''DELETE'', ''/v1/schemas/{subject}'') then handleDeleteSubject (bv_registry b) (bv_delete b ''schema'') (hd vals)
      else if (m, p) = (''DELETE'', ''/v1/wasm/modules/{name}'')
        then handleDeleteWASM (bv_wasm b) (bv_delete b ''module'') (bv_error b) (hd vals)
      else if (m, p) = (''DELETE'', ''/v1/processors/{name}'')
        then handleDeleteTopology (bv_processor b) (bv_delete b ''processor'') (bv_error b) (hd vals)
      else if (m, p) = (''GET'', ''/v1/consumers'') then handleListConsumers (bv_stream b) (bv_group_names b) u
      else if (m, p) = (''GET'', ''/v1/consumers/{group}'')
        then handleGetConsumer (bv_stream b) (bv_tenant b) (bv_groups b) (bv_members b) (bv_assignments b) (hd vals)
      else other m p vals u i)"

section \<open>Member states\<close>

text \<open>\<^verbatim>\<open>internal/cluster/gossip/member.go\<close>: the state of a member as \<open>handleClusterMembers\<close> sends it.\<close>

datatype member_state = Alive | Suspect | Dead | Other_state

fun member_state_str :: "member_state \<Rightarrow> string" where
  "member_state_str Alive = ''alive''"
| "member_state_str Suspect = ''suspect''"
| "member_state_str Dead = ''dead''"
| "member_state_str Other_state = ''unknown''"

section \<open>Lemmas\<close>

lemma geo_status_shape:
  "\<exists>v. handleGeoStatus geo receiver = writeJSON 200 v \<and> (\<exists>d. decode_GeoStatusResponse v = Some d \<and> geo_enabled d = (geo \<noteq> None))"
  by (cases geo; cases receiver)
    (auto simp: handleGeoStatus_def decode_GeoStatusResponse_def decode_GeoSender_def decode_GeoReceiver_def field_def opt_field_def
      split: prod.split)

lemma split_on_none: "d \<notin> set s \<Longrightarrow> split_on d s = [s]"
  by (induction s) auto

lemma split_on_append: "d \<notin> set s \<Longrightarrow> split_on d (s @ d # t) = s # split_on d t"
  by (induction s) auto

text \<open>The routes with their patterns split into segments.\<close>

definition route_table :: "(string \<times> string \<times> string list) list" where
  "route_table =
     [(''POST'', ''/v1/topics'', [''v1'', ''topics'']),
      (''GET'', ''/v1/topics'', [''v1'', ''topics'']),
      (''GET'', ''/v1/topics/{name}'', [''v1'', ''topics'', ''{name}'']),
      (''DELETE'', ''/v1/topics/{name}'', [''v1'', ''topics'', ''{name}'']),
      (''POST'', ''/v1/messages/{topic}'', [''v1'', ''messages'', ''{topic}'']),
      (''POST'', ''/v1/messages/{topic}/batch'', [''v1'', ''messages'', ''{topic}'', ''batch'']),
      (''GET'', ''/v1/messages/{topic}'', [''v1'', ''messages'', ''{topic}'']),
      (''POST'', ''/v1/messages/{topic}/ack'', [''v1'', ''messages'', ''{topic}'', ''ack'']),
      (''POST'', ''/v1/messages/{topic}/nack'', [''v1'', ''messages'', ''{topic}'', ''nack'']),
      (''GET'', ''/v1/consumers'', [''v1'', ''consumers'']),
      (''GET'', ''/v1/consumers/{group}'', [''v1'', ''consumers'', ''{group}'']),
      (''POST'', ''/v1/consumers/{group}/join'', [''v1'', ''consumers'', ''{group}'', ''join'']),
      (''POST'', ''/v1/consumers/{group}/leave'', [''v1'', ''consumers'', ''{group}'', ''leave'']),
      (''POST'', ''/v1/consumers/{group}/heartbeat'', [''v1'', ''consumers'', ''{group}'', ''heartbeat'']),
      (''GET'', ''/v1/consumers/{group}/offsets'', [''v1'', ''consumers'', ''{group}'', ''offsets'']),
      (''POST'', ''/v1/consumers/{group}/offsets'', [''v1'', ''consumers'', ''{group}'', ''offsets'']),
      (''GET'', ''/v1/health'', [''v1'', ''health'']),
      (''GET'', ''/v1/health/detailed'', [''v1'', ''health'', ''detailed'']),
      (''GET'', ''/v1/metrics'', [''v1'', ''metrics'']),
      (''GET'', ''/v1/cluster/members'', [''v1'', ''cluster'', ''members'']),
      (''POST'', ''/v1/schemas/{subject}'', [''v1'', ''schemas'', ''{subject}'']),
      (''GET'', ''/v1/schemas/{subject}'', [''v1'', ''schemas'', ''{subject}'']),
      (''GET'', ''/v1/schemas/{subject}/latest'', [''v1'', ''schemas'', ''{subject}'', ''latest'']),
      (''GET'', ''/v1/schemas/{subject}/versions/{version}'', [''v1'', ''schemas'', ''{subject}'', ''versions'', ''{version}'']),
      (''DELETE'', ''/v1/schemas/{subject}'', [''v1'', ''schemas'', ''{subject}'']),
      (''PUT'', ''/v1/schemas/{subject}/compatibility'', [''v1'', ''schemas'', ''{subject}'', ''compatibility'']),
      (''POST'', ''/v1/wasm/modules'', [''v1'', ''wasm'', ''modules'']),
      (''GET'', ''/v1/wasm/modules'', [''v1'', ''wasm'', ''modules'']),
      (''DELETE'', ''/v1/wasm/modules/{name}'', [''v1'', ''wasm'', ''modules'', ''{name}'']),
      (''POST'', ''/v1/processors'', [''v1'', ''processors'']),
      (''GET'', ''/v1/processors'', [''v1'', ''processors'']),
      (''GET'', ''/v1/processors/{name}'', [''v1'', ''processors'', ''{name}'']),
      (''DELETE'', ''/v1/processors/{name}'', [''v1'', ''processors'', ''{name}'']),
      (''POST'', ''/v1/processors/{name}/start'', [''v1'', ''processors'', ''{name}'', ''start'']),
      (''POST'', ''/v1/processors/{name}/stop'', [''v1'', ''processors'', ''{name}'', ''stop'']),
      (''GET'', ''/v1/dlq/{topic}'', [''v1'', ''dlq'', ''{topic}'']),
      (''DELETE'', ''/v1/dlq/{topic}'', [''v1'', ''dlq'', ''{topic}'']),
      (''POST'', ''/v1/dlq/{topic}/replay'', [''v1'', ''dlq'', ''{topic}'', ''replay'']),
      (''POST'', ''/v1/dlq/{topic}/preview'', [''v1'', ''dlq'', ''{topic}'', ''preview'']),
      (''GET'', ''/v1/dlq/{topic}/export'', [''v1'', ''dlq'', ''{topic}'', ''export'']),
      (''POST'', ''/v1/tenants'', [''v1'', ''tenants'']),
      (''GET'', ''/v1/tenants'', [''v1'', ''tenants'']),
      (''GET'', ''/v1/tenants/{id}'', [''v1'', ''tenants'', ''{id}'']),
      (''DELETE'', ''/v1/tenants/{id}'', [''v1'', ''tenants'', ''{id}'']),
      (''GET'', ''/v1/tenants/{id}/usage'', [''v1'', ''tenants'', ''{id}'', ''usage'']),
      (''GET'', ''/v1/tenants/{id}/quotas'', [''v1'', ''tenants'', ''{id}'', ''quotas'']),
      (''PUT'', ''/v1/tenants/{id}/quotas'', [''v1'', ''tenants'', ''{id}'', ''quotas'']),
      (''POST'', ''/v1/exchanges'', [''v1'', ''exchanges'']),
      (''GET'', ''/v1/exchanges'', [''v1'', ''exchanges'']),
      (''GET'', ''/v1/exchanges/{name}'', [''v1'', ''exchanges'', ''{name}'']),
      (''DELETE'', ''/v1/exchanges/{name}'', [''v1'', ''exchanges'', ''{name}'']),
      (''POST'', ''/v1/exchanges/{name}/bindings'', [''v1'', ''exchanges'', ''{name}'', ''bindings'']),
      (''DELETE'', ''/v1/exchanges/{name}/bindings'', [''v1'', ''exchanges'', ''{name}'', ''bindings'']),
      (''POST'', ''/v1/exchanges/{name}/publish'', [''v1'', ''exchanges'', ''{name}'', ''publish'']),
      (''POST'', ''/v1/config/reload'', [''v1'', ''config'', ''reload'']),
      (''GET'', ''/v1/geo-replication/status'', [''v1'', ''geo-replication'', ''status'']),
      (''GET'', ''/v1/geo-replication/lag'', [''v1'', ''geo-replication'', ''lag'']),
      (''POST'', ''/v1/admin/drain'', [''v1'', ''admin'', ''drain''])]"

lemma route_table_eq: "map (\<lambda>(m, p). (m, p, pattern_segs p)) routes = route_table"
  by code_simp

text \<open>Only the routes of the method with as many segments as the path can match.\<close>

definition candidates :: "string \<Rightarrow> nat \<Rightarrow> (string \<times> string list) list" where
  "candidates m k = map snd (filter (\<lambda>(m', p, q). m' = m \<and> length q = k) route_table)"

lemma candidates_eqs:
  "candidates ''GET'' (Suc (Suc 0)) = [(''/v1/topics'', [''v1'', ''topics'']),
     (''/v1/consumers'', [''v1'', ''consumers'']),
     (''/v1/health'', [''v1'', ''health'']),
     (''/v1/metrics'', [''v1'', ''metrics'']),
     (''/v1/processors'', [''v1'', ''processors'']),
     (''/v1/tenants'', [''v1'', ''tenants'']),
     (''/v1/exchanges'', [''v1'', ''exchanges''])]"
  "candidates ''POST'' (Suc (Suc 0)) = [(''/v1/topics'', [''v1'', ''topics'']),
     (''/v1/processors'', [''v1'', ''processors'']),
     (''/v1/tenants'', [''v1'', ''tenants'']),
     (''/v1/exchanges'', [''v1'', ''exchanges''])]"
  "candidates ''GET'' (Suc (Suc (Suc 0))) = [(''/v1/topics/{name}'', [''v1'', ''topics'', ''{name}'']),
     (''/v1/messages/{topic}'', [''v1'', ''messages'', ''{topic}'']),
     (''/v1/consumers/{group}'', [''v1'', ''consumers'', ''{group}'']),
     (''/v1/health/detailed'', [''v1'', ''health'', ''detailed'']),
     (''/v1/cluster/members'', [''v1'', ''cluster'', ''members'']),
     (''/v1/schemas/{subject}'', [''v1'', ''schemas'', ''{subject}'']),
     (''/v1/wasm/modules'', [''v1'', ''wasm'', ''modules'']),
     (''/v1/processors/{name}'', [''v1'', ''processors'', ''{name}'']),
     (''/v1/dlq/{topic}'', [''v1'', ''dlq'', ''{topic}'']),
     (''/v1/tenants/{id}'', [''v1'', ''tenants'', ''{id}'']),
     (''/v1/exchanges/{name}'', [''v1'', ''exchanges'', ''{name}'']),
     (''/v1/geo-replication/status'', [''v1'', ''geo-replication'', ''status'']),
     (''/v1/geo-replication/lag'', [''v1'', ''geo-replication'', ''lag''])]"
  "candidates ''DELETE'' (Suc (Suc (Suc 0))) = [(''/v1/topics/{name}'', [''v1'', ''topics'', ''{name}'']),
     (''/v1/schemas/{subject}'', [''v1'', ''schemas'', ''{subject}'']),
     (''/v1/processors/{name}'', [''v1'', ''processors'', ''{name}'']),
     (''/v1/dlq/{topic}'', [''v1'', ''dlq'', ''{topic}'']),
     (''/v1/tenants/{id}'', [''v1'', ''tenants'', ''{id}'']),
     (''/v1/exchanges/{name}'', [''v1'', ''exchanges'', ''{name}''])]"
  "candidates ''POST'' (Suc (Suc (Suc 0))) = [(''/v1/messages/{topic}'', [''v1'', ''messages'', ''{topic}'']),
     (''/v1/schemas/{subject}'', [''v1'', ''schemas'', ''{subject}'']),
     (''/v1/wasm/modules'', [''v1'', ''wasm'', ''modules'']),
     (''/v1/config/reload'', [''v1'', ''config'', ''reload'']),
     (''/v1/admin/drain'', [''v1'', ''admin'', ''drain''])]"
  "candidates ''DELETE'' (Suc (Suc (Suc (Suc 0)))) = [(''/v1/wasm/modules/{name}'', [''v1'', ''wasm'', ''modules'', ''{name}'']),
     (''/v1/exchanges/{name}/bindings'', [''v1'', ''exchanges'', ''{name}'', ''bindings''])]"
  "candidates ''POST'' (Suc (Suc (Suc (Suc 0)))) = [(''/v1/messages/{topic}/batch'', [''v1'', ''messages'', ''{topic}'', ''batch'']),
     (''/v1/messages/{topic}/ack'', [''v1'', ''messages'', ''{topic}'', ''ack'']),
     (''/v1/messages/{topic}/nack'', [''v1'', ''messages'', ''{topic}'', ''nack'']),
     (''/v1/consumers/{group}/join'', [''v1'', ''consumers'', ''{group}'', ''join'']),
     (''/v1/consumers/{group}/leave'', [''v1'', ''consumers'', ''{group}'', ''leave'']),
     (''/v1/consumers/{group}/heartbeat'', [''v1'', ''consumers'', ''{group}'', ''heartbeat'']),
     (''/v1/consumers/{group}/offsets'', [''v1'', ''consumers'', ''{group}'', ''offsets'']),
     (''/v1/processors/{name}/start'', [''v1'', ''processors'', ''{name}'', ''start'']),
     (''/v1/processors/{name}/stop'', [''v1'', ''processors'', ''{name}'', ''stop'']),
     (''/v1/dlq/{topic}/replay'', [''v1'', ''dlq'', ''{topic}'', ''replay'']),
     (''/v1/dlq/{topic}/preview'', [''v1'', ''dlq'', ''{topic}'', ''preview'']),
     (''/v1/exchanges/{name}/bindings'', [''v1'', ''exchanges'', ''{name}'', ''bindings'']),
     (''/v1/exchanges/{name}/publish'', [''v1'', ''exchanges'', ''{name}'', ''publish''])]"
  by code_simp+

lemma match_segs_length: "match_segs ps ss = Some vs \<Longrightarrow> length ps = length ss"
  by (induction ps ss arbitrary: vs rule: match_segs.induct) (auto split: if_splits)

lemma find_route_candidates:
  "find_route m segs = (case filter (\<lambda>(p, q). match_segs q segs \<noteq> None) (candidates m (length segs)) of
     [] \<Rightarrow> None | (p, q) # rs \<Rightarrow> Some (p, the (match_segs q segs)))"
proof -
  have "filter (\<lambda>(p, q). match_segs q segs \<noteq> None)
      (map snd (filter (\<lambda>(m', p, q). m' = m \<and> length q = length segs) (map (\<lambda>(m, p). (m, p, pattern_segs p)) rs))) =
    map (\<lambda>(m, p). (p, pattern_segs p)) (filter (\<lambda>(m', p). m' = m \<and> match_segs (pattern_segs p) segs \<noteq> None) rs)" for rs
    by (induction rs) (auto dest: match_segs_length)
  then show ?thesis
    unfolding find_route_def candidates_def route_table_eq [symmetric] by (simp split: list.split)
qed

text \<open>A segment that survives the URL parser as it is.\<close>

definition plain_seg :: "string \<Rightarrow> bool" where
  "plain_seg s \<longleftrightarrow> s \<noteq> [] \<and> s \<noteq> ''.'' \<and> s \<noteq> ''..'' \<and> set s \<inter> set ''/?#'' = {}"

lemma takeWhile_plain:
  "plain_seg s \<Longrightarrow> takeWhile (\<lambda>c. c \<noteq> CHR ''?'' \<and> c \<noteq> CHR ''#'') (s @ t) = s @ takeWhile (\<lambda>c. c \<noteq> CHR ''?'' \<and> c \<noteq> CHR ''#'') t"
  by (intro takeWhile_append2) (auto simp: plain_seg_def)

lemma split_plain:
  "plain_seg s \<Longrightarrow> split_on CHR ''/'' s = [s]"
  "plain_seg s \<Longrightarrow> split_on CHR ''/'' (s @ CHR ''/'' # t) = s # split_on CHR ''/'' t"
  by (auto simp: plain_seg_def intro!: split_on_none split_on_append)

lemma plain_not_special: "plain_seg s \<Longrightarrow> s \<noteq> []" "plain_seg s \<Longrightarrow> s \<noteq> ''.''" "plain_seg s \<Longrightarrow> s \<noteq> ''..''"
  by (simp_all add: plain_seg_def)

lemma takeWhile_plain_end: "plain_seg s \<Longrightarrow> takeWhile (\<lambda>c. c \<noteq> CHR ''?'' \<and> c \<noteq> CHR ''#'') s = s"
  using takeWhile_plain [of s "[]"] by simp

lemmas plain_simps = takeWhile_plain takeWhile_plain_end split_plain plain_not_special

lemmas routing_defs = route_of_def find_route_candidates candidates_eqs url_segments_def path_part_def fetch_url_def call_defs verb_defs
  init_method_def is_wildcard_def

lemma route_getTopicDetail: "plain_seg n \<Longrightarrow> route_of (getTopicDetail n) = Some (''/v1/topics/{name}'', [n])"
  by (simp add: routing_defs plain_simps)

lemma route_deleteTopic: "plain_seg n \<Longrightarrow> route_of (deleteTopic n) = Some (''/v1/topics/{name}'', [n])"
  by (simp add: routing_defs plain_simps)

lemma route_getConsumerGroupDetail: "plain_seg n \<Longrightarrow> route_of (getConsumerGroupDetail n) = Some (''/v1/consumers/{group}'', [n])"
  by (simp add: routing_defs plain_simps)

lemma route_getSchemas: "plain_seg n \<Longrightarrow> route_of (getSchemas n) = Some (''/v1/schemas/{subject}'', [n])"
  by (simp add: routing_defs plain_simps)

lemma route_registerSchema: "plain_seg n \<Longrightarrow> route_of (registerSchema n ty d) = Some (''/v1/schemas/{subject}'', [n])"
  by (simp add: routing_defs plain_simps)

lemma route_deleteSchema: "plain_seg n \<Longrightarrow> route_of (deleteSchema n) = Some (''/v1/schemas/{subject}'', [n])"
  by (simp add: routing_defs plain_simps)

lemma route_getDLQ: "plain_seg n \<Longrightarrow> route_of (getDLQ n l) = Some (''/v1/dlq/{topic}'', [n])"
  by (simp add: routing_defs plain_simps)

lemma route_clearDLQ: "plain_seg n \<Longrightarrow> route_of (clearDLQ n) = Some (''/v1/dlq/{topic}'', [n])"
  by (simp add: routing_defs plain_simps)

lemma route_replayDLQ: "plain_seg n \<Longrightarrow> route_of (replayDLQ n opts) = Some (''/v1/dlq/{topic}/replay'', [n])"
  by (simp add: routing_defs plain_simps)

lemma route_deleteWASMModule: "plain_seg n \<Longrightarrow> route_of (deleteWASMModule n) = Some (''/v1/wasm/modules/{name}'', [n])"
  by (simp add: routing_defs plain_simps)

lemma route_getProcessor: "plain_seg n \<Longrightarrow> route_of (getProcessor n) = Some (''/v1/processors/{name}'', [n])"
  by (simp add: routing_defs plain_simps)

lemma route_deleteProcessor: "plain_seg n \<Longrightarrow> route_of (deleteProcessor n) = Some (''/v1/processors/{name}'', [n])"
  by (simp add: routing_defs plain_simps)

lemma route_startProcessor: "plain_seg n \<Longrightarrow> route_of (startProcessor n) = Some (''/v1/processors/{name}/start'', [n])"
  by (simp add: routing_defs plain_simps)

lemma route_stopProcessor: "plain_seg n \<Longrightarrow> route_of (stopProcessor n) = Some (''/v1/processors/{name}/stop'', [n])"
  by (simp add: routing_defs plain_simps)

lemmas named_routes = route_getTopicDetail route_deleteTopic route_getConsumerGroupDetail route_getSchemas route_registerSchema
  route_deleteSchema route_getDLQ route_clearDLQ route_replayDLQ route_deleteWASMModule
  route_getProcessor route_deleteProcessor route_startProcessor route_stopProcessor

lemma fixed_routes:
  "route_of getHealth = Some (''/v1/health'', [])" "route_of (getTopics l off) = Some (''/v1/topics'', [])"
  "route_of (createTopic n m k) = Some (''/v1/topics'', [])" "route_of getConsumers = Some (''/v1/consumers'', [])"
  "route_of getCluster = Some (''/v1/cluster/members'', [])" "route_of listWASMModules = Some (''/v1/wasm/modules'', [])"
  "route_of listProcessors = Some (''/v1/processors'', [])"
  by (simp_all add: routing_defs)

lemma missing_routes: "route_of listDLQTopics = None" "route_of listSchemaSubjects = None"
  by (simp_all add: routing_defs)


text \<open>A call of the dashboard as the server answers it.\<close>

lemma method_kept:
  assumes "verb_call c"
  shows "init_method (fetch_options st (Some (call_init c))) = init_method (call_init c)"
  using assms by (auto simp: init_method_def verb_sent_other)

lemma perform_serve:
  assumes "verb_call c" and "route_of c = Some (p, vals)"
    and "handle (init_method (call_init c)) p vals (fetch_url (call_path c)) (fetch_options st (Some (call_init c))) = Response sts reason bdy"
  shows "perform st (serve handle) c = (if res_ok sts then (case bdy of None \<Rightarrow> Inl RSyntax | Some v \<Rightarrow> Inr v)
    else perform st (\<lambda>u i. Response sts reason bdy) c)"
  using assms by (simp add: perform_def request_def serve_def route_of_def method_kept)

lemma perform_unrouted:
  assumes "verb_call c" and "route_of c = None"
  shows "\<exists>e. perform st (serve handle) c = Inl e"
  using assms by (simp add: perform_def request_def serve_def route_of_def method_kept http_error_def res_ok_def Let_def)

lemma paginate_first: "paginate xs limit 0 = take (nat limit) xs" if "0 < limit"
  using that by (auto simp: paginate_def)

end
