(* ===== verification/Dom.thy ===== *)
theory Dom
  imports Http_Api
begin

text \<open>
  Rendered views.  A page renders to a tree of elements with the properties that carry
  behaviour: keys, labels, variants, open and disabled flags, and the event handlers, each the
  list of actions it performs.  Styling classes and decorative icons are left out, except the
  pair \<^verbatim>\<open>sm:hidden\<close> / \<^verbatim>\<open>hidden sm:...\<close>, which decides whether a subtree is shown on a phone or on a
  wide screen and becomes \<open>Vis\<close>.  Typographic dashes of the texts are written \<open>-\<close>.

  A page also has effects on the outside: HTTP calls, toasts, invalidated queries.
\<close>

section \<open>Trees\<close>

datatype screen = Mobile | Desktop

datatype tag =
    TFragment | TDiv | TSpan | TP | TH1 | TH3 | TCode | TPre | TForm | TA | TNav | TAside | THeader | TMain
  | TCard | TCardHeader | TCardTitle | TCardDescription | TCardContent
  | TButton | TInput | TTextarea | TSwitch | TLabel | TBadge | TSkeleton
  | TTable | TTableHeader | TTableBody | TTableRow | TTableHead | TTableCell
  | TDialog | TDialogTrigger | TDialogContent | TDialogHeader | TDialogTitle | TDialogDescription | TDialogFooter
  | TAlertDialog | TAlertDialogContent | TAlertDialogHeader | TAlertDialogTitle | TAlertDialogDescription
  | TAlertDialogFooter | TAlertDialogCancel | TAlertDialogAction
  | TTabs | TTabsList | TTabsTrigger | TTabsContent
  | TSelect | TSelectItem | TNavLink | TChart | TTooltip | TDropdownMenu | TDropdownMenuItem

datatype badge_variant = VDefault | VSecondary | VSuccess | VWarning | VDestructive | VOutline | VGhost

datatype 'm attr =
    Key string
  | Variant badge_variant
  | AriaLabel string
  | Disabled bool
  | Open bool
  | Checked bool
  | Value string
  | Vis screen
  | StopPropagation
  | OnClick "'m list"
  | OnSubmit "'m list"
  | OnOpenChange "bool \<Rightarrow> 'm list"
  | OnChange "string \<Rightarrow> 'm list"
  | OnCheckedChange "bool \<Rightarrow> 'm list"

datatype 'm vnode = Txt string | El tag "'m attr list" "'m vnode list"

datatype toast_kind = ToastSuccess | ToastInfo | ToastError

datatype effect =
    Call api_call
  | Toast toast_kind string
  | Invalidate "string list"  \<comment> \<open>\<open>invalidateQueries({ queryKey })\<close>\<close>
  | Clipboard string          \<comment> \<open>\<open>navigator.clipboard.writeText\<close>\<close>

text \<open>\<open>invalidateQueries\<close> marks every query whose key starts with the given one.\<close>

definition refreshes :: "effect list \<Rightarrow> string list \<Rightarrow> bool" where
  "refreshes es key \<longleftrightarrow> list_ex (\<lambda>x. case x of Invalidate k \<Rightarrow> take (length k) key = k | _ \<Rightarrow> False) es"

text \<open>\<open>cond && <X/>\<close>\<close>

definition guard :: "bool \<Rightarrow> 'a list \<Rightarrow> 'a list" where
  "guard c xs = (if c then xs else [])"

section \<open>Reading a tree\<close>

fun texts :: "'m vnode \<Rightarrow> string list" where
  "texts (Txt s) = [s]"
| "texts (El t ps cs) = concat (map texts cs)"

definition textContent :: "'m vnode \<Rightarrow> string" where
  "textContent n = concat (texts n)"

fun aria :: "'m attr list \<Rightarrow> string option" where
  "aria [] = None"
| "aria (AriaLabel l # ps) = Some l"
| "aria (_ # ps) = aria ps"

fun click :: "'m attr list \<Rightarrow> 'm list option" where
  "click [] = None"
| "click (OnClick ms # ps) = Some ms"
| "click (_ # ps) = click ps"

fun key_of :: "'m attr list \<Rightarrow> string option" where
  "key_of [] = None"
| "key_of (Key k # ps) = Some k"
| "key_of (_ # ps) = key_of ps"

fun shown_on :: "screen \<Rightarrow> 'm attr list \<Rightarrow> bool" where
  "shown_on sc [] = True"
| "shown_on sc (Vis v # ps) = (v = sc \<and> shown_on sc ps)"
| "shown_on sc (_ # ps) = shown_on sc ps"

text \<open>The labelled buttons of a tree, in document order, and those a screen shows.\<close>

definition own_button :: "'m attr list \<Rightarrow> (string \<times> 'm list) list" where
  "own_button ps = (case (aria ps, click ps) of (Some l, Some ms) \<Rightarrow> [(l, ms)] | _ \<Rightarrow> [])"

fun buttons_on :: "screen \<Rightarrow> 'm vnode \<Rightarrow> (string \<times> 'm list) list" where
  "buttons_on sc (Txt s) = []"
| "buttons_on sc (El t ps cs) =
     (if shown_on sc ps then own_button ps @ concat (map (buttons_on sc) cs) else [])"

text \<open>Every action any handler of the tree can perform.\<close>

fun attr_actions :: "'m attr \<Rightarrow> 'm set" where
  "attr_actions (OnClick ms) = set ms"
| "attr_actions (OnSubmit ms) = set ms"
| "attr_actions (OnOpenChange f) = set (f True) \<union> set (f False)"
| "attr_actions (OnChange f) = (\<Union>s. set (f s))"
| "attr_actions (OnCheckedChange f) = set (f True) \<union> set (f False)"
| "attr_actions _ = {}"

fun actions :: "'m vnode \<Rightarrow> 'm set" where
  "actions (Txt s) = {}"
| "actions (El t ps cs) = (\<Union>p \<in> set ps. attr_actions p) \<union> (\<Union>c \<in> set cs. actions c)"

text \<open>React requires the keys of sibling elements to be distinct.\<close>

fun keyed :: "'m vnode \<Rightarrow> string option" where
  "keyed (Txt s) = None"
| "keyed (El t ps cs) = key_of ps"

fun keys_ok :: "'m vnode \<Rightarrow> bool" where
  "keys_ok (Txt s) = True"
| "keys_ok (El t ps cs) = (distinct (map the (filter (\<lambda>k. k \<noteq> None) (map keyed cs))) \<and> list_all keys_ok cs)"

section \<open>Lemmas\<close>

lemma guard_simps [simp]: "guard True xs = xs" "guard False xs = []"
  by (simp_all add: guard_def)

lemma set_guard: "x \<in> set (guard c xs) \<longleftrightarrow> c \<and> x \<in> set xs"
  by (simp add: guard_def)

lemma map_guard [simp]: "map f (guard c xs) = guard c (map f xs)"
  by (simp add: guard_def)

lemma concat_guard [simp]: "concat (guard c xs) = guard c (concat xs)"
  by (simp add: guard_def)

lemma own_button_simps [simp]:
  "own_button [] = []"
  "own_button (Key k # ps) = own_button ps"
  "own_button (Variant v # ps) = own_button ps"
  "own_button (Disabled b # ps) = own_button ps"
  "own_button (Open b # ps) = own_button ps"
  "own_button (Checked b # ps) = own_button ps"
  "own_button (Value s # ps) = own_button ps"
  "own_button (Vis sc # ps) = own_button ps"
  "own_button (StopPropagation # ps) = own_button ps"
  "own_button (OnSubmit ms # ps) = own_button ps"
  "own_button (OnOpenChange f # ps) = own_button ps"
  "own_button (OnChange g # ps) = own_button ps"
  "own_button (OnCheckedChange f # ps) = own_button ps"
  "own_button [AriaLabel l, OnClick ms] = [(l, ms)]"
  "own_button [OnClick ms, AriaLabel l] = [(l, ms)]"
  "own_button [OnClick ms] = []"
  "own_button [AriaLabel l] = []"
  by (simp_all add: own_button_def)

lemma actions_el [simp]: "actions (El t ps cs) = \<Union> (attr_actions ` set ps) \<union> \<Union> (actions ` set cs)"
  by simp

lemma actions_heads [simp]: "\<Union> (actions ` set (map (\<lambda>h. El t [] [Txt h]) hs)) = {}"
  by auto

lemma buttons_heads [simp]: "concat (map (buttons_on sc \<circ> (\<lambda>h. El t [] [Txt h])) hs) = []"
  by (induction hs) simp_all

section \<open>Two layouts of one list\<close>

text \<open>
  The list pages render every list twice: as cards for phones and as a table or a row list for
  wide screens.  The interface asks that the two renderings of an element offer the same labelled
  buttons; then the two layouts of any list do.
\<close>

locale two_layouts =
  fixes card row :: "'a \<Rightarrow> 'm vnode"
  assumes same_buttons: "buttons_on sc (card x) = buttons_on sc' (row x)"
begin

lemma card_row: "buttons_on sc (card x) = buttons_on sc (row x)"
  by (rule same_buttons)

lemma any_screen: "buttons_on sc (row x) = buttons_on sc' (row x)"
  using same_buttons by metis

lemma lists_agree: "concat (map (buttons_on sc \<circ> card) xs) = concat (map (buttons_on sc' \<circ> row) xs)"
  by (induction xs) (simp_all add: same_buttons [of sc _ sc'])

end

end
