(* ===== verification/Forms.thy ===== *)
theory Forms
  imports Dom Complex_Main
begin

text \<open>
  Form validation.  The pages describe their forms with \<^verbatim>\<open>zod\<close> and run them with
  \<^verbatim>\<open>react-hook-form\<close>, packages that are not part of this repository.  The schemas are data here,
  as they are in the source (lists of checks with their messages); what \<^verbatim>\<open>zod\<close> makes of a check is
  the parameter \<open>zod\<close> of every definition that validates, and \<open>zod_ok\<close> states the documented
  behaviour the pages rely on.  \<open>zod_doc\<close> is the validator that follows the documentation to the
  letter; it shows that \<open>zod_ok\<close> can be met.
\<close>

section \<open>Checks\<close>

datatype zcheck =
    ZMin nat string      \<comment> \<open>\<open>.min(n, message)\<close>\<close>
  | ZMax nat string      \<comment> \<open>\<open>.max(n, message)\<close>\<close>
  | ZName string         \<comment> \<open>\<open>.regex(/^[a-zA-Z0-9._-]+$/, message)\<close>\<close>

text \<open>The character class and the regular expression \<^verbatim>\<open>/^[a-zA-Z0-9._-]+$/\<close>.\<close>

definition name_char :: "char \<Rightarrow> bool" where
  "name_char c \<longleftrightarrow> (let n = (of_char c :: nat) in
     97 \<le> n \<and> n \<le> 122 \<or> 65 \<le> n \<and> n \<le> 90 \<or> 48 \<le> n \<and> n \<le> 57) \<or> c \<in> set ''._-''"

definition name_regex :: "string \<Rightarrow> bool" where
  "name_regex s \<longleftrightarrow> s \<noteq> [] \<and> list_all name_char s"

fun check_holds :: "zcheck \<Rightarrow> string \<Rightarrow> bool" where
  "check_holds (ZMin n m) s = (n \<le> length s)"
| "check_holds (ZMax n m) s = (length s \<le> n)"
| "check_holds (ZName m) s = name_regex s"

fun check_msg :: "zcheck \<Rightarrow> string" where
  "check_msg (ZMin n m) = m" | "check_msg (ZMax n m) = m" | "check_msg (ZName m) = m"

text \<open>A number field: \<open>None\<close> is NaN (an empty field), otherwise the value and the text typed.\<close>

record js_number =
  num_val :: rat
  num_text :: string

definition number_json :: "js_number \<Rightarrow> json" where
  "number_json n = (if of_int \<lfloor>num_val n\<rfloor> = num_val n then JNum \<lfloor>num_val n\<rfloor> else JFrac (num_text n))"

section \<open>The validator\<close>

record zod =
  zstring :: "zcheck list \<Rightarrow> string \<Rightarrow> string list"
  znumber :: "rat \<times> string \<Rightarrow> rat \<times> string \<Rightarrow> js_number option \<Rightarrow> string list"
  zenum :: "string list \<Rightarrow> string \<Rightarrow> string list"
  zliteral :: "string \<Rightarrow> string \<Rightarrow> string list"
  zunion :: "string list \<Rightarrow> string list \<Rightarrow> string list"

text \<open>Documented behaviour: no issue is reported exactly when every check holds.\<close>

definition zod_ok :: "zod \<Rightarrow> bool" where
  "zod_ok z \<longleftrightarrow>
     (\<forall>cs s. zstring z cs s = [] \<longleftrightarrow> list_all (\<lambda>c. check_holds c s) cs) \<and>
     (\<forall>lo lm hi hm x. znumber z (lo, lm) (hi, hm) x = [] \<longleftrightarrow> (\<exists>n. x = Some n \<and> lo \<le> num_val n \<and> num_val n \<le> hi)) \<and>
     (\<forall>xs s. zenum z xs s = [] \<longleftrightarrow> s \<in> set xs) \<and>
     (\<forall>l s. zliteral z l s = [] \<longleftrightarrow> s = l) \<and>
     (\<forall>a b. zunion z a b = [] \<longleftrightarrow> a = [] \<or> b = [])"

definition zod_doc :: zod where
  "zod_doc =
     \<lparr>zstring = (\<lambda>cs s. map check_msg (filter (\<lambda>c. \<not> check_holds c s) cs)),
      znumber = (\<lambda>(lo, lm) (hi, hm) x. case x of
        None \<Rightarrow> [''Expected number, received nan'']
      | Some n \<Rightarrow> (if num_val n < lo then [lm] else []) @ (if hi < num_val n then [hm] else [])),
      zenum = (\<lambda>xs s. if s \<in> set xs then [] else [''Invalid enum value'']),
      zliteral = (\<lambda>l s. if s = l then [] else [''Invalid literal value'']),
      zunion = (\<lambda>a b. if a = [] \<or> b = [] then [] else [''Invalid input''])\<rparr>"

lemma zod_doc_ok: "zod_ok zod_doc"
  by (auto simp: zod_ok_def zod_doc_def filter_empty_conv list_all_iff split: option.split)

lemma zod_okD:
  assumes "zod_ok z"
  shows "zstring z cs s = [] \<longleftrightarrow> list_all (\<lambda>c. check_holds c s) cs"
    and "znumber z (lo, lm) (hi, hm) x = [] \<longleftrightarrow> (\<exists>n. x = Some n \<and> lo \<le> num_val n \<and> num_val n \<le> hi)"
    and "zenum z xs t = [] \<longleftrightarrow> t \<in> set xs"
    and "zliteral z l t = [] \<longleftrightarrow> t = l"
    and "zunion z a b = [] \<longleftrightarrow> a = [] \<or> b = []"
  using assms by (simp_all add: zod_ok_def)

lemma name_regex_chars: "name_regex s \<Longrightarrow> c \<in> set s \<Longrightarrow> name_char c"
  by (simp add: name_regex_def list_all_iff)

lemma name_char_not_special:
  "name_char c \<Longrightarrow> c \<noteq> CHR 0x2F \<and> c \<noteq> CHR 0x3F \<and> c \<noteq> CHR 0x23 \<and> c \<noteq> CHR 0x25 \<and>
     c \<noteq> CHR 0x5C \<and> c \<noteq> CHR 0x0D \<and> c \<noteq> CHR 0x0A"
  by (auto simp: name_char_def)

section \<open>Confirmation dialogs\<close>

text \<open>\<open>err.message ?? fallback\<close>\<close>

definition error_toast :: "string option \<Rightarrow> string \<Rightarrow> effect" where
  "error_toast msg fallback = Toast ToastError (case msg of Some m \<Rightarrow> m | None \<Rightarrow> fallback)"

text \<open>
  Four pages delete through the same dialog: a state variable holds the target, the dialog is
  open while it is set, the confirm button starts the mutation and then closes the dialog.  The
  mutation function reads the target from the closure of some render: the one the user clicked
  in or the one after the dialog closed.  Which of the two is a matter of \<^verbatim>\<open>@tanstack/react-query\<close>
  and appears as the parameter \<open>pick\<close>.
\<close>

locale confirm_delete =
  fixes target :: "'s \<Rightarrow> string option"
    and close :: "'s \<Rightarrow> 's"
    and del_call :: "string \<Rightarrow> api_call"
    and confirm :: "('s \<Rightarrow> 's \<Rightarrow> 's) \<Rightarrow> 's \<Rightarrow> 's \<times> effect list"
  assumes target_close: "target (close s) = None"
    and confirm_eq: "confirm pick s = (close s, [Call (del_call (tpl (target (pick s (close s)))))])"
begin

lemma confirm_closes: "target (fst (confirm pick s)) = None"
  by (simp add: confirm_eq target_close)

text \<open>Exactly one request, for the confirmed target or for the literal name \<open>null\<close>.\<close>

lemma confirm_request:
  assumes "target s = Some t" and "pick s (close s) \<in> {s, close s}"
  shows "snd (confirm pick s) = [Call (del_call t)] \<or> snd (confirm pick s) = [Call (del_call ''null'')]"
  using assms by (auto simp: confirm_eq target_close tpl_def)

lemma confirm_click_closure: "target s = Some t \<Longrightarrow> snd (confirm (\<lambda>a b. a) s) = [Call (del_call t)]"
  by (simp add: confirm_eq tpl_def)

lemma confirm_latest_closure: "snd (confirm (\<lambda>a b. b) s) = [Call (del_call ''null'')]"
  by (simp add: confirm_eq target_close tpl_def)

end

end
