(* ===== verification/Topics_Page.thy ===== *)
theory Topics_Page
  imports Forms Responses
begin

text \<open>
  \<^verbatim>\<open>frontend/src/pages/TopicsPage.tsx\<close>.  The state is the component's \<open>useState\<close> cells and the form
  values; \<open>topics_env\<close> holds what its hooks return in a render (query data, the debounced search,
  mutation and form flags) and the two locale-dependent formatters.  \<open>topics_act\<close> is what a
  handler does to the state, \<open>topics_view\<close> is the rendered tree, and the \<open>create_\<dots>\<close> and
  \<open>delete_\<dots>\<close> functions are the two mutations with their callbacks.
\<close>

section \<open>The form\<close>

record TopicFormValues =
  tf_name :: string
  tf_mode :: string
  tf_partitions :: "js_number option"

definition topic_name_checks :: "zcheck list" where
  "topic_name_checks =
     [ZMin 1 ''Name is required'', ZMax 128 ''Name is too long'',
      ZName ''Only letters, numbers, dots, hyphens, and underscores'']"

definition topicSchema :: "zod \<Rightarrow> TopicFormValues \<Rightarrow> (string \<times> string) list" where
  "topicSchema z f =
     map (Pair ''name'') (zstring z topic_name_checks (tf_name f)) @
     map (Pair ''mode'') (zenum z [''unified'', ''stream'', ''queue''] (tf_mode f)) @
     map (Pair ''partitions'') (znumber z (1, ''At least 1 partition'') (256, ''Maximum 256 partitions'') (tf_partitions f))"

definition topic_defaults :: TopicFormValues where
  "topic_defaults = \<lparr>tf_name = '''', tf_mode = ''unified'', tf_partitions = Some \<lparr>num_val = 8, num_text = ''8''\<rparr>\<rparr>"

definition modeColors :: "string \<Rightarrow> badge_variant" where
  "modeColors m = (case map_of [(''stream'', VDefault), (''queue'', VWarning), (''unified'', VSuccess)] m of
     Some v \<Rightarrow> v | None \<Rightarrow> VDefault)"

section \<open>State\<close>

record topics_page =
  createOpen :: bool
  deleteTarget :: "string option"
  detailTopic :: "string option"
  search :: string
  modeFilter :: string
  form :: TopicFormValues

record topics_env =
  topics :: "TopicInfo list option"
  isLoading :: bool
  topicDetail :: "TopicDetail option"
  debouncedSearch :: string
  createPending :: bool
  formValid :: bool
  formErrors :: "(string \<times> string) list"
  toDate :: "string \<Rightarrow> string"
  toLocale :: "int \<Rightarrow> string"

definition topics_init :: topics_page where
  "topics_init = \<lparr>createOpen = False, deleteTarget = None, detailTopic = None, search = '''',
                  modeFilter = ''all'', form = topic_defaults\<rparr>"

datatype topics_action =
    SetCreateOpen bool
  | SetDeleteTarget "string option"
  | SetDetailTopic "string option"
  | SetSearch string
  | SetModeFilter string
  | FormReset
  | FormName string
  | FormMode string
  | FormPartitions string
  | SubmitCreate
  | MutateDelete

text \<open>Setters and form updates; \<open>readNumber\<close> is \<open>valueAsNumber\<close> of the input.  The two mutation
  actions change no state by themselves.\<close>

fun topics_act :: "(string \<Rightarrow> js_number option) \<Rightarrow> topics_action \<Rightarrow> topics_page \<Rightarrow> topics_page" where
  "topics_act readNumber (SetCreateOpen b) s = s\<lparr>createOpen := b\<rparr>"
| "topics_act readNumber (SetDeleteTarget t) s = s\<lparr>deleteTarget := t\<rparr>"
| "topics_act readNumber (SetDetailTopic t) s = s\<lparr>detailTopic := t\<rparr>"
| "topics_act readNumber (SetSearch q) s = s\<lparr>search := q\<rparr>"
| "topics_act readNumber (SetModeFilter m) s = s\<lparr>modeFilter := m\<rparr>"
| "topics_act readNumber FormReset s = s\<lparr>form := topic_defaults\<rparr>"
| "topics_act readNumber (FormName n) s = s\<lparr>form := (form s)\<lparr>tf_name := n\<rparr>\<rparr>"
| "topics_act readNumber (FormMode m) s = s\<lparr>form := (form s)\<lparr>tf_mode := m\<rparr>\<rparr>"
| "topics_act readNumber (FormPartitions t) s = s\<lparr>form := (form s)\<lparr>tf_partitions := readNumber t\<rparr>\<rparr>"
| "topics_act readNumber SubmitCreate s = s"
| "topics_act readNumber MutateDelete s = s"

section \<open>Queries\<close>

definition topics_queryFn :: api_call where
  "topics_queryFn = getTopics 1000 0"

definition detail_queryFn :: "topics_page \<Rightarrow> api_call option" where
  "detail_queryFn s = (if truthy_str (detailTopic s) then Some (getTopicDetail (tpl (detailTopic s))) else None)"

definition topic_matches :: "topics_page \<Rightarrow> topics_env \<Rightarrow> TopicInfo \<Rightarrow> bool" where
  "topic_matches s e t \<longleftrightarrow>
     str_includes (toLowerCase (ti_name t)) (toLowerCase (debouncedSearch e)) \<and>
     (modeFilter s = ''all'' \<or> ti_mode t = modeFilter s)"

definition filtered :: "topics_page \<Rightarrow> topics_env \<Rightarrow> TopicInfo list" where
  "filtered s e = (case topics e of None \<Rightarrow> [] | Some ts \<Rightarrow> filter (topic_matches s e) ts)"

section \<open>Mutations\<close>

definition create_mutationFn :: "TopicFormValues \<Rightarrow> api_call" where
  "create_mutationFn d =
     createTopic (tf_name d) (tf_mode d) (case tf_partitions d of Some n \<Rightarrow> number_json n | None \<Rightarrow> JNull)"

text \<open>\<open>form.handleSubmit(createMutation.mutate)\<close>: the call is made only for values without issues.\<close>

definition create_submit :: "zod \<Rightarrow> topics_page \<Rightarrow> effect list" where
  "create_submit z s = (if topicSchema z (form s) = [] then [Call (create_mutationFn (form s))] else [])"

definition create_onSuccess :: "TopicFormValues \<Rightarrow> topics_page \<Rightarrow> topics_page \<times> effect list" where
  "create_onSuccess d s =
     (s\<lparr>createOpen := False, form := topic_defaults\<rparr>,
      [Toast ToastSuccess (''Topic \"'' @ tf_name d @ ''\" created''), Invalidate [''topics'']])"

definition create_onError :: "string option \<Rightarrow> topics_page \<Rightarrow> topics_page \<times> effect list" where
  "create_onError msg s = (s, [error_toast msg ''Failed to create topic''])"

definition delete_mutationFn :: "topics_page \<Rightarrow> api_call" where
  "delete_mutationFn closure = deleteTopic (tpl (deleteTarget closure))"

definition delete_onSuccess :: "topics_page \<Rightarrow> topics_page \<Rightarrow> topics_page \<times> effect list" where
  "delete_onSuccess closure s =
     (s\<lparr>deleteTarget := None\<rparr>,
      [Toast ToastSuccess (''Topic \"'' @ tpl (deleteTarget closure) @ ''\" deleted''), Invalidate [''topics'']])"

definition delete_onError :: "string option \<Rightarrow> topics_page \<Rightarrow> topics_page \<times> effect list" where
  "delete_onError msg s = (s, [error_toast msg ''Failed to delete topic''])"

text \<open>\<open>onOpenChange={() => setDeleteTarget(null)}\<close> and the confirm button.\<close>

definition close_delete :: "topics_page \<Rightarrow> topics_page" where
  "close_delete s = s\<lparr>deleteTarget := None\<rparr>"

definition confirm_delete_topic :: "(topics_page \<Rightarrow> topics_page \<Rightarrow> topics_page) \<Rightarrow> topics_page \<Rightarrow> topics_page \<times> effect list" where
  "confirm_delete_topic pick s =
     (let s' = close_delete s in (s', [Call (delete_mutationFn (pick s s'))]))"

interpretation topic_delete: confirm_delete deleteTarget close_delete deleteTopic confirm_delete_topic
  by unfold_locales (simp_all add: confirm_delete_topic_def close_delete_def delete_mutationFn_def Let_def)


section \<open>View\<close>

definition topics_loading :: "topics_action vnode" where
  "topics_loading = El TDiv []
     [El TSkeleton [] [],
      El TCard [] [El TCardContent [] (map (\<lambda>i. El TSkeleton [Key (show_nat i)] []) [1, 2, 3, 4, 5])]]"

definition field_error :: "topics_env \<Rightarrow> string \<Rightarrow> topics_action vnode list" where
  "field_error e f = (case map_of (formErrors e) f of Some m \<Rightarrow> [El TP [] [Txt m]] | None \<Rightarrow> [])"

definition create_dialog :: "topics_page \<Rightarrow> topics_env \<Rightarrow> topics_action vnode" where
  "create_dialog s e =
     El TDialog [Open (createOpen s), OnOpenChange (\<lambda>open. SetCreateOpen open # guard open [FormReset])]
      [El TDialogTrigger [] [El TButton [] [Txt ''Create Topic'']],
       El TDialogContent []
        [El TDialogHeader []
          [El TDialogTitle [] [Txt ''Create Topic''],
           El TDialogDescription [] [Txt ''Create a new ChimeraMQ topic'']],
         El TForm [OnSubmit [SubmitCreate]]
          [El TDiv []
            ([El TLabel [] [Txt ''Name''],
              El TInput [Value (tf_name (form s)), OnChange (\<lambda>v. [FormName v])] []]
             @ field_error e ''name''),
           El TDiv []
            [El TLabel [] [Txt ''Mode''],
             El TSelect [Value (tf_mode (form s)), OnChange (\<lambda>v. [FormMode v])]
              [El TSelectItem [Value ''unified''] [Txt ''Unified (stream + queue)''],
               El TSelectItem [Value ''stream''] [Txt ''Stream (offset-based)''],
               El TSelectItem [Value ''queue''] [Txt ''Queue (competing consumers)'']]],
           El TDiv []
            ([El TLabel [] [Txt ''Partitions''],
              El TInput [OnChange (\<lambda>v. [FormPartitions v])] []]
             @ field_error e ''partitions''),
           El TDialogFooter []
            [El TButton [Variant VOutline, OnClick [SetCreateOpen False]] [Txt ''Cancel''],
             El TButton [Disabled (\<not> formValid e \<or> createPending e)] [Txt ''Create'']]]]]"

definition topics_header :: "topics_page \<Rightarrow> topics_env \<Rightarrow> topics_action vnode" where
  "topics_header s e = El TDiv []
     [El TDiv [] [El TH1 [] [Txt ''Topics''], El TP [] [Txt ''Manage topics and partitions'']],
      create_dialog s e]"

definition topic_buttons :: "string \<Rightarrow> topics_action vnode" where
  "topic_buttons n = El TDiv []
     [El TButton [Variant VGhost, OnClick [SetDetailTopic (Some n)], AriaLabel (''View topic '' @ n)] [Txt ''View''],
      El TButton [Variant VGhost, OnClick [SetDeleteTarget (Some n)], AriaLabel (''Delete topic '' @ n)] [Txt ''Delete'']]"

definition topic_card :: "topics_env \<Rightarrow> TopicInfo \<Rightarrow> topics_action vnode" where
  "topic_card e t = El TDiv [Key (ti_name t)]
     [El TDiv [] [El TSpan [] [Txt (ti_name t)], El TBadge [Variant (modeColors (ti_mode t))] [Txt (ti_mode t)]],
      El TDiv [] [El TSpan [] [Txt (show_int (ti_partitions t)), Txt '' partition(s)''],
                  El TSpan [] [Txt (toDate e (ti_created_at t))]],
      topic_buttons (ti_name t)]"

definition topic_icon_buttons :: "string \<Rightarrow> topics_action vnode" where
  "topic_icon_buttons n = El TDiv []
     [El TButton [Variant VGhost, OnClick [SetDetailTopic (Some n)], AriaLabel (''View topic '' @ n)] [],
      El TButton [Variant VGhost, OnClick [SetDeleteTarget (Some n)], AriaLabel (''Delete topic '' @ n)] []]"

definition topic_row :: "topics_env \<Rightarrow> TopicInfo \<Rightarrow> topics_action vnode" where
  "topic_row e t = El TTableRow [Key (ti_name t)]
     [El TTableCell [] [Txt (ti_name t)],
      El TTableCell [] [El TBadge [Variant (modeColors (ti_mode t))] [Txt (ti_mode t)]],
      El TTableCell [] [Txt (show_int (ti_partitions t))],
      El TTableCell [] [Txt (toDate e (ti_created_at t))],
      El TTableCell [] [topic_icon_buttons (ti_name t)]]"

definition no_match :: "topics_page \<Rightarrow> topics_env \<Rightarrow> bool" where
  "no_match s e \<longleftrightarrow> filtered s e = [] \<and> (search s \<noteq> [] \<or> modeFilter s \<noteq> ''all'')"

definition topics_mobile :: "topics_page \<Rightarrow> topics_env \<Rightarrow> topics_action vnode" where
  "topics_mobile s e = El TDiv [Vis Mobile]
     (if no_match s e then [El TP [] [Txt ''No topics matching filters'']]
      else map (topic_card e) (filtered s e))"

definition topics_table :: "topics_page \<Rightarrow> topics_env \<Rightarrow> topics_action vnode" where
  "topics_table s e = El TTable [Vis Desktop]
     [El TTableHeader [] [El TTableRow [] (map (\<lambda>h. El TTableHead [] [Txt h])
        [''Name'', ''Mode'', ''Partitions'', ''Created'', ''Actions''])],
      El TTableBody []
        (if no_match s e then [El TTableRow [] [El TTableCell [] [Txt ''No topics matching filters'']]]
         else map (topic_row e) (filtered s e))]"

definition topics_empty :: "topics_action vnode" where
  "topics_empty = El TDiv []
     [El TH3 [] [Txt ''No topics yet''], El TP [] [Txt ''Create your first topic to get started''],
      El TButton [OnClick [SetCreateOpen True]] [Txt ''Create Topic'']]"

definition topics_card :: "topics_page \<Rightarrow> topics_env \<Rightarrow> topics_action vnode" where
  "topics_card s e = El TCard []
     [El TCardHeader []
       [El TDiv []
         [El TCardTitle [] [Txt (show_nat (case topics e of None \<Rightarrow> 0 | Some ts \<Rightarrow> length ts)), Txt '' Topics''],
          El TDiv []
           [El TInput [Value (search s), OnChange (\<lambda>v. [SetSearch v])] [],
            El TSelect [Value (modeFilter s), OnChange (\<lambda>v. [SetModeFilter v])]
             [El TSelectItem [Value ''all''] [Txt ''All''], El TSelectItem [Value ''unified''] [Txt ''Unified''],
              El TSelectItem [Value ''stream''] [Txt ''Stream''], El TSelectItem [Value ''queue''] [Txt ''Queue'']]]],
        El TCardDescription [] [Txt ''Filter and search topics'']],
      El TCardContent []
       (if topics e = Some [] then [topics_empty] else [topics_mobile s e, topics_table s e])]"

definition total_messages :: "TopicDetail \<Rightarrow> int" where
  "total_messages d = (case td_partitions_detail d of
     None \<Rightarrow> 0 | Some ps \<Rightarrow> foldl (\<lambda>sum p. sum + tp_high_watermark p) 0 ps)"

definition depth :: "TopicPartition \<Rightarrow> int" where
  "depth p = tp_high_watermark p - tp_log_start_offset p"

definition partition_list :: "TopicDetail \<Rightarrow> TopicPartition list" where
  "partition_list d = (case td_partitions_detail d of None \<Rightarrow> [] | Some ps \<Rightarrow> ps)"

definition partition_card :: "topics_env \<Rightarrow> TopicPartition \<Rightarrow> topics_action vnode" where
  "partition_card e p = El TDiv [Key (show_int (tp_id p))]
     [El TDiv [] [El TSpan [] [Txt ''Partition '', Txt (show_int (tp_id p))],
                  El TSpan [] [Txt ''Depth: '', Txt (toLocale e (depth p))]],
      El TDiv []
       [El TDiv [] [El TSpan [] [Txt ''High Watermark''], El TP [] [Txt (toLocale e (tp_high_watermark p))]],
        El TDiv [] [El TSpan [] [Txt ''Log Start''], El TP [] [Txt (toLocale e (tp_log_start_offset p))]]]]"

definition partition_row :: "topics_env \<Rightarrow> TopicPartition \<Rightarrow> topics_action vnode" where
  "partition_row e p = El TTableRow [Key (show_int (tp_id p))]
     [El TTableCell [] [Txt (show_int (tp_id p))],
      El TTableCell [] [Txt (toLocale e (tp_high_watermark p))],
      El TTableCell [] [Txt (toLocale e (tp_log_start_offset p))],
      El TTableCell [] [Txt (toLocale e (depth p))]]"

definition detail_body :: "topics_env \<Rightarrow> TopicDetail \<Rightarrow> topics_action vnode" where
  "detail_body e d = El TDiv []
     [El TDiv []
       [El TDiv [] [El TP [] [Txt ''Partitions''], El TP [] [Txt (show_int (ti_partitions d))]],
        El TDiv [] [El TP [] [Txt ''Created''],
                    El TP [] [Txt (if ti_created_at d \<noteq> [] then toDate e (ti_created_at d) else ''N/A'')]],
        El TDiv [] [El TP [] [Txt ''Total Messages''], El TP [] [Txt (show_int (total_messages d))]]],
      El TDiv [Vis Mobile] (map (partition_card e) (partition_list d)),
      El TTable [Vis Desktop]
       [El TTableHeader [] [El TTableRow [] (map (\<lambda>h. El TTableHead [] [Txt h])
          [''Partition'', ''High Watermark'', ''Log Start Offset'', ''Depth''])],
        El TTableBody [] (map (partition_row e) (partition_list d))]]"

definition detail_dialog :: "topics_page \<Rightarrow> topics_env \<Rightarrow> topics_action vnode" where
  "detail_dialog s e =
     El TDialog [Open (truthy_str (detailTopic s)), OnOpenChange (\<lambda>open. guard (\<not> open) [SetDetailTopic None])]
      [El TDialogContent []
        ([El TDialogHeader []
           [El TDialogTitle [] (case detailTopic s of Some n \<Rightarrow> [Txt n] | None \<Rightarrow> []),
            El TDialogDescription [] (case topicDetail e of None \<Rightarrow> []
              | Some d \<Rightarrow> [El TSpan [] [El TBadge [Variant (modeColors (ti_mode d))] [Txt (ti_mode d)],
                                       Txt (show_int (ti_partitions d)), Txt '' partition(s)'']])]]
         @ (case topicDetail e of None \<Rightarrow> [] | Some d \<Rightarrow> [detail_body e d])
         @ [El TDialogFooter [] [El TButton [Variant VOutline, OnClick [SetDetailTopic None]] [Txt ''Close'']]])]"

definition delete_dialog :: "topics_page \<Rightarrow> topics_action vnode" where
  "delete_dialog s =
     El TAlertDialog [Open (truthy_str (deleteTarget s)), OnOpenChange (\<lambda>_. [SetDeleteTarget None])]
      [El TAlertDialogContent []
        [El TAlertDialogHeader []
          [El TAlertDialogTitle [] [Txt ''Delete Topic''],
           El TAlertDialogDescription []
            [Txt ''Are you sure you want to delete \"'', Txt (case deleteTarget s of Some n \<Rightarrow> n | None \<Rightarrow> ''''),
             Txt ''\"? This action cannot be undone.'']],
         El TAlertDialogFooter []
          [El TAlertDialogCancel [] [Txt ''Cancel''],
           El TAlertDialogAction [OnClick [MutateDelete]] [Txt ''Delete'']]]]"

definition topics_view :: "topics_page \<Rightarrow> topics_env \<Rightarrow> topics_action vnode" where
  "topics_view s e =
     (if isLoading e then topics_loading
      else El TDiv [] [topics_header s e, topics_card s e, detail_dialog s e, delete_dialog s])"

section \<open>Lemmas\<close>

lemma filtered_subset: "t \<in> set (filtered s e) \<Longrightarrow> \<exists>ts. topics e = Some ts \<and> t \<in> set ts"
  by (cases "topics e") (auto simp: filtered_def)

interpretation topic_layout: two_layouts "topic_card e" "topic_row e" for e
  by unfold_locales (simp add: topic_card_def topic_row_def topic_buttons_def topic_icon_buttons_def)

lemma buttons_topic_row:
  "buttons_on sc (topic_row e t) =
     [(''View topic '' @ ti_name t, [SetDetailTopic (Some (ti_name t))]),
      (''Delete topic '' @ ti_name t, [SetDeleteTarget (Some (ti_name t))])]"
  by (simp add: topic_row_def topic_icon_buttons_def)

lemma buttons_field_error [simp]: "concat (map (buttons_on sc) (field_error e f)) = []"
  by (cases "map_of (formErrors e) f") (simp_all add: field_error_def)

lemma buttons_dialogs [simp]:
  "buttons_on sc (topics_header s e) = []" "buttons_on sc (delete_dialog s) = []"
  by (simp_all add: topics_header_def create_dialog_def delete_dialog_def comp_def)

lemma buttons_partition [simp]: "buttons_on sc (partition_row e p) = []" "buttons_on sc (partition_card e p) = []"
  by (simp_all add: partition_row_def partition_card_def)

lemma buttons_detail [simp]: "buttons_on sc (detail_dialog s e) = []"
  by (auto simp: detail_dialog_def detail_body_def comp_def split: option.splits)

text \<open>The labelled buttons of the page are those of the topics that pass the filter.\<close>

lemma buttons_topics_view:
  assumes "\<not> isLoading e"
  shows "buttons_on sc (topics_view s e) = concat (map (buttons_on sc \<circ> topic_row e) (filtered s e))"
proof -
  have "buttons_on sc (topics_card s e) = concat (map (buttons_on sc \<circ> topic_row e) (filtered s e))"
    by (cases sc) (auto simp: topics_card_def topics_empty_def topics_mobile_def topics_table_def comp_def
        filtered_def no_match_def topic_layout.card_row split: option.splits)
  with assms show ?thesis by (simp add: topics_view_def)
qed

lemma actions_field_error [simp]: "\<Union> (actions ` set (field_error e f)) = {}"
  by (cases "map_of (formErrors e) f") (simp_all add: field_error_def)

lemma target_row [simp]:
  "SetDeleteTarget (Some n) \<in> actions (topic_row e t) \<longleftrightarrow> n = ti_name t"
  "SetDeleteTarget (Some n) \<in> actions (topic_card e t) \<longleftrightarrow> n = ti_name t"
  by (auto simp: topic_row_def topic_card_def topic_icon_buttons_def topic_buttons_def)

lemma target_card:
  "SetDeleteTarget (Some n) \<in> actions (topics_card s e) \<longleftrightarrow> n \<in> ti_name ` set (filtered s e)"
proof (cases "topics e = Some []")
  case True
  then show ?thesis by (auto simp: topics_card_def topics_empty_def filtered_def)
next
  case False
  then show ?thesis by (auto simp: topics_card_def topics_mobile_def topics_table_def no_match_def)
qed

lemma target_elsewhere [simp]:
  "SetDeleteTarget (Some n) \<notin> actions (topics_header s e)"
  "SetDeleteTarget (Some n) \<notin> actions (detail_dialog s e)"
  "SetDeleteTarget (Some n) \<notin> actions (delete_dialog s)"
  by (auto simp: topics_header_def create_dialog_def detail_dialog_def detail_body_def delete_dialog_def
      partition_row_def partition_card_def guard_def field_error_def split: option.splits if_splits)

section \<open>Properties\<close>

definition topics_env_ex :: topics_env where
  "topics_env_ex =
     \<lparr>topics = Some [\<lparr>ti_name = ''Orders'', ti_mode = ''queue'', ti_partitions = 3, ti_created_at = ''''\<rparr>,
                     \<lparr>ti_name = ''logs'', ti_mode = ''stream'', ti_partitions = 1, ti_created_at = ''''\<rparr>],
      isLoading = False, topicDetail = None, debouncedSearch = ''ord'', createPending = False,
      formValid = True, formErrors = [], toDate = id, toLocale = show_int\<rparr>"

definition topics_form_ex :: topics_page where
  "topics_form_ex = topics_init\<lparr>form := topic_defaults\<lparr>tf_name := ''a.b''\<rparr>\<rparr>"

text \<open>The topic list keeps the server's order and shows exactly the topics whose name contains the
  debounced search text, compared without case, and whose mode passes the mode filter.\<close>

theorem topics_filter_exact:
  assumes "topics e = Some ts"
  shows "subseq (filtered s e) ts \<and>
    (t \<in> set (filtered s e) \<longleftrightarrow> t \<in> set ts \<and>
      (\<exists>ps ss. toLowerCase (ti_name t) = ps @ toLowerCase (debouncedSearch e) @ ss) \<and>
      (modeFilter s = ''all'' \<or> ti_mode t = modeFilter s))"
  using assms by (auto simp: filtered_def topic_matches_def str_includes_iff)

theorem topics_filter_exact_witness:
  "topics topics_env_ex = Some (the (topics topics_env_ex)) \<and>
   subseq (filtered topics_init topics_env_ex) (the (topics topics_env_ex)) \<and>
   length (filtered topics_init topics_env_ex) = 1"
proof -
  have t: "topics topics_env_ex = Some (the (topics topics_env_ex))" by (simp add: topics_env_ex_def)
  have l: "length (filtered topics_init topics_env_ex) = 1" by code_simp
  show ?thesis using topics_filter_exact [OF t] l t by blast
qed

text \<open>The phone layout and the table layout offer the same labelled buttons, in the same order,
  with the same handlers, in every state of the page.\<close>

lemma topics_layouts: "buttons_on Mobile (topics_view s e) = buttons_on Desktop (topics_view s e)"
proof (cases "isLoading e")
  case True
  then show ?thesis by (simp add: topics_view_def topics_loading_def comp_def)
next
  case False
  then show ?thesis
    by (simp add: buttons_topics_view topic_layout.any_screen [of Mobile _ _ Desktop] comp_def)
qed

text \<open>The delete dialog can be opened only for a topic that is currently listed: of all handlers
  of the page, those that set a delete target set the name of a topic that passes the filter, and
  every such topic has one.\<close>

theorem topics_delete_only_listed:
  assumes "\<not> isLoading e"
  shows "SetDeleteTarget (Some n) \<in> actions (topics_view s e) \<longleftrightarrow> n \<in> ti_name ` set (filtered s e)"
  using assms by (simp add: topics_view_def target_card)

theorem topics_delete_only_listed_witness:
  "SetDeleteTarget (Some ''Orders'') \<in> actions (topics_view topics_init topics_env_ex) \<and>
   SetDeleteTarget (Some ''logs'') \<notin> actions (topics_view topics_init topics_env_ex)"
proof -
  have load: "\<not> isLoading topics_env_ex" by (simp add: topics_env_ex_def)
  have "map ti_name (filtered topics_init topics_env_ex) = [''Orders'']" by code_simp
  then have "ti_name ` set (filtered topics_init topics_env_ex) = {''Orders''}"
    by (metis list.simps(15) list.set(1) set_map)
  then show ?thesis by (simp add: topics_delete_only_listed [OF load])
qed

text \<open>Whatever the form holds, a create request is sent only for a name of 1 to 128 characters of
  the allowed class, a mode of the three offered ones and a number of partitions between 1 and
  256, and its body is the JSON object of those values.\<close>

theorem topics_create_valid:
  assumes "zod_ok z" and "Call c \<in> set (create_submit z s)"
  shows "\<exists>n. tf_partitions (form s) = Some n \<and> 1 \<le> num_val n \<and> num_val n \<le> 256 \<and>
    name_regex (tf_name (form s)) \<and> length (tf_name (form s)) \<le> 128 \<and>
    tf_mode (form s) \<in> {''unified'', ''stream'', ''queue''} \<and>
    c = createTopic (tf_name (form s)) (tf_mode (form s)) (number_json n)"
  using assms zod_okD [OF assms(1)]
  by (auto simp: create_submit_def topicSchema_def topic_name_checks_def create_mutationFn_def split: if_splits)

theorem topics_create_valid_witness:
  "Call (createTopic ''a.b'' ''unified'' (JNum 8)) \<in> set (create_submit zod_doc topics_form_ex) \<and>
   name_regex ''a.b'' \<and> length ''a.b'' \<le> 128"
proof -
  have c: "Call (createTopic ''a.b'' ''unified'' (JNum 8)) \<in> set (create_submit zod_doc topics_form_ex)"
    by code_simp
  have "tf_name (form topics_form_ex) = ''a.b''" by code_simp
  with topics_create_valid [OF zod_doc_ok c] c show ?thesis by auto
qed

end
