(* ===== verification/Hot_Log.thy ===== *)
theory Hot_Log
  imports Bytes
begin

text \<open>
  \<^verbatim>\<open>internal/storage/hot\<close>: the log of a partition, a chain of segment files with a sparse index each.  A
  file is the list of its bytes; whether an operation of the file system succeeds, and how much of a
  failed write reaches the file, are arguments.  Offsets and sizes are natural numbers, the \<open>uint64\<close>
  and \<open>int64\<close> of the source being out of reach of any file; the positions in the index have the 32
  bits of the source and wrap around.  The active segment is the last of the chain.
\<close>

section \<open>Files\<close>

definition file_write :: "bytes \<Rightarrow> nat \<Rightarrow> bytes \<Rightarrow> bytes" where
  "file_write file pos src =
     take pos file @ replicate (pos - length file) 0 @ src @ drop (pos + length src) file"

text \<open>\<open>ReadAt\<close> with a buffer of \<open>n\<close> bytes; less is an error.\<close>

definition file_read :: "bytes \<Rightarrow> nat \<Rightarrow> nat \<Rightarrow> bytes option" where
  "file_read file pos n = (if pos + n \<le> length file then Some (take n (drop pos file)) else None)"

text \<open>\<open>WriteAt\<close>: all of it, or an error after some of it.\<close>

datatype write_result = Wrote | Failed nat

section \<open>Segments\<close>

datatype log_error = ErrSegmentFull | ErrSegmentReadOnly | ErrOffsetTooOld | ErrBadMagic | ErrNotFound | ErrRead | ErrIO

record IndexEntry =
  ie_Offset :: nat
  ie_Position :: "32 word"

record Segment =
  seg_file :: bytes
  seg_size :: nat
  seg_maxSize :: nat
  seg_baseOff :: nat
  seg_nextOff :: nat
  seg_index :: "IndexEntry list"
  seg_frozen :: bool

definition SegmentHeaderLen :: nat where "SegmentHeaderLen = 32"
definition SegmentMagic :: "32 word" where "SegmentMagic = 0x43534731"
definition SegmentVersion :: "32 word" where "SegmentVersion = 1"
definition index_interval :: nat where "index_interval = 256"

definition segment_header :: "nat \<Rightarrow> 64 word \<Rightarrow> bytes" where
  "segment_header baseOff created =
     put_be SegmentMagic @ put_be SegmentVersion @ put_be (word_of_nat baseOff :: 64 word) @ put_be created @ replicate 8 0"

definition be32_at :: "bytes \<Rightarrow> nat \<Rightarrow> nat option" where
  "be32_at file pos = map_option (\<lambda>b. unat (be_get b :: 32 word)) (file_read file pos 4)"

text \<open>\<open>rebuildIndex\<close> counts the records of a file by their length prefixes.\<close>

function rebuild :: "bytes \<Rightarrow> nat \<Rightarrow> nat \<Rightarrow> nat \<Rightarrow> IndexEntry list \<Rightarrow> nat \<times> nat \<times> IndexEntry list" where
  "rebuild file base pos count entries = (case be32_at file pos of
     None \<Rightarrow> (count, pos, entries)
   | Some dataLen \<Rightarrow> rebuild file base (pos + 4 + dataLen) (Suc count)
       (if count mod index_interval = 0 then entries @ [\<lparr>ie_Offset = base + count, ie_Position = word_of_nat pos\<rparr>] else entries))"
  by pat_completeness auto
termination
  by (relation "measure (\<lambda>(file, base, pos, count, entries). length file - pos)")
     (auto simp: be32_at_def file_read_def split: if_splits)

declare rebuild.simps [simp del]

definition rebuildIndex :: "Segment \<Rightarrow> Segment" where
  "rebuildIndex s = (let (count, pos, entries) = rebuild (seg_file s) (seg_baseOff s) SegmentHeaderLen 0 []
     in s\<lparr>seg_index := entries, seg_nextOff := seg_baseOff s + count, seg_size := pos\<rparr>)"

definition new_segment :: "bytes \<Rightarrow> nat \<Rightarrow> nat \<Rightarrow> Segment" where
  "new_segment file baseOffset maxSize = \<lparr>seg_file = file, seg_size = length file, seg_maxSize = maxSize,
     seg_baseOff = baseOffset, seg_nextOff = baseOffset, seg_index = [], seg_frozen = False\<rparr>"

text \<open>\<open>readHeader\<close>: the base offset comes from the header.\<close>

definition readHeader :: "Segment \<Rightarrow> log_error + Segment" where
  "readHeader s = (case file_read (seg_file s) 0 SegmentHeaderLen of
     None \<Rightarrow> Inl ErrIO
   | Some header \<Rightarrow>
       if (be_get (take 4 header) :: 32 word) \<noteq> SegmentMagic then Inl ErrBadMagic
       else let base = unat (be_get (take 8 (drop 8 header)) :: 64 word)
         in Inr (s\<lparr>seg_baseOff := base, seg_nextOff := base\<rparr>))"

text \<open>\<open>OpenSegment\<close> of the file with the given contents; \<open>created\<close> is the time of the call and
  \<open>wr\<close> the outcome of writing the header.\<close>

definition OpenSegment :: "write_result \<Rightarrow> 64 word \<Rightarrow> bytes \<Rightarrow> nat \<Rightarrow> nat \<Rightarrow> log_error + Segment" where
  "OpenSegment wr created file baseOffset maxSize =
     (let s = new_segment file baseOffset maxSize in
      if length file = 0 then
        (case wr of
           Wrote \<Rightarrow> Inr (s\<lparr>seg_file := file_write file 0 (segment_header baseOffset created), seg_size := SegmentHeaderLen\<rparr>)
         | Failed _ \<Rightarrow> Inl ErrIO)
      else (case readHeader s of Inl err \<Rightarrow> Inl err | Inr s \<Rightarrow> Inr (rebuildIndex s)))"

definition record_bytes :: "bytes \<Rightarrow> bytes" where
  "record_bytes data = put_be (word_of_nat (length data) :: 32 word) @ data"

definition index_Add :: "nat \<Rightarrow> nat \<Rightarrow> Segment \<Rightarrow> Segment" where
  "index_Add offset position s =
     s\<lparr>seg_index := seg_index s @ [\<lparr>ie_Offset = offset, ie_Position = word_of_nat position\<rparr>]\<rparr>"

definition seg_Append :: "write_result \<Rightarrow> bytes \<Rightarrow> Segment \<Rightarrow> (log_error + nat) \<times> Segment" where
  "seg_Append wr data s =
     (if seg_frozen s then (Inl ErrSegmentReadOnly, s)
      else if seg_size s + (4 + length data) > seg_maxSize s then (Inl ErrSegmentFull, s)
      else let position = seg_size s; offset = seg_nextOff s in
        case wr of
          Failed k \<Rightarrow> (Inl ErrIO, s\<lparr>seg_file := file_write (seg_file s) position (take k (record_bytes data))\<rparr>)
        | Wrote \<Rightarrow>
            let s = s\<lparr>seg_file := file_write (seg_file s) position (record_bytes data),
                      seg_size := seg_size s + (4 + length data), seg_nextOff := seg_nextOff s + 1\<rparr>
            in (Inr offset,
                if (offset - seg_baseOff s) mod index_interval = 0 then index_Add offset position s else s))"

definition ReadAtSequential :: "Segment \<Rightarrow> nat \<Rightarrow> (bytes \<times> nat) option" where
  "ReadAtSequential s position =
     (if position < SegmentHeaderLen \<or> position \<ge> seg_size s then None
      else (case be32_at (seg_file s) position of
          None \<Rightarrow> None
        | Some dataLen \<Rightarrow>
            let endPos = position + 4 + dataLen in
            if endPos > seg_size s then None
            else map_option (\<lambda>data. (data, endPos)) (file_read (seg_file s) (position + 4) dataLen)))"

section \<open>Searching\<close>

text \<open>The loop that the index and the chain of segments both use; \<open>probe\<close> says where the target lies.\<close>

datatype side = Here | After | Before

function bsearch :: "('a \<Rightarrow> side) \<Rightarrow> 'a list \<Rightarrow> int \<Rightarrow> int \<Rightarrow> nat option" where
  "bsearch probe xs lo hi =
     (if lo \<le> hi then
        let mid = (lo + hi) div 2 in
        case probe (xs ! nat mid) of
          Here \<Rightarrow> Some (nat mid)
        | After \<Rightarrow> bsearch probe xs (mid + 1) hi
        | Before \<Rightarrow> bsearch probe xs lo (mid - 1)
      else None)"
  by pat_completeness auto
termination by (relation "measure (\<lambda>(probe, xs, lo, hi). nat (hi - lo + 1))") auto

declare bsearch.simps [simp del]

definition index_probe :: "nat \<Rightarrow> IndexEntry \<Rightarrow> side" where
  "index_probe target e = (if ie_Offset e = target then Here else if ie_Offset e < target then After else Before)"

definition index_Search :: "IndexEntry list \<Rightarrow> nat \<Rightarrow> 32 word option" where
  "index_Search entries target =
     map_option (\<lambda>i. ie_Position (entries ! i)) (bsearch (index_probe target) entries 0 (int (length entries) - 1))"

text \<open>The last entry at or before the target; with entries but none such the scan starts at position 0.\<close>

definition nearest :: "Segment \<Rightarrow> nat \<Rightarrow> nat \<times> 32 word" where
  "nearest s target =
     (if seg_index s = [] then (seg_baseOff s, word_of_nat SegmentHeaderLen)
      else (case List.find (\<lambda>e. ie_Offset e \<le> target) (rev (seg_index s)) of
          Some e \<Rightarrow> (ie_Offset e, ie_Position e)
        | None \<Rightarrow> (seg_baseOff s, 0)))"

fun skip_records :: "bytes \<Rightarrow> nat \<Rightarrow> 32 word \<Rightarrow> 32 word option" where
  "skip_records file 0 pos = Some pos"
| "skip_records file (Suc n) pos = (case be32_at file (unat pos) of
     None \<Rightarrow> None | Some dataLen \<Rightarrow> skip_records file n (pos + (4 + word_of_nat dataLen)))"

definition FindPosition :: "Segment \<Rightarrow> nat \<Rightarrow> log_error + nat" where
  "FindPosition s target =
     (if target < seg_baseOff s then Inl ErrOffsetTooOld
      else (case index_Search (seg_index s) target of
          Some pos \<Rightarrow> Inr (unat pos)
        | None \<Rightarrow>
            let (currentOffset, pos) = nearest s target in
            (case skip_records (seg_file s) (target - currentOffset) pos of
               None \<Rightarrow> Inl ErrRead | Some pos \<Rightarrow> Inr (unat pos))))"

section \<open>Partitions\<close>

record Partition =
  part_segments :: "Segment list"
  part_highWater :: nat
  part_logStart :: nat
  part_maxSegSize :: nat

definition seg_probe :: "nat \<Rightarrow> Segment \<Rightarrow> side" where
  "seg_probe offset s =
     (if offset \<ge> seg_baseOff s \<and> offset < seg_nextOff s then Here
      else if offset < seg_baseOff s then Before else After)"

definition findSegment :: "Partition \<Rightarrow> nat \<Rightarrow> nat option" where
  "findSegment p offset = bsearch (seg_probe offset) (part_segments p) 0 (int (length (part_segments p)) - 1)"

text \<open>What the file system does during one \<open>Append\<close>.\<close>

record append_io =
  io_first :: write_result
  io_sync :: bool
  io_index :: bool
  io_header :: write_result
  io_second :: write_result
  io_created :: "64 word"

definition set_active :: "Segment \<Rightarrow> Partition \<Rightarrow> Partition" where
  "set_active s p = p\<lparr>part_segments := butlast (part_segments p) @ [s]\<rparr>"

definition part_Append :: "append_io \<Rightarrow> bytes \<Rightarrow> Partition \<Rightarrow> (log_error + nat) \<times> Partition" where
  "part_Append io data p =
     (let (res, s) = seg_Append (io_first io) data (last (part_segments p)); p = set_active s p in
      case res of
        Inr offset \<Rightarrow> (Inr offset, p\<lparr>part_highWater := offset\<rparr>)
      | Inl err \<Rightarrow>
          if err \<noteq> ErrSegmentFull then (Inl err, p)
          else let s = s\<lparr>seg_frozen := True\<rparr>; p = set_active s p in
            if \<not> io_sync io \<or> \<not> io_index io then (Inl ErrIO, p)
            else (case OpenSegment (io_header io) (io_created io) [] (seg_nextOff s) (part_maxSegSize p) of
                Inl err \<Rightarrow> (Inl err, p)
              | Inr s \<Rightarrow>
                  let p = p\<lparr>part_segments := part_segments p @ [s]\<rparr>; (res, s) = seg_Append (io_second io) data s;
                      p = set_active s p
                  in (case res of
                        Inl err \<Rightarrow> (Inl err, p)
                      | Inr offset \<Rightarrow> (Inr offset, p\<lparr>part_highWater := offset\<rparr>))))"

text \<open>The sequential scan within a segment: the data read, and the offset reached.\<close>

function scan :: "Segment \<Rightarrow> nat \<Rightarrow> nat \<Rightarrow> nat \<Rightarrow> nat \<Rightarrow> bytes list \<Rightarrow> bytes list \<times> nat" where
  "scan s endOffset maxMessages pos offset results =
     (if offset \<le> endOffset \<and> length results < maxMessages \<and> offset < seg_nextOff s then
        (case ReadAtSequential s pos of
           None \<Rightarrow> (results, offset)
         | Some (data, nextPos) \<Rightarrow> scan s endOffset maxMessages nextPos (offset + 1) (results @ [data]))
      else (results, offset))"
  by pat_completeness auto
termination by (relation "measure (\<lambda>(s, endOffset, maxMessages, pos, offset, results). Suc endOffset - offset)") auto

declare scan.simps [simp del]

lemma scan_offset_le: "scan s e m pos offset rs = (rs', offset') \<Longrightarrow> offset \<le> offset'"
proof (induction s e m pos offset rs arbitrary: rs' offset' rule: scan.induct)
  case (1 s e m pos offset rs)
  show ?case
  proof (cases "offset \<le> e \<and> length rs < m \<and> offset < seg_nextOff s \<and> ReadAtSequential s pos \<noteq> None")
    case True
    then obtain d n where "ReadAtSequential s pos = Some (d, n)" by auto
    with True 1 show ?thesis
      by (subst (asm) (2) scan.simps) force
  next
    case False
    with 1(2) show ?thesis by (subst (asm) scan.simps) (auto split: if_splits option.splits)
  qed
qed

text \<open>The outer loop goes from segment to segment and stops when it finds the same one twice.\<close>

function read_segments :: "Partition \<Rightarrow> nat \<Rightarrow> nat \<Rightarrow> nat \<Rightarrow> nat option \<Rightarrow> bytes list \<Rightarrow> bytes list" where
  "read_segments p endOffset maxMessages offset lastSeg results =
     (if offset \<le> endOffset \<and> length results < maxMessages then
        (case findSegment p offset of
           None \<Rightarrow> results
         | Some i \<Rightarrow>
             if Some i = lastSeg then results
             else let s = part_segments p ! i in
               case FindPosition s offset of
                 Inl _ \<Rightarrow> results
               | Inr pos \<Rightarrow>
                   let (results, offset) = scan s endOffset maxMessages pos offset results
                   in read_segments p endOffset maxMessages offset (Some i) results)
      else results)"
  by pat_completeness auto
termination
proof (relation "measure (\<lambda>(p, endOffset, maxMessages, offset, lastSeg, results).
    2 * (Suc endOffset - offset) + (if findSegment p offset = lastSeg then 0 else 1))", goal_cases)
  case 1
  show ?case by simp
next
  case (2 p e m offset lastSeg results i s pos x results' offset')
  then have "offset \<le> offset'" by (metis scan_offset_le)
  with 2 show ?case by (cases "offset = offset'") auto
qed

declare read_segments.simps [simp del]

definition ReadRange :: "Partition \<Rightarrow> nat \<Rightarrow> nat \<Rightarrow> nat \<Rightarrow> bytes list" where
  "ReadRange p startOffset endOffset maxMessages = read_segments p endOffset maxMessages startOffset None []"

text \<open>\<open>AdvanceLogStart\<close> removes leading segments; the count of removals comes first.\<close>

fun drop_leading :: "nat \<Rightarrow> Segment list \<Rightarrow> nat \<times> Segment list" where
  "drop_leading target (s # t # ss) =
     (if seg_nextOff s \<le> target then (let (n, rest) = drop_leading target (t # ss) in (Suc n, rest)) else (0, s # t # ss))"
| "drop_leading target ss = (0, ss)"

definition AdvanceLogStart :: "nat \<Rightarrow> Partition \<Rightarrow> nat \<times> Partition" where
  "AdvanceLogStart target p = (let (removed, ss) = drop_leading target (part_segments p); p = p\<lparr>part_segments := ss\<rparr>
     in (removed, if ss \<noteq> [] then p\<lparr>part_logStart := seg_baseOff (hd ss)\<rparr> else p))"

definition LogStartOffset :: "Partition \<Rightarrow> nat" where
  "LogStartOffset p = (case part_segments p of [] \<Rightarrow> 0 | s # _ \<Rightarrow> seg_baseOff s)"

text \<open>\<open>OpenPartition\<close> on the files of a directory in the order of their names, which contain the base
  offset in twenty digits.\<close>

fun open_all :: "nat \<Rightarrow> (nat \<times> bytes) list \<Rightarrow> log_error + Segment list" where
  "open_all maxSize [] = Inr []"
| "open_all maxSize ((base, file) # files) = (case OpenSegment Wrote 0 file base maxSize of
     Inl err \<Rightarrow> Inl err
   | Inr s \<Rightarrow> (case open_all maxSize files of Inl err \<Rightarrow> Inl err | Inr ss \<Rightarrow> Inr (s # ss)))"

definition OpenPartition :: "write_result \<Rightarrow> 64 word \<Rightarrow> nat \<Rightarrow> (nat \<times> bytes) list \<Rightarrow> log_error + Partition" where
  "OpenPartition wr created maxSegSize files = (case open_all maxSegSize files of
     Inl err \<Rightarrow> Inl err
   | Inr segs \<Rightarrow>
       (case (if segs = [] then map_sum id (\<lambda>s. [s]) (OpenSegment wr created [] 0 maxSegSize) else Inr segs) of
          Inl err \<Rightarrow> Inl err
        | Inr segs \<Rightarrow> Inr \<lparr>part_segments = segs,
            part_highWater = (if seg_nextOff (last segs) > 0 then seg_nextOff (last segs) - 1 else 0),
            part_logStart = 0, part_maxSegSize = maxSegSize\<rparr>))"

section \<open>The log that a segment holds\<close>

definition log_bytes :: "bytes list \<Rightarrow> bytes" where
  "log_bytes rs = concat (map record_bytes rs)"

text \<open>Where record \<open>i\<close> starts.\<close>

definition pos_of :: "bytes list \<Rightarrow> nat \<Rightarrow> nat" where
  "pos_of rs i = 32 + length (log_bytes (take i rs))"

definition index_entry :: "nat \<Rightarrow> bytes list \<Rightarrow> nat \<Rightarrow> IndexEntry" where
  "index_entry base rs i = \<lparr>ie_Offset = base + i, ie_Position = word_of_nat (pos_of rs i)\<rparr>"

definition index_of :: "nat \<Rightarrow> bytes list \<Rightarrow> IndexEntry list" where
  "index_of base rs = map (index_entry base rs) (filter (\<lambda>i. i mod index_interval = 0) [0..<length rs])"

definition log_file :: "nat \<Rightarrow> bytes list \<Rightarrow> bytes \<Rightarrow> bool" where
  "log_file base rs file \<longleftrightarrow> (\<exists>created. file = segment_header base created @ log_bytes rs)"

definition seg_holds :: "Segment \<Rightarrow> bytes list \<Rightarrow> bool" where
  "seg_holds s rs \<longleftrightarrow>
     log_file (seg_baseOff s) rs (take (seg_size s) (seg_file s)) \<and>
     seg_size s = pos_of rs (length rs) \<and> seg_size s \<le> length (seg_file s) \<and>
     seg_nextOff s = seg_baseOff s + length rs \<and> seg_index s = index_of (seg_baseOff s) rs \<and>
     seg_size s \<le> 4294967296 \<and> seg_maxSize s \<le> 4294967296"

subsection \<open>Files and positions\<close>

lemma length_segment_header [simp]: "length (segment_header base created) = 32"
  by (simp add: segment_header_def)

lemma length_record_bytes [simp]: "length (record_bytes d) = 4 + length d"
  by (simp add: record_bytes_def)

lemma log_bytes_simps [simp]: "log_bytes [] = []" "log_bytes (r # rs) = record_bytes r @ log_bytes rs"
  "log_bytes (rs @ rs') = log_bytes rs @ log_bytes rs'"
  by (simp_all add: log_bytes_def)

lemma pos_of_0 [simp]: "pos_of rs 0 = 32"
  by (simp add: pos_of_def)

lemma pos_of_Suc: "i < length rs \<Longrightarrow> pos_of rs (Suc i) = pos_of rs i + 4 + length (rs ! i)"
  by (simp add: pos_of_def take_Suc_conv_app_nth)

lemma pos_of_append: "i \<le> length rs \<Longrightarrow> pos_of (rs @ rs') i = pos_of rs i"
  by (simp add: pos_of_def)

lemma pos_of_mono: "i \<le> j \<Longrightarrow> pos_of rs i \<le> pos_of rs j"
proof -
  assume "i \<le> j"
  then have "take j rs = take i rs @ take (j - i) (drop i rs)" by (metis le_add_diff_inverse take_add)
  then show ?thesis by (simp add: pos_of_def)
qed

lemma file_read_take: "pos + n \<le> k \<Longrightarrow> k \<le> length file \<Longrightarrow> file_read file pos n = file_read (take k file) pos n"
  by (simp add: file_read_def drop_take)

lemma file_read_mid: "length pre = pos \<Longrightarrow> length xs = n \<Longrightarrow> file_read (pre @ xs @ post) pos n = Some xs"
  by (simp add: file_read_def)

lemma record_in_file:
  assumes "seg_holds s rs" and "i < length rs"
  shows "be32_at (seg_file s) (pos_of rs i) = Some (length (rs ! i))"
    and "file_read (seg_file s) (pos_of rs i + 4) (length (rs ! i)) = Some (rs ! i)"
    and "pos_of rs (Suc i) \<le> seg_size s"
proof -
  obtain created where t: "take (seg_size s) (seg_file s) = segment_header (seg_baseOff s) created @ log_bytes rs"
    and size: "seg_size s = pos_of rs (length rs)" "seg_size s \<le> length (seg_file s)" "seg_size s \<le> 4294967296"
    using assms(1) by (auto simp: seg_holds_def log_file_def)
  have le: "pos_of rs (Suc i) \<le> seg_size s" unfolding size(1) using assms(2) by (intro pos_of_mono) simp
  have len: "length (rs ! i) < 4294967296" using le size(3) pos_of_Suc [OF assms(2)] pos_of_mono [of 0 i rs] by simp
  define pre where "pre = segment_header (seg_baseOff s) created @ log_bytes (take i rs)"
  have split: "take (seg_size s) (seg_file s) =
      pre @ put_be (word_of_nat (length (rs ! i)) :: 32 word) @ (rs ! i @ log_bytes (drop (Suc i) rs))"
    using id_take_nth_drop [OF assms(2)] t by (simp_all add: pre_def record_bytes_def flip: log_bytes_simps(3))
      (metis append.assoc log_bytes_simps(2,3) record_bytes_def)+
  have pre: "length pre = pos_of rs i" by (simp add: pre_def pos_of_def)
  have bound: "pos_of rs i + 4 + length (rs ! i) \<le> seg_size s" using le pos_of_Suc [OF assms(2)] by simp
  have "file_read (seg_file s) (pos_of rs i) 4 = Some (put_be (word_of_nat (length (rs ! i)) :: 32 word))"
    using bound size(2) by (subst file_read_take [of _ _ "seg_size s"]) (simp_all add: split file_read_mid pre)
  then show "be32_at (seg_file s) (pos_of rs i) = Some (length (rs ! i))"
    using len by (simp add: be32_at_def be_get_put_be unat_of_nat)
  show "file_read (seg_file s) (pos_of rs i + 4) (length (rs ! i)) = Some (rs ! i)"
    using bound size(2) by (subst file_read_take [of _ _ "seg_size s"]) (simp_all add: split file_read_def pre)
  show "pos_of rs (Suc i) \<le> seg_size s" by (rule le)
qed

lemma ReadAtSequential_holds:
  assumes "seg_holds s rs" and "i < length rs"
  shows "ReadAtSequential s (pos_of rs i) = Some (rs ! i, pos_of rs (Suc i))"
proof -
  have "32 \<le> pos_of rs i" by (simp add: pos_of_def)
  then show ?thesis
    using record_in_file [OF assms] pos_of_Suc [OF assms(2)]
    by (auto simp: ReadAtSequential_def SegmentHeaderLen_def)
qed


subsection \<open>Searching\<close>

definition probes_sorted :: "('a \<Rightarrow> side) \<Rightarrow> 'a list \<Rightarrow> bool" where
  "probes_sorted probe xs \<longleftrightarrow> (\<forall>j < length xs. \<forall>i < j. probe (xs ! i) \<noteq> After \<longrightarrow> probe (xs ! j) = Before)"

lemma bsearch_iff:
  "probes_sorted probe xs \<Longrightarrow> 0 \<le> lo \<Longrightarrow> hi < int (length xs) \<Longrightarrow>
   bsearch probe xs lo hi = Some i \<longleftrightarrow> lo \<le> int i \<and> int i \<le> hi \<and> probe (xs ! i) = Here"
proof (induction probe xs lo hi rule: bsearch.induct)
  case (1 probe xs lo hi)
  show ?case
  proof (cases "lo \<le> hi")
    case False
    then show ?thesis by (subst bsearch.simps) auto
  next
    case True
    define mid where "mid = (lo + hi) div 2"
    have mid: "lo \<le> mid" "mid \<le> hi" using True by (auto simp: mid_def)
    then have "nat mid < length xs" using 1(4,5) by linarith
    have right: "i = nat mid \<or> int i < mid" if "probe (xs ! nat mid) \<noteq> After" "probe (xs ! i) = Here" "int i \<le> hi"
    proof (rule ccontr)
      assume "\<not> ?thesis"
      then have "nat mid < i" "i < length xs" using mid 1(4,5) that(3) by linarith+
      with that 1(3) show False by (auto simp: probes_sorted_def)
    qed
    have left: "mid < int i" if "probe (xs ! nat mid) = After" "probe (xs ! i) = Here"
    proof (rule ccontr)
      assume "\<not> ?thesis"
      moreover from that have "i \<noteq> nat mid" by auto
      ultimately have "i < nat mid" using mid 1(4) by linarith
      with that 1(3) \<open>nat mid < length xs\<close> show False by (auto simp: probes_sorted_def)
    qed
    note IH = 1(1) [OF True mid_def _ 1(3)] 1(2) [OF True mid_def _ 1(3)]
    show ?thesis
    proof (cases "probe (xs ! nat mid)")
      case Here
      have "i = nat mid" if "probe (xs ! i) = Here" "int i \<le> hi"
        using right [OF _ that] Here that 1(3) \<open>nat mid < length xs\<close> by (force simp: probes_sorted_def)
      then show ?thesis using True Here mid 1(4) by (subst bsearch.simps) (auto simp: mid_def [symmetric])
    next
      case After
      with IH(1) mid 1(4,5) left show ?thesis using True
        by (subst bsearch.simps) (auto simp: mid_def [symmetric])
    next
      case Before
      have "int i \<noteq> mid" if "probe (xs ! i) = Here" using that Before by auto
      with Before IH(2) mid 1(4,5) right show ?thesis using True
        by (subst bsearch.simps) (force simp: mid_def [symmetric])
    qed
  qed
qed

lemma bsearch_all:
  "probes_sorted probe xs \<Longrightarrow>
   bsearch probe xs 0 (int (length xs) - 1) = Some i \<longleftrightarrow> i < length xs \<and> probe (xs ! i) = Here"
  by (auto simp: bsearch_iff)

lemma seg_holdsD:
  assumes "seg_holds s rs"
  shows "seg_nextOff s = seg_baseOff s + length rs" and "seg_index s = index_of (seg_baseOff s) rs"
    and "seg_size s = pos_of rs (length rs)" and "pos_of rs (length rs) \<le> 4294967296"
  using assms by (auto simp: seg_holds_def)

lemma unat_pos_of:
  assumes "seg_holds s rs" and "i < length rs"
  shows "unat (word_of_nat (pos_of rs i) :: 32 word) = pos_of rs i"
proof -
  have "pos_of rs (Suc i) \<le> pos_of rs (length rs)" using assms(2) by (intro pos_of_mono) simp
  then show ?thesis using pos_of_Suc [OF assms(2)] seg_holdsD(4) [OF assms(1)] by (simp add: unat_of_nat)
qed

text \<open>The index is searched correctly.\<close>

lemma index_of_nth:
  assumes "j < length (index_of base rs)"
  obtains i where "index_of base rs ! j = index_entry base rs i" and "i < length rs" and "i mod index_interval = 0"
proof -
  let ?is = "filter (\<lambda>i. i mod index_interval = 0) [0..<length rs]"
  have j: "j < length ?is" using assms by (simp add: index_of_def)
  then have "?is ! j \<in> set ?is" by (rule nth_mem)
  with j that [of "?is ! j"] show ?thesis by (simp add: index_of_def)
qed

lemma index_of_sorted: "i < j \<Longrightarrow> j < length (index_of base rs) \<Longrightarrow> ie_Offset (index_of base rs ! i) < ie_Offset (index_of base rs ! j)"
proof -
  let ?is = "filter (\<lambda>i. i mod index_interval = 0) [0..<length rs]"
  assume "i < j" "j < length (index_of base rs)"
  moreover have "sorted_wrt (<) ?is" by (intro sorted_wrt_filter) simp
  ultimately have "?is ! i < ?is ! j" by (simp add: index_of_def sorted_wrt_iff_nth_less)
  then show ?thesis using \<open>i < j\<close> \<open>j < length (index_of base rs)\<close> by (simp add: index_of_def index_entry_def)
qed

lemma index_Search_holds:
  assumes "i < length rs"
  shows "index_Search (index_of base rs) (base + i) =
    (if i mod index_interval = 0 then Some (word_of_nat (pos_of rs i)) else None)"
proof -
  let ?es = "index_of base rs"
  have sorted: "probes_sorted (index_probe (base + i)) ?es"
    using index_of_sorted by (fastforce simp: probes_sorted_def index_probe_def split: if_splits)
  have here: "index_probe (base + i) (?es ! j) = Here \<longleftrightarrow> ie_Offset (?es ! j) = base + i" for j
    by (simp add: index_probe_def)
  show ?thesis
  proof (cases "i mod index_interval = 0")
    case True
    with assms have "index_entry base rs i \<in> set ?es" by (auto simp: index_of_def)
    then obtain j where j: "j < length ?es" "?es ! j = index_entry base rs i" by (metis in_set_conv_nth)
    then have "bsearch (index_probe (base + i)) ?es 0 (int (length ?es) - 1) = Some j"
      by (simp add: bsearch_all [OF sorted] index_probe_def index_entry_def)
    with j True show ?thesis by (simp add: index_Search_def index_entry_def index_probe_def)
  next
    case False
    have "bsearch (index_probe (base + i)) ?es 0 (int (length ?es) - 1) = None"
    proof (rule ccontr)
      assume "\<not> ?thesis"
      then obtain j where "j < length ?es" "ie_Offset (?es ! j) = base + i"
        by (auto simp: bsearch_all [OF sorted] here)
      with False index_of_nth show False by (metis IndexEntry.select_convs(1) add_left_cancel index_entry_def)
    qed
    with False show ?thesis by (simp add: index_Search_def)
  qed
qed

lemma find_SomeD: "List.find P xs = Some x \<Longrightarrow> x \<in> set xs \<and> P x"
  by (induction xs) (auto split: if_splits)

lemma nearest_holds:
  assumes "seg_holds s rs" and "i < length rs"
  obtains j where "j \<le> i" and "nearest s (seg_baseOff s + i) = (seg_baseOff s + j, word_of_nat (pos_of rs j))"
proof -
  let ?es = "index_of (seg_baseOff s) rs" and ?P = "\<lambda>e. ie_Offset e \<le> seg_baseOff s + i"
  from assms(2) have "index_entry (seg_baseOff s) rs 0 \<in> set ?es" by (auto simp: index_of_def index_interval_def)
  moreover from this obtain e where e: "List.find ?P (rev ?es) = Some e"
    by (cases "List.find ?P (rev ?es)") (auto simp: find_None_iff index_entry_def)
  then have "e \<in> set ?es" "?P e" using find_SomeD by fastforce+
  then obtain j where "e = index_entry (seg_baseOff s) rs j" "j \<le> i" by (auto simp: index_of_def index_entry_def)
  ultimately have "?es \<noteq> []" by auto
  with e show ?thesis using that [OF \<open>j \<le> i\<close>] seg_holdsD(2) [OF assms(1)] \<open>e = _\<close>
    by (simp add: nearest_def index_entry_def)
qed

lemma skip_records_holds:
  assumes "seg_holds s rs" and "j + n < length rs"
  shows "skip_records (seg_file s) n (word_of_nat (pos_of rs j)) = Some (word_of_nat (pos_of rs (j + n)))"
  using assms(2)
proof (induction n arbitrary: j)
  case (Suc n)
  then have j: "j < length rs" by simp
  have "word_of_nat (pos_of rs j) + (4 + word_of_nat (length (rs ! j))) = (word_of_nat (pos_of rs (Suc j)) :: 32 word)"
    using pos_of_Suc [OF j] by simp
  with Suc.IH [of "Suc j"] Suc.prems show ?case
    using record_in_file(1) [OF assms(1) j] by (simp add: unat_pos_of [OF assms(1) j])
qed simp

lemma FindPosition_holds:
  assumes "seg_holds s rs" and "i < length rs"
  shows "FindPosition s (seg_baseOff s + i) = Inr (pos_of rs i)"
proof (cases "i mod index_interval = 0")
  case True
  then show ?thesis using assms
    by (simp add: FindPosition_def seg_holdsD(2) [OF assms(1)] index_Search_holds unat_pos_of [OF assms])
next
  case False
  obtain j where "j \<le> i" and n: "nearest s (seg_baseOff s + i) = (seg_baseOff s + j, word_of_nat (pos_of rs j))"
    using nearest_holds [OF assms] by blast
  then have "skip_records (seg_file s) (i - j) (word_of_nat (pos_of rs j)) = Some (word_of_nat (pos_of rs i))"
    using skip_records_holds [OF assms(1), of j "i - j"] assms(2) by simp
  with False n show ?thesis
    by (simp add: FindPosition_def seg_holdsD(2) [OF assms(1)] index_Search_holds [OF assms(2)] unat_pos_of [OF assms])
qed

subsection \<open>Scanning a segment\<close>

lemma scan_holds:
  assumes "seg_holds s rs" and "i \<le> length rs"
    and "k = min (min (Suc e - (seg_baseOff s + i)) (m - length acc)) (length rs - i)"
  shows "scan s e m (pos_of rs i) (seg_baseOff s + i) acc = (acc @ take k (drop i rs), seg_baseOff s + i + k)"
  using assms(2,3)
proof (induction k arbitrary: i acc)
  case 0
  then have "\<not> (seg_baseOff s + i \<le> e \<and> length acc < m \<and> seg_baseOff s + i < seg_nextOff s)"
    using seg_holdsD(1) [OF assms(1)] by linarith
  then show ?case by (subst scan.simps) auto
next
  case (Suc k)
  then have i: "i < length rs" and c: "seg_baseOff s + i \<le> e" "length acc < m" by auto
  have "scan s e m (pos_of rs i) (seg_baseOff s + i) acc = scan s e m (pos_of rs (Suc i)) (seg_baseOff s + Suc i) (acc @ [rs ! i])"
    using c i seg_holdsD(1) [OF assms(1)] by (subst scan.simps) (simp add: ReadAtSequential_holds [OF assms(1) i])
  also have "\<dots> = ((acc @ [rs ! i]) @ take k (drop (Suc i) rs), seg_baseOff s + Suc i + k)"
  proof (rule Suc.IH)
    show "k = min (min (Suc e - (seg_baseOff s + Suc i)) (m - length (acc @ [rs ! i]))) (length rs - Suc i)"
      using Suc.prems(2) c i by (simp add: min_def split: if_split_asm; arith)
  qed (use i in simp)
  also have "\<dots> = (acc @ take (Suc k) (drop i rs), seg_baseOff s + i + Suc k)"
    using i by (simp add: Cons_nth_drop_Suc [symmetric])
  finally show ?case .
qed

section \<open>The log that a partition holds\<close>

fun chain :: "nat \<Rightarrow> Segment list \<Rightarrow> bytes list list \<Rightarrow> bool" where
  "chain b [] [] = True"
| "chain b (s # ss) (rs # rss) = (seg_holds s rs \<and> seg_baseOff s = b \<and> chain (b + length rs) ss rss)"
| "chain b _ _ = False"

text \<open>The offset of the last of \<open>n\<close> messages, or 0.\<close>

definition last_offset :: "nat \<Rightarrow> nat \<Rightarrow> nat" where
  "last_offset start n = (if start + n > 0 then start + n - 1 else 0)"

text \<open>The log of a partition: the offset of its first message and its messages in order.\<close>

definition part_holds :: "Partition \<Rightarrow> nat \<Rightarrow> bytes list \<Rightarrow> bool" where
  "part_holds p start log \<longleftrightarrow> part_segments p \<noteq> [] \<and> part_maxSegSize p \<le> 4294967296 \<and>
     part_highWater p = last_offset start (length log) \<and>
     (\<exists>rss. chain start (part_segments p) rss \<and> log = concat rss)"

lemma chain_length: "chain b ss rss \<Longrightarrow> length ss = length rss"
  by (induction b ss rss rule: chain.induct) auto

lemma chain_nth:
  "chain b ss rss \<Longrightarrow> i < length ss \<Longrightarrow>
   seg_holds (ss ! i) (rss ! i) \<and> seg_baseOff (ss ! i) = b + length (concat (take i rss)) \<and>
   seg_nextOff (ss ! i) = b + length (concat (take (Suc i) rss))"
proof (induction b ss rss arbitrary: i rule: chain.induct)
  case (2 b s ss rs rss)
  then show ?case by (cases i) (auto simp: seg_holdsD)
qed simp_all

lemma chain_snoc:
  "chain b (ss @ [s]) rss \<longleftrightarrow>
   (\<exists>rss' rs. rss = rss' @ [rs] \<and> chain b ss rss' \<and> seg_holds s rs \<and> seg_baseOff s = b + length (concat rss'))"
proof (induction ss arbitrary: b rss)
  case Nil
  then show ?case by (cases rss) (auto simp: Cons_eq_append_conv elim: chain.elims)
next
  case (Cons t ss)
  then show ?case by (cases rss) (auto simp: Cons_eq_append_conv add.assoc elim: chain.elims)
qed

lemma concat_take_mono: "i \<le> j \<Longrightarrow> length (concat (take i rss)) \<le> length (concat (take j rss))"
proof -
  assume "i \<le> j"
  then have "take j rss = take i rss @ take (j - i) (drop i rss)" by (metis le_add_diff_inverse take_add)
  then show ?thesis by simp
qed

lemma findSegment_chain:
  assumes "chain b (part_segments p) rss"
  shows "findSegment p offset = Some i \<longleftrightarrow>
    i < length rss \<and> b + length (concat (take i rss)) \<le> offset \<and> offset < b + length (concat (take (Suc i) rss))"
proof -
  let ?ss = "part_segments p"
  note nth = chain_nth [OF assms] and len = chain_length [OF assms]
  have "seg_probe offset (?ss ! j) = Before"
    if "j < length ?ss" "i < j" "seg_probe offset (?ss ! i) \<noteq> After" for i j
    using that nth [of i] nth [of j] concat_take_mono [of "Suc i" j rss] concat_take_mono [of i j rss] by (auto simp: seg_probe_def split: if_splits)
  then have "probes_sorted (seg_probe offset) ?ss" by (auto simp: probes_sorted_def)
  from bsearch_all [OF this, of i] show ?thesis
    using nth [of i] len by (auto simp: findSegment_def seg_probe_def split: if_splits)
qed

text \<open>Every offset of the log is in a segment.\<close>

lemma offset_in_segment:
  "k < length (concat rss) \<Longrightarrow> \<exists>i < length rss. length (concat (take i rss)) \<le> k \<and> k < length (concat (take (Suc i) rss))"
proof (induction rss arbitrary: k)
  case (Cons rs rss)
  show ?case
  proof (cases "k < length rs")
    case True
    then show ?thesis by (intro exI [of _ 0]) simp
  next
    case False
    with Cons obtain i where "i < length rss" "length (concat (take i rss)) \<le> k - length rs"
      "k - length rs < length (concat (take (Suc i) rss))"
      by (metis add_diff_inverse_nat concat.simps(2) length_append nat_add_left_cancel_less)
    with False show ?thesis by (intro exI [of _ "Suc i"]) auto
  qed
qed simp

lemma drop_concat:
  assumes "i < length rss" and "length (concat (take i rss)) \<le> k" and "k \<le> length (concat (take (Suc i) rss))"
  shows "drop k (concat rss) = drop (k - length (concat (take i rss))) (rss ! i) @ concat (drop (Suc i) rss)"
proof -
  have "concat rss = concat (take i rss) @ rss ! i @ concat (drop (Suc i) rss)"
    using id_take_nth_drop [OF assms(1)] by (metis concat.simps(2) concat_append)
  with assms(2,3) show ?thesis using assms(1) by (simp add: take_Suc_conv_app_nth)
qed

lemma take_split:
  assumes "k \<le> n" and "k \<le> length xs" and "zs = xs @ ys"
  shows "take k xs @ take (n - k) (drop k zs) = take n zs"
proof -
  have "take k xs = take k zs" using assms by simp
  then show ?thesis using assms(1) by (metis le_add_diff_inverse take_add)
qed

lemma read_segments_chain:
  assumes "chain b (part_segments p) rss" and "b \<le> offset"
    and "offset \<le> e \<and> length acc < m \<longrightarrow> (\<forall>j. lastSeg = Some j \<longrightarrow> seg_nextOff (part_segments p ! j) \<le> offset)"
  shows "read_segments p e m offset lastSeg acc = acc @ take (min (Suc e - offset) (m - length acc)) (drop (offset - b) (concat rss))"
  using assms(2,3)
proof (induction "Suc e - offset" arbitrary: offset lastSeg acc rule: less_induct)
  case less
  note find = findSegment_chain [OF assms(1), of offset] and len = chain_length [OF assms(1)]
  define k where "k = offset - b"
  have off: "offset = b + k" using less.prems(1) by (simp add: k_def)
  define n where "n = min (Suc e - offset) (m - length acc)"
  consider "n = 0" | "n > 0" "k \<ge> length (concat rss)" | "n > 0" "k < length (concat rss)" by linarith
  then show ?case
  proof cases
    case 1
    then have "\<not> (offset \<le> e \<and> length acc < m)" by (auto simp: n_def)
    with 1 show ?thesis by (subst read_segments.simps) (auto simp: n_def)
  next
    case 2
    have "findSegment p offset = None"
    proof (rule ccontr)
      assume "\<not> ?thesis"
      then obtain i where "offset < b + length (concat (take (Suc i) rss))" "i < length rss" using find by auto
      with concat_take_mono [of "Suc i" "length rss" rss] 2(2) off show False by simp
    qed
    with 2 show ?thesis by (subst read_segments.simps) (simp add: k_def)
  next
    case 3
    obtain i where i: "i < length rss" "length (concat (take i rss)) \<le> k" "k < length (concat (take (Suc i) rss))"
      using offset_in_segment [OF 3(2)] by blast
    let ?s = "part_segments p ! i"
    define j where "j = k - length (concat (take i rss))"
    have s: "seg_holds ?s (rss ! i)" "offset = seg_baseOff ?s + j"
      "seg_nextOff ?s = b + length (concat (take (Suc i) rss))"
      using chain_nth [OF assms(1), of i] i(1,2) len off by (auto simp: j_def)
    have j: "j < length (rss ! i)" using i by (simp add: j_def take_Suc_conv_app_nth)
    define k1 where "k1 = min n (length (rss ! i) - j)"
    have k1: "0 < k1" "k1 \<le> n" using 3(1) j by (auto simp: k1_def)
    have c: "offset \<le> e" "length acc < m" using 3(1) by (auto simp: n_def)
    have found: "findSegment p offset = Some i" using find i off by simp
    have last: "lastSeg \<noteq> Some i" using less.prems(2) c s(3) i(3) off by auto
    have "FindPosition ?s offset = Inr (pos_of (rss ! i) j)"
      unfolding s(2) by (rule FindPosition_holds [OF s(1) j])
    moreover have "scan ?s e m (pos_of (rss ! i) j) offset acc = (acc @ take k1 (drop j (rss ! i)), offset + k1)"
      unfolding s(2) using j by (intro scan_holds [OF s(1)]) (simp_all add: k1_def n_def s(2))
    ultimately have "read_segments p e m offset lastSeg acc =
        read_segments p e m (offset + k1) (Some i) (acc @ take k1 (drop j (rss ! i)))"
      using c found last by (subst read_segments.simps) simp
    also have "\<dots> = (acc @ take k1 (drop j (rss ! i))) @
        take (min (Suc e - (offset + k1)) (m - length (acc @ take k1 (drop j (rss ! i))))) (drop (offset + k1 - b) (concat rss))"
    proof (rule less.hyps)
      show "Suc e - (offset + k1) < Suc e - offset" using c k1(1) by simp
      show "b \<le> offset + k1" using less.prems(1) by simp
      show "offset + k1 \<le> e \<and> length (acc @ take k1 (drop j (rss ! i))) < m \<longrightarrow>
          (\<forall>l. Some i = Some l \<longrightarrow> seg_nextOff (part_segments p ! l) \<le> offset + k1)"
      proof (intro impI allI)
        fix l assume "offset + k1 \<le> e \<and> length (acc @ take k1 (drop j (rss ! i))) < m" "Some i = Some l"
        moreover from this have "k1 = length (rss ! i) - j" using j by (auto simp: k1_def n_def min_def split: if_splits)
        ultimately show "seg_nextOff (part_segments p ! l) \<le> offset + k1"
          using j chain_nth [OF assms(1), of i] i(1) len s(2) seg_holdsD(1) [OF s(1)] by auto
      qed
    qed
    also have "\<dots> = acc @ take n (drop k (concat rss))"
    proof -
      have split: "drop k (concat rss) = drop j (rss ! i) @ concat (drop (Suc i) rss)"
        using drop_concat [OF i(1,2)] i(3) by (simp add: j_def)
      have "k1 \<le> length (drop j (rss ! i))" by (simp add: k1_def)
      from take_split [OF k1(2) this split]
      have "take k1 (drop j (rss ! i)) @ take (n - k1) (drop (k + k1) (concat rss)) = take n (drop k (concat rss))"
        by (simp add: add.commute)
      moreover have "min (Suc e - (offset + k1)) (m - length (acc @ take k1 (drop j (rss ! i)))) = n - k1"
      proof -
        have "length (take k1 (drop j (rss ! i))) = k1" by (simp add: k1_def)
        then show ?thesis by (auto simp: n_def)
      qed
      ultimately show ?thesis using off by (simp add: add.commute)
    qed
    finally show ?thesis by (simp add: n_def k_def)
  qed
qed

lemma ReadRange_holds:
  assumes "part_holds p start log" and "start \<le> a"
  shows "ReadRange p a e m = take (min (Suc e - a) m) (drop (a - start) log)"
  using assms read_segments_chain [of start p _ a e "[]" m None] by (auto simp: part_holds_def ReadRange_def)

lemma ReadRange_before:
  assumes "part_holds p start log" and "a < start"
  shows "ReadRange p a e m = []"
proof -
  obtain rss where "chain start (part_segments p) rss" using assms(1) by (auto simp: part_holds_def)
  then have "findSegment p a = None"
    using findSegment_chain [of start p rss a] assms(2) by (cases "findSegment p a") auto
  then show ?thesis by (simp add: ReadRange_def read_segments.simps)
qed

subsection \<open>Appending\<close>

lemma take_file_write:
  assumes "k \<le> length file"
  shows "take k (file_write file k src) = take k file"
    and "take (k + length src) (file_write file k src) = take k file @ src"
    and "k + length src \<le> length (file_write file k src)"
  using assms by (simp_all add: file_write_def)

lemma index_of_snoc:
  "index_of base (rs @ [d]) = index_of base rs @ (if length rs mod index_interval = 0 then [index_entry base rs (length rs)] else [])"
  by (auto simp: index_of_def index_entry_def pos_of_append intro!: map_cong)

text \<open>An append that succeeds adds one record; one that fails, for whatever reason, changes nothing.\<close>

lemma seg_Append_holds:
  assumes "seg_holds s rs" and "seg_Append wr data s = (res, s')"
  shows "seg_baseOff s' = seg_baseOff s \<and> (case res of
      Inr offset \<Rightarrow> offset = seg_baseOff s + length rs \<and> seg_holds s' (rs @ [data])
    | Inl err \<Rightarrow> seg_holds s' rs \<and> (err \<noteq> ErrIO \<longrightarrow> s' = s))"
proof (cases "seg_frozen s \<or> seg_size s + (4 + length data) > seg_maxSize s")
  case True
  then show ?thesis using assms by (auto simp: seg_Append_def split: if_splits)
next
  case False
  have t: "log_file (seg_baseOff s) rs (take (seg_size s) (seg_file s))"
    and size: "seg_size s = pos_of rs (length rs)" "seg_size s \<le> length (seg_file s)"
    using assms(1) by (auto simp: seg_holds_def)
  show ?thesis
  proof (cases wr)
    case (Failed k)
    with False assms show ?thesis
      using take_file_write(1,3) [OF size(2), of "take k (record_bytes data)"]
      by (auto simp: seg_Append_def seg_holds_def)
  next
    case Wrote
    have "log_file (seg_baseOff s) (rs @ [data])
        (take (seg_size s + (4 + length data)) (file_write (seg_file s) (seg_size s) (record_bytes data)))"
      using take_file_write(2) [OF size(2), of "record_bytes data"] t by (auto simp: log_file_def)
    moreover have "pos_of (rs @ [data]) (length (rs @ [data])) = seg_size s + (4 + length data)"
      using size(1) by (simp add: pos_of_def)
    moreover note take_file_write(3) [OF size(2), of "record_bytes data"]
    ultimately show ?thesis
      using False Wrote assms size(1)
      by (auto simp: seg_Append_def seg_holds_def index_Add_def index_of_snoc index_entry_def pos_of_append Let_def split: if_splits)
  qed
qed

lemma set_active_segments [simp]: "part_segments (set_active s p) = butlast (part_segments p) @ [s]"
  by (simp add: set_active_def)

lemma set_active_other [simp]: "part_highWater (set_active s p) = part_highWater p" "part_maxSegSize (set_active s p) = part_maxSegSize p"
  by (simp_all add: set_active_def)

lemma new_segment_holds:
  assumes "OpenSegment wr created [] base maxSize = Inr s" and "maxSize \<le> 4294967296"
  shows "seg_holds s [] \<and> seg_baseOff s = base"
  using assms
  by (auto simp: OpenSegment_def new_segment_def seg_holds_def file_write_def SegmentHeaderLen_def pos_of_def index_of_def
      log_file_def split: write_result.splits)

lemma seg_holds_freeze [simp]: "seg_holds (s\<lparr>seg_frozen := f\<rparr>) rs = seg_holds s rs"
  by (simp add: seg_holds_def)

lemma part_holdsI:
  assumes "chain start (butlast (part_segments q)) rss" and "seg_holds (last (part_segments q)) rs"
    and "seg_baseOff (last (part_segments q)) = start + length (concat rss)" and "part_segments q \<noteq> []"
    and "part_maxSegSize q \<le> 4294967296" and "part_highWater q = last_offset start (length (concat rss @ rs))"
  shows "part_holds q start (concat rss @ rs)"
proof -
  have "chain start (part_segments q) (rss @ [rs])"
    using assms(1-4) chain_snoc [of start "butlast (part_segments q)" "last (part_segments q)"] by auto
  then show ?thesis using assms(4-6) unfolding part_holds_def by (intro conjI exI [of _ "rss @ [rs]"]) simp_all
qed

lemma part_holdsE:
  assumes "part_holds p start log"
  obtains rss rs where "chain start (butlast (part_segments p)) rss" and "seg_holds (last (part_segments p)) rs"
    and "seg_baseOff (last (part_segments p)) = start + length (concat rss)" and "log = concat rss @ rs"
    and "part_segments p \<noteq> []" and "part_maxSegSize p \<le> 4294967296" and "part_highWater p = last_offset start (length log)"
proof -
  from assms have "part_segments p \<noteq> []" by (simp add: part_holds_def)
  with assms that chain_snoc [of start "butlast (part_segments p)" "last (part_segments p)"] show ?thesis
    by (auto simp: part_holds_def)
qed

text \<open>Replacing the active segment by one that holds the same or one record more.\<close>

lemma set_active_holds:
  assumes "part_holds p start log" and "seg_Append wr data (last (part_segments p)) = (res, s)"
  shows "case res of
      Inr offset \<Rightarrow> offset = start + length log \<and> part_holds (set_active s p\<lparr>part_highWater := offset\<rparr>) start (log @ [data])
    | Inl err \<Rightarrow> part_holds (set_active s p) start log \<and> part_holds (set_active (s\<lparr>seg_frozen := True\<rparr>) p) start log"
proof -
  obtain rss rs where p: "chain start (butlast (part_segments p)) rss" "seg_holds (last (part_segments p)) rs"
    "seg_baseOff (last (part_segments p)) = start + length (concat rss)" "log = concat rss @ rs"
    "part_segments p \<noteq> []" "part_maxSegSize p \<le> 4294967296" "part_highWater p = last_offset start (length log)"
    using assms(1) by (rule part_holdsE)
  note s = seg_Append_holds [OF p(2) assms(2)]
  show ?thesis
  proof (cases res)
    case (Inl err)
    with s p show ?thesis using part_holdsI [of start "set_active s p" rss rs]
        part_holdsI [of start "set_active (s\<lparr>seg_frozen := True\<rparr>) p" rss rs] by simp
  next
    case (Inr offset)
    with s p show ?thesis
      using part_holdsI [of start "set_active s p\<lparr>part_highWater := offset\<rparr>" rss "rs @ [data]"]
      by (simp add: last_offset_def)
  qed
qed

text \<open>Adding the new, empty segment.\<close>

lemma add_segment_holds:
  assumes "part_holds p start log" and "OpenSegment wr created [] (seg_nextOff (last (part_segments p))) (part_maxSegSize p) = Inr s"
  shows "part_holds (p\<lparr>part_segments := part_segments p @ [s]\<rparr>) start log"
proof -
  obtain rss rs where p: "chain start (butlast (part_segments p)) rss" "seg_holds (last (part_segments p)) rs"
    "seg_baseOff (last (part_segments p)) = start + length (concat rss)" "log = concat rss @ rs"
    "part_segments p \<noteq> []" "part_maxSegSize p \<le> 4294967296" "part_highWater p = last_offset start (length log)"
    using assms(1) by (rule part_holdsE)
  have "chain start (part_segments p) (rss @ [rs])"
    using p(1-3,5) chain_snoc [of start "butlast (part_segments p)" "last (part_segments p)"] by auto
  then show ?thesis
    using part_holdsI [of start "p\<lparr>part_segments := part_segments p @ [s]\<rparr>" "rss @ [rs]" "[]"]
      new_segment_holds [OF assms(2) p(6)] p(3-7) seg_holdsD(1) [OF p(2)] by simp
qed

lemma part_Append_holds:
  assumes "part_holds p start log"
  shows "case part_Append io data p of
      (Inr offset, p') \<Rightarrow> offset = start + length log \<and> part_holds p' start (log @ [data])
    | (Inl err, p') \<Rightarrow> part_holds p' start log"
proof -
  obtain res s where app: "seg_Append (io_first io) data (last (part_segments p)) = (res, s)"
    by (cases "seg_Append (io_first io) data (last (part_segments p))")
  note s = set_active_holds [OF assms app]
  show ?thesis
  proof (cases res)
    case (Inr offset)
    with s app show ?thesis by (auto simp: part_Append_def)
  next
    case (Inl err)
    define q where "q = set_active (s\<lparr>seg_frozen := True\<rparr>) (set_active s p)"
    have q: "q = set_active (s\<lparr>seg_frozen := True\<rparr>) p" by (simp add: q_def set_active_def)
    with s Inl have hq: "part_holds q start log" by simp
    show ?thesis
    proof (cases "err = ErrSegmentFull \<and> io_sync io \<and> io_index io")
      case False
      with s app Inl hq show ?thesis by (auto simp: part_Append_def Let_def q_def)
    next
      case True
      let ?open = "OpenSegment (io_header io) (io_created io) [] (seg_nextOff s) (part_maxSegSize p)"
      show ?thesis
      proof (cases ?open)
        case (Inl err')
        with True app \<open>res = Inl err\<close> hq show ?thesis by (simp add: part_Append_def Let_def q_def)
      next
        case (Inr t)
        define r where "r = q\<lparr>part_segments := part_segments q @ [t]\<rparr>"
        have hr: "part_holds r start log"
          unfolding r_def using Inr by (intro add_segment_holds [OF hq]) (simp add: q)
        obtain res' u where app': "seg_Append (io_second io) data t = (res', u)"
          by (cases "seg_Append (io_second io) data t")
        have "seg_Append (io_second io) data (last (part_segments r)) = (res', u)" using app' by (simp add: r_def)
        from set_active_holds [OF hr this] show ?thesis
          using True app \<open>res = Inl err\<close> Inr app'
          by (cases res') (simp_all add: part_Append_def Let_def q_def [symmetric] r_def [symmetric])
      qed
    qed
  qed
qed

subsection \<open>Opening a file again\<close>

definition index_upto :: "nat \<Rightarrow> bytes list \<Rightarrow> nat \<Rightarrow> IndexEntry list" where
  "index_upto base rs i = map (index_entry base rs) (filter (\<lambda>i. i mod index_interval = 0) [0..<i])"

lemma index_upto_all: "index_upto base rs (length rs) = index_of base rs"
  by (simp add: index_upto_def index_of_def)

lemma rebuild_prefix:
  assumes "seg_holds s rs" and "i \<le> length rs"
  shows "rebuild (seg_file s) b (pos_of rs i) i (index_upto b rs i) =
    rebuild (seg_file s) b (seg_size s) (length rs) (index_of b rs)"
  using assms(2)
proof (induction "length rs - i" arbitrary: i)
  case 0
  then have "i = length rs" by simp
  then show ?case using seg_holdsD(3) [OF assms(1)] by (simp add: index_upto_all)
next
  case (Suc n)
  then have i: "i < length rs" and "n = length rs - Suc i" by simp_all
  have "rebuild (seg_file s) b (pos_of rs i) i (index_upto b rs i) =
      rebuild (seg_file s) b (pos_of rs (Suc i)) (Suc i) (index_upto b rs (Suc i))"
    using record_in_file(1) [OF assms(1) i] pos_of_Suc [OF i]
    by (subst rebuild.simps) (simp add: index_upto_def index_entry_def)
  also have "\<dots> = rebuild (seg_file s) b (seg_size s) (length rs) (index_of b rs)"
    using Suc.hyps(1) [OF \<open>n = _\<close>] i by simp
  finally show ?case .
qed

definition clean :: "Segment \<Rightarrow> bool" where
  "clean s \<longleftrightarrow> length (seg_file s) = seg_size s"

lemma OpenSegment_holds:
  assumes "seg_holds s rs" and "seg_baseOff s < 2 ^ 64"
  shows "OpenSegment wr created (seg_file s) base maxSize =
    Inr (let (count, pos, entries) = rebuild (seg_file s) (seg_baseOff s) (seg_size s) (length rs) (index_of (seg_baseOff s) rs)
      in \<lparr>seg_file = seg_file s, seg_size = pos, seg_maxSize = maxSize, seg_baseOff = seg_baseOff s,
          seg_nextOff = seg_baseOff s + count, seg_index = entries, seg_frozen = False\<rparr>)"
proof -
  obtain created' where t: "take (seg_size s) (seg_file s) = segment_header (seg_baseOff s) created' @ log_bytes rs"
    and size: "seg_size s = pos_of rs (length rs)" "seg_size s \<le> length (seg_file s)"
    using assms(1) by (auto simp: seg_holds_def log_file_def)
  have 32: "32 \<le> seg_size s" using size(1) by (simp add: pos_of_def)
  then have "file_read (seg_file s) 0 32 = Some (segment_header (seg_baseOff s) created')"
    using size(2) t by (subst file_read_take [of _ _ "seg_size s"]) (simp_all add: file_read_def)
  then have "readHeader (new_segment (seg_file s) base maxSize) =
      Inr (new_segment (seg_file s) base maxSize\<lparr>seg_baseOff := seg_baseOff s, seg_nextOff := seg_baseOff s\<rparr>)"
    using assms(2) by (simp add: readHeader_def SegmentHeaderLen_def segment_header_def be_get_put_be unat_of_nat new_segment_def Let_def)
  moreover have "rebuild (seg_file s) (seg_baseOff s) 32 0 [] =
      rebuild (seg_file s) (seg_baseOff s) (seg_size s) (length rs) (index_of (seg_baseOff s) rs)"
    using rebuild_prefix [OF assms(1), of 0] by (simp add: index_upto_def)
  moreover have "seg_file s \<noteq> []" using 32 size(2) by auto
  ultimately show ?thesis
    by (simp add: OpenSegment_def rebuildIndex_def SegmentHeaderLen_def new_segment_def Let_def split: prod.split)
qed

lemma be32_at_end: "length file < pos + 4 \<Longrightarrow> be32_at file pos = None"
  by (simp add: be32_at_def file_read_def)

lemma OpenSegment_clean:
  assumes "seg_holds s rs" and "clean s" and "seg_baseOff s < 2 ^ 64" and "maxSize \<le> 4294967296"
  shows "\<exists>s'. OpenSegment wr created (seg_file s) base maxSize = Inr s' \<and> seg_holds s' rs \<and> clean s' \<and>
    seg_baseOff s' = seg_baseOff s"
  using assms OpenSegment_holds [OF assms(1,3), of wr created base maxSize]
  by (simp add: rebuild.simps [of _ _ "seg_size s"] be32_at_end clean_def) (auto simp: seg_holds_def)

lemma open_all_clean:
  assumes "chain b ss rss" and "list_all clean ss" and "b + length (concat rss) < 2 ^ 64" and "maxSize \<le> 4294967296"
  shows "\<exists>ss'. open_all maxSize (map (\<lambda>s. (seg_baseOff s, seg_file s)) ss) = Inr ss' \<and> chain b ss' rss \<and> list_all clean ss'"
  using assms(1-3)
proof (induction b ss rss rule: chain.induct)
  case (2 b s ss rs rss)
  then obtain ss' where ss': "open_all maxSize (map (\<lambda>s. (seg_baseOff s, seg_file s)) ss) = Inr ss'"
    "chain (b + length rs) ss' rss" "list_all clean ss'" by auto
  obtain s' where "OpenSegment Wrote 0 (seg_file s) (seg_baseOff s) maxSize = Inr s'" "seg_holds s' rs" "clean s'"
    "seg_baseOff s' = seg_baseOff s"
    using 2(2-4) OpenSegment_clean [of s rs maxSize Wrote 0 "seg_baseOff s"] assms(4) by auto
  with ss' 2 show ?case by (auto simp: chain_length)
qed simp_all

lemma OpenPartition_holds:
  assumes "part_holds p start log" and "list_all clean (part_segments p)" and "start + length log < 2 ^ 64"
  shows "\<exists>p'. OpenPartition wr created (part_maxSegSize p) (map (\<lambda>s. (seg_baseOff s, seg_file s)) (part_segments p)) = Inr p' \<and>
    part_holds p' start log \<and> list_all clean (part_segments p')"
proof -
  obtain rss where p: "chain start (part_segments p) rss" "log = concat rss" "part_segments p \<noteq> []" "part_maxSegSize p \<le> 4294967296"
    using assms(1) by (auto simp: part_holds_def)
  obtain ss where ss: "open_all (part_maxSegSize p) (map (\<lambda>s. (seg_baseOff s, seg_file s)) (part_segments p)) = Inr ss"
    "chain start ss rss" "list_all clean ss"
    using open_all_clean [OF p(1) assms(2) _ p(4)] assms(3) p(2) by auto
  have ne: "ss \<noteq> []" using chain_length [OF ss(2)] chain_length [OF p(1)] p(3) by auto
  then obtain rss' rs where "rss = rss' @ [rs]" "seg_holds (last ss) rs" "seg_baseOff (last ss) = start + length (concat rss')"
    using chain_snoc [of start "butlast ss" "last ss" rss] ss(2) by auto
  then have "seg_nextOff (last ss) = start + length log"
    using seg_holdsD(1) p(2) by simp
  with ss ne p show ?thesis
    by (auto simp: OpenPartition_def part_holds_def last_offset_def)
qed

subsection \<open>Removing old segments\<close>

lemma drop_leading_chain:
  "chain b ss rss \<Longrightarrow> ss \<noteq> [] \<Longrightarrow> drop_leading target ss = (n, ss') \<Longrightarrow>
   ss' \<noteq> [] \<and> last ss' = last ss \<and> (\<exists>k rss'. chain (b + k) ss' rss' \<and> drop k (concat rss) = concat rss' \<and> k \<le> length (concat rss) \<and>
     (k = 0 \<or> b + k \<le> target))"
proof (induction target ss arbitrary: b rss n ss' rule: drop_leading.induct)
  case (1 target s t ss)
  obtain rs rss2 where rss: "rss = rs # rss2" and h: "seg_holds s rs" "seg_baseOff s = b" "chain (b + length rs) (t # ss) rss2"
    using 1(2) by (cases rss) auto
  show ?case
  proof (cases "seg_nextOff s \<le> target")
    case False
    with 1(2,4) show ?thesis by (auto intro!: exI [of _ 0])
  next
    case True
    obtain m where "drop_leading target (t # ss) = (m, ss')" using 1(4) True by (auto split: prod.splits)
    from 1(1) [OF True h(3) _ this] obtain k rss' where "ss' \<noteq> []" "last ss' = last (t # ss)"
      "chain (b + length rs + k) ss' rss'" "drop k (concat rss2) = concat rss'" "k \<le> length (concat rss2)"
      "k = 0 \<or> b + length rs + k \<le> target" by auto
    with True h rss seg_holdsD(1) [OF h(1)] show ?thesis
      by (auto intro!: exI [of _ "length rs + k"] exI [of _ rss'] simp: add.assoc)
  qed
qed (auto intro!: exI [of _ 0])

lemma AdvanceLogStart_holds:
  assumes "part_holds p start log" and "AdvanceLogStart target p = (n, p')"
  shows "\<exists>k \<le> length log. part_holds p' (start + k) (drop k log) \<and> (k = 0 \<or> start + k \<le> target) \<and> part_logStart p' = start + k"
proof -
  obtain rss where p: "chain start (part_segments p) rss" "log = concat rss" "part_segments p \<noteq> []"
    using assms(1) by (auto simp: part_holds_def)
  obtain m ss where d: "drop_leading target (part_segments p) = (m, ss)" by (cases "drop_leading target (part_segments p)")
  obtain k rss' where k: "ss \<noteq> []" "chain (start + k) ss rss'" "drop k log = concat rss'" "k \<le> length log" "k = 0 \<or> start + k \<le> target"
    using drop_leading_chain [OF p(1,3) d] p(2) by auto
  moreover have "seg_baseOff (hd ss) = start + k" using k(1,2) by (cases ss; cases rss') auto
  moreover have "last_offset (start + k) (length (drop k log)) = last_offset start (length log)"
    using k(4) by (simp add: last_offset_def del: length_greater_0_conv)
  with assms(1) k have "part_holds (p\<lparr>part_segments := ss\<rparr>) (start + k) (drop k log)"
    unfolding part_holds_def by auto
  ultimately show ?thesis using assms(2) d
    by (intro exI [of _ k]) (auto simp: AdvanceLogStart_def part_holds_def)
qed

subsection \<open>A new partition\<close>

lemma OpenPartition_new:
  assumes "maxSize \<le> 4294967296"
  shows "\<exists>p. OpenPartition Wrote created maxSize [] = Inr p \<and> part_holds p 0 [] \<and> list_all clean (part_segments p)"
proof -
  obtain s where s: "OpenSegment Wrote created [] 0 maxSize = Inr s" "clean s"
    by (simp add: OpenSegment_def new_segment_def file_write_def clean_def SegmentHeaderLen_def)
  note h = new_segment_holds [OF s(1) assms]
  have "chain 0 [s] [[]]" using h by simp
  then have "part_holds \<lparr>part_segments = [s], part_highWater = 0, part_logStart = 0, part_maxSegSize = maxSize\<rparr> 0 []"
    using assms by (auto simp: part_holds_def last_offset_def intro: exI [of _ "[[]]"])
  then show ?thesis using s h seg_holdsD(1) [of s "[]"] by (simp add: OpenPartition_def)
qed

subsection \<open>A write that fails half way\<close>

lemma torn_file:
  assumes "seg_holds s rs" and "clean s" and "seg_Append (Failed k) data s = (Inl ErrIO, s')"
  shows "seg_file s' = seg_file s @ take k (record_bytes data) \<and> length data < 4294967296 \<and> seg_holds s' rs"
proof -
  have "seg_file s' = file_write (seg_file s) (seg_size s) (take k (record_bytes data))" and "4 + length data \<le> 4294967296"
    using assms(1,3) by (auto simp: seg_Append_def seg_holds_def split: if_splits)
  then show ?thesis using assms(2) seg_Append_holds [OF assms(1,3)] by (auto simp: clean_def file_write_def)
qed

lemma be32_at_torn:
  assumes "length pre = pos" and "4 \<le> k" and "length data < 4294967296"
  shows "be32_at (pre @ take k (record_bytes data) @ post) pos = Some (length data)"
proof -
  have "take k (record_bytes data) = put_be (word_of_nat (length data) :: 32 word) @ take (k - 4) data"
    using assms(2) by (simp add: record_bytes_def)
  then show ?thesis using assms by (simp add: be32_at_def file_read_def be_get_put_be unat_of_nat)
qed

section \<open>Properties\<close>

text \<open>C5: Whatever the file system does during an append, the log of the partition grows by exactly the
  message when the append returns an offset, which is the position of the message in the log, and stays
  as it is when the append returns an error.\<close>

theorem log_append_refines:
  assumes "part_holds p start log"
  shows "case part_Append io data p of
      (Inr offset, p') \<Rightarrow> offset = start + length log \<and> part_holds p' start (log @ [data]) \<and> part_highWater p' = offset
    | (Inl err, p') \<Rightarrow> part_holds p' start log"
  using part_Append_holds [OF assms, of data io]
  by (auto simp: part_holds_def last_offset_def split: prod.splits sum.splits)

definition io_ok :: append_io where
  "io_ok = \<lparr>io_first = Wrote, io_sync = True, io_index = True, io_header = Wrote, io_second = Wrote, io_created = 0\<rparr>"

theorem log_append_refines_witness:
  "\<exists>p. OpenPartition Wrote 0 64 [] = Inr p \<and> (case part_Append io_ok [1, 2] p of
      (Inr offset, p') \<Rightarrow> offset = 0 \<and> part_holds p' 0 [[1, 2]] | (Inl err, p') \<Rightarrow> False)"
proof -
  obtain p where p: "OpenPartition Wrote 0 64 [] = Inr p" "part_holds p 0 []" using OpenPartition_new [of 64 0] by auto
  have "\<exists>p'. part_Append io_ok [1, 2] p = (Inr 0, p')"
    using p(1) by (auto simp: OpenPartition_def OpenSegment_def new_segment_def part_Append_def seg_Append_def io_ok_def SegmentHeaderLen_def)
  with p log_append_refines [OF p(2), of "[1, 2]" io_ok] show ?thesis by auto
qed

text \<open>C36: Reading a range returns exactly the messages of the log from the first offset on, at most up to
  the last offset and at most as many as asked for, across segments; before the start of the log it
  returns nothing.\<close>

theorem log_read_range:
  assumes "part_holds p start log"
  shows "ReadRange p a e m = (if a < start then [] else take (min (Suc e - a) m) (drop (a - start) log))"
  using ReadRange_holds [OF assms] ReadRange_before [OF assms] by simp

theorem log_read_range_witness:
  "\<exists>p. OpenPartition Wrote 0 64 [] = Inr p \<and> ReadRange (snd (part_Append io_ok [1, 2] p)) 0 5 3 = [[1, 2]]"
proof -
  obtain p where p: "OpenPartition Wrote 0 64 [] = Inr p" "part_holds p 0 []" using OpenPartition_new [of 64 0] by auto
  have "\<exists>p'. part_Append io_ok [1, 2] p = (Inr 0, p')"
    using p(1) by (auto simp: OpenPartition_def OpenSegment_def new_segment_def part_Append_def seg_Append_def io_ok_def SegmentHeaderLen_def)
  with part_Append_holds [OF p(2), of "[1, 2]" io_ok] obtain p' where "part_Append io_ok [1, 2] p = (Inr 0, p')" "part_holds p' 0 [[1, 2]]" by auto
  with p(1) log_read_range [of p' 0 "[[1, 2]]" 0 5 3] show ?thesis by simp
qed

text \<open>C37: Opening the files of a partition again, whose last write has not failed, gives a partition with the
  same log, although the index is not stored with it but counted anew.\<close>

theorem log_survives_reopen:
  assumes "part_holds p start log" and "list_all clean (part_segments p)" and "start + length log < 2 ^ 64"
  shows "\<exists>p'. OpenPartition wr created (part_maxSegSize p) (map (\<lambda>s. (seg_baseOff s, seg_file s)) (part_segments p)) = Inr p' \<and>
    part_holds p' start log \<and> part_highWater p' = part_highWater p"
  using OpenPartition_holds [OF assms, of wr created] assms(1) by (auto simp: part_holds_def)

theorem log_survives_reopen_witness:
  "\<exists>p p'. OpenPartition Wrote 0 64 [] = Inr p \<and>
    OpenPartition Wrote 5 (part_maxSegSize p) (map (\<lambda>s. (seg_baseOff s, seg_file s)) (part_segments p)) = Inr p' \<and> part_holds p' 0 []"
proof -
  obtain p where p: "OpenPartition Wrote 0 64 [] = Inr p" "part_holds p 0 []" "list_all clean (part_segments p)"
    using OpenPartition_new [of 64 0] by auto
  from log_survives_reopen [OF p(2,3), of Wrote 5] p(1) show ?thesis by auto
qed

text \<open>C38: An append that fails after writing the length of the record and part of its data is a message of
  the log after a restart: no read returns it, until the next append fills the gap with zeros.\<close>

theorem torn_append_resurfaces:
  assumes "seg_holds s rs" and "clean s" and "seg_baseOff s < 2 ^ 64"
    and "seg_Append (Failed k) data s = (Inl ErrIO, s')" and "4 \<le> k" and "k < 4 + length data"
    and "seg_size s + 8 + length data + length data2 \<le> maxSize"
  shows "\<exists>t t'. OpenSegment wr created (seg_file s') base maxSize = Inr t \<and> seg_nextOff t = seg_nextOff s + 1 \<and>
    ReadAtSequential t (seg_size s) = None \<and>
    seg_Append Wrote data2 t = (Inr (seg_nextOff s + 1), t') \<and>
    map_option fst (ReadAtSequential t' (seg_size s)) = Some (take (k - 4) data @ replicate (4 + length data - k) 0)"
proof -
  have f: "seg_file s' = seg_file s @ take k (record_bytes data)" and len: "length data < 4294967296" and h: "seg_holds s' rs"
    and same: "seg_size s' = seg_size s" "seg_baseOff s' = seg_baseOff s"
    using torn_file [OF assms(1,2,4)] assms(4) by (auto simp: seg_Append_def split: if_splits)
  have size: "length (seg_file s) = seg_size s" "32 \<le> seg_size s"
    using assms(1,2) by (auto simp: clean_def seg_holds_def pos_of_def)
  have "be32_at (seg_file s @ take k (record_bytes data) @ []) (seg_size s) = Some (length data)"
    using size(1) assms(5) len by (rule be32_at_torn)
  then have b: "be32_at (seg_file s') (seg_size s) = Some (length data)" by (simp add: f)
  have lf: "length (seg_file s') = seg_size s + k" using assms(6) by (simp add: f size)
  have "\<exists>es. rebuild (seg_file s') (seg_baseOff s) (seg_size s) (length rs) (index_of (seg_baseOff s) rs) =
      (Suc (length rs), seg_size s + 4 + length data, es)"
    using b assms(6) lf by (simp add: rebuild.simps [of _ _ "seg_size s"] rebuild.simps [of _ _ "seg_size s + 4 + length data"] be32_at_end)
  then obtain es where open': "OpenSegment wr created (seg_file s') base maxSize =
      Inr \<lparr>seg_file = seg_file s', seg_size = seg_size s + 4 + length data, seg_maxSize = maxSize, seg_baseOff = seg_baseOff s,
          seg_nextOff = seg_baseOff s + Suc (length rs), seg_index = es, seg_frozen = False\<rparr>" (is "_ = Inr ?t")
    using OpenSegment_holds [OF h, of wr created base maxSize] assms(3) by (auto simp: same)
  have nx: "seg_nextOff ?t = seg_nextOff s + 1" using seg_holdsD(1) [OF assms(1)] by simp
  have r: "ReadAtSequential ?t (seg_size s) = None"
    using b lf assms(6) size(2) by (simp add: ReadAtSequential_def file_read_def SegmentHeaderLen_def)
  define file2 where "file2 = file_write (seg_file s') (seg_size s + 4 + length data) (record_bytes data2)"
  have fl: "file2 = seg_file s @ take k (record_bytes data) @ replicate (4 + length data - k) 0 @ record_bytes data2"
    using lf assms(6) by (simp add: file2_def file_write_def f size)
  obtain t' where app: "seg_Append Wrote data2 ?t = (Inr (seg_nextOff s + 1), t')"
    and t': "seg_file t' = file2" "seg_size t' = seg_size s + 4 + length data + (4 + length data2)"
    using assms(7) seg_holdsD(1) [OF assms(1)] by (auto simp: seg_Append_def file2_def index_Add_def Let_def)
  have "be32_at file2 (seg_size s) = Some (length data)"
    unfolding fl using size(1) assms(5) len by (rule be32_at_torn)
  moreover have "file_read file2 (seg_size s + 4) (length data) = Some (take (k - 4) data @ replicate (4 + length data - k) 0)"
    using assms(5,6) size(1) by (simp add: fl file_read_def record_bytes_def)
  ultimately have "map_option fst (ReadAtSequential t' (seg_size s)) = Some (take (k - 4) data @ replicate (4 + length data - k) 0)"
    using size(2) t' by (simp add: ReadAtSequential_def SegmentHeaderLen_def)
  with open' nx r app show ?thesis by blast
qed

theorem torn_append_resurfaces_witness:
  "\<exists>s s' t t'. OpenSegment Wrote 0 [] 0 100 = Inr s \<and> seg_Append (Failed 5) [1, 2] s = (Inl ErrIO, s') \<and>
    OpenSegment Wrote 0 (seg_file s') 0 100 = Inr t \<and> seg_nextOff t = 1 \<and>
    seg_Append Wrote [3] t = (Inr 1, t') \<and> map_option fst (ReadAtSequential t' 32) = Some [1, 0]"
proof -
  obtain s where s: "OpenSegment Wrote 0 [] 0 100 = Inr s" "clean s" "seg_size s = 32" "seg_nextOff s = 0" "seg_maxSize s = 100" "\<not> seg_frozen s"
    by (simp add: OpenSegment_def new_segment_def file_write_def clean_def SegmentHeaderLen_def)
  have h: "seg_holds s []" "seg_baseOff s = 0" using new_segment_holds [OF s(1)] by simp_all
  obtain s' where a: "seg_Append (Failed 5) [1, 2] s = (Inl ErrIO, s')" using s by (simp add: seg_Append_def)
  have c: "seg_baseOff s < 2 ^ 64" "(4::nat) \<le> 5" "5 < 4 + length [1, 2 :: byte]"
    "seg_size s + 8 + length [1, 2 :: byte] + length [3 :: byte] \<le> 100" using h s by simp_all
  obtain t t' where t: "OpenSegment Wrote 0 (seg_file s') 0 100 = Inr t" "seg_nextOff t = seg_nextOff s + 1"
    "seg_Append Wrote [3] t = (Inr (seg_nextOff s + 1), t')"
    "map_option fst (ReadAtSequential t' (seg_size s)) = Some (take (5 - 4) [1, 2] @ replicate (4 + length [1, 2 :: byte] - 5) 0)"
    using torn_append_resurfaces [OF h(1) s(2) c(1) a c(2-4), of Wrote 0 0] by blast
  with s a show ?thesis by auto
qed

end
