(* ===== verification/Topic_Manager.thy ===== *)
theory Topic_Manager
  imports Server Topics_Page Hot_Log
begin

text \<open>
  \<^verbatim>\<open>internal/broker/topic.go\<close> and \<^verbatim>\<open>murmur3.go\<close>: the topics of the broker, their metadata file, and the choice of a
  partition; the storage engine of \<^verbatim>\<open>internal/storage/hot/engine.go\<close>, which keeps the partitions that are
  open; and the handler that creates topics.  The map of topics is an association list with distinct
  names.  What the log of the broker, the file system and the clock do in a call is an argument.  The
  metadata file is replaced by a rename, so it holds either the old or the new list; transform
  pipelines are not written to it.
\<close>

section \<open>The storage engine\<close>

text \<open>\<open>disk\<close> gives the result of \<open>OpenPartition\<close> on the directory of a topic and a partition.\<close>

type_synonym hot_engine = "string \<times> nat \<Rightarrow> Partition option"

definition GetOrCreatePartition ::
  "(string \<times> nat \<Rightarrow> log_error + Partition) \<Rightarrow> string \<Rightarrow> nat \<Rightarrow> hot_engine \<Rightarrow> (log_error + Partition) \<times> hot_engine" where
  "GetOrCreatePartition disk topic partID e = (case e (topic, partID) of
     Some p \<Rightarrow> (Inr p, e)
   | None \<Rightarrow> (case disk (topic, partID) of
       Inl err \<Rightarrow> (Inl err, e) | Inr p \<Rightarrow> (Inr p, e((topic, partID) \<mapsto> p))))"

text \<open>The loops that open the partitions \<open>i\<close>, \<open>i + 1\<close> and so on; true when none failed.\<close>

fun open_partitions ::
  "(string \<times> nat \<Rightarrow> log_error + Partition) \<Rightarrow> string \<Rightarrow> nat \<Rightarrow> nat \<Rightarrow> hot_engine \<Rightarrow> bool \<times> hot_engine" where
  "open_partitions disk topic i 0 e = (True, e)"
| "open_partitions disk topic i (Suc n) e = (case GetOrCreatePartition disk topic i e of
     (Inl _, e) \<Rightarrow> (False, e) | (Inr _, e) \<Rightarrow> open_partitions disk topic (Suc i) n e)"

section \<open>Topics\<close>

record TopicConfig =
  tc_Name :: string
  tc_Mode :: topic_mode
  tc_Partitions :: nat
  tc_RetentionTime :: int
  tc_RetentionSize :: int
  tc_DLQTopic :: string
  tc_MaxRetries :: nat
  tc_DelaySupport :: bool
  tc_SchemaSubject :: string
  tc_SchemaEnforcement :: bool
  tc_PrioritySupport :: bool
  tc_DefaultTTL :: int
  tc_TTLAction :: string
  tc_TransformPipeline :: "nat option" \<comment> \<open>a pointer\<close>
  tc_CreatedAt :: string \<comment> \<open>formatted as RFC 3339\<close>

record TopicManager =
  tm_topics :: "(string \<times> TopicConfig) list"
  tm_meta :: "TopicConfig list option" \<comment> \<open>the metadata file\<close>
  tm_storage :: hot_engine
  tm_rrCounters :: "string \<Rightarrow> 64 word option"
  tm_maxTopics :: int
  tm_maxPartitions :: nat

datatype topic_error = TopicExists | MaximumTopics | NameLength | NameCharacter | NameStart | NoPartitions
  | TooManyPartitions | WALFailed | StorageFailed | SaveFailed | TopicNotFound

record topic_io =
  tio_now :: string
  tio_wal :: bool
  tio_disk :: "string \<times> nat \<Rightarrow> log_error + Partition"
  tio_save :: bool

definition tm_validateTopicName :: "string \<Rightarrow> topic_error option" where
  "tm_validateTopicName name =
     (if length name = 0 \<or> length name > 255 then Some NameLength
      else if \<not> list_all name_char name then Some NameCharacter
      else if name ! 0 = CHR ''.'' \<or> name ! 0 = CHR ''-'' then Some NameStart
      else None)"

definition persisted :: "TopicConfig \<Rightarrow> TopicConfig" where
  "persisted c = c\<lparr>tc_TransformPipeline := None\<rparr>"

definition saveMetadata :: "bool \<Rightarrow> TopicManager \<Rightarrow> topic_error option \<times> TopicManager" where
  "saveMetadata ok tm =
     (if ok then (None, tm\<lparr>tm_meta := Some (map (persisted \<circ> snd) (tm_topics tm))\<rparr>) else (Some SaveFailed, tm))"

definition CreateTopic :: "topic_io \<Rightarrow> TopicConfig \<Rightarrow> TopicManager \<Rightarrow> topic_error option \<times> TopicManager" where
  "CreateTopic io cfg tm =
     (if map_of (tm_topics tm) (tc_Name cfg) \<noteq> None then (Some TopicExists, tm)
      else if tm_maxTopics tm > 0 \<and> int (length (tm_topics tm)) \<ge> tm_maxTopics tm then (Some MaximumTopics, tm)
      else case tm_validateTopicName (tc_Name cfg) of Some err \<Rightarrow> (Some err, tm) | None \<Rightarrow>
      if tc_Partitions cfg = 0 then (Some NoPartitions, tm)
      else if tm_maxPartitions tm > 0 \<and> tc_Partitions cfg > tm_maxPartitions tm then (Some TooManyPartitions, tm)
      else let cfg = cfg\<lparr>tc_CreatedAt := tio_now io\<rparr> in
        if \<not> tio_wal io then (Some WALFailed, tm)
        else let (ok, e) = open_partitions (tio_disk io) (tc_Name cfg) 0 (tc_Partitions cfg) (tm_storage tm);
                 tm = tm\<lparr>tm_storage := e\<rparr>
          in if \<not> ok then (Some StorageFailed, tm)
             else saveMetadata (tio_save io) (tm\<lparr>tm_topics := tm_topics tm @ [(tc_Name cfg, cfg)]\<rparr>))"

definition tm_DeleteTopic :: "topic_io \<Rightarrow> string \<Rightarrow> TopicManager \<Rightarrow> topic_error option \<times> TopicManager" where
  "tm_DeleteTopic io name tm =
     (if map_of (tm_topics tm) name = None then (Some TopicNotFound, tm)
      else if \<not> tio_wal io then (Some WALFailed, tm)
      else saveMetadata (tio_save io)
        (tm\<lparr>tm_topics := filter (\<lambda>(n, _). n \<noteq> name) (tm_topics tm), tm_rrCounters := (tm_rrCounters tm)(name := None)\<rparr>))"

definition GetTopic :: "TopicManager \<Rightarrow> string \<Rightarrow> TopicConfig option" where
  "GetTopic tm name = map_of (tm_topics tm) name"

definition loadMetadata :: "TopicConfig list option \<Rightarrow> (string \<times> TopicConfig) list" where
  "loadMetadata meta = (case meta of None \<Rightarrow> []
     | Some cs \<Rightarrow> fold (\<lambda>c ts. AList.update (tc_Name c) c ts) cs [])"

text \<open>\<open>NewTopicManager\<close> opens every partition of every topic; \<open>None\<close> when one fails.\<close>

definition NewTopicManager ::
  "(string \<times> nat \<Rightarrow> log_error + Partition) \<Rightarrow> hot_engine \<Rightarrow> int \<Rightarrow> nat \<Rightarrow> TopicConfig list option \<Rightarrow> TopicManager option" where
  "NewTopicManager disk storage maxTopics maxPartitions meta =
     (let tmap = loadMetadata meta;
          (ok, e) = fold (\<lambda>(n, c) (ok, e). if ok then open_partitions disk (tc_Name c) 0 (tc_Partitions c) e else (ok, e)) tmap (True, storage)
      in if ok then Some \<lparr>tm_topics = tmap, tm_meta = meta, tm_storage = e, tm_rrCounters = (\<lambda>_. None),
           tm_maxTopics = maxTopics, tm_maxPartitions = maxPartitions\<rparr> else None)"

section \<open>The choice of a partition\<close>

definition rotl :: "nat \<Rightarrow> 32 word \<Rightarrow> 32 word" where
  "rotl n w = push_bit n w OR drop_bit (32 - n) w"

definition murmur_c1 :: "32 word" where "murmur_c1 = 0xcc9e2d51"
definition murmur_c2 :: "32 word" where "murmur_c2 = 0x1b873593"

definition murmur_k :: "32 word \<Rightarrow> 32 word" where
  "murmur_k k = rotl 15 (k * murmur_c1) * murmur_c2"

fun murmur_blocks :: "bytes \<Rightarrow> 32 word \<Rightarrow> 32 word \<times> bytes" where
  "murmur_blocks (a # b # c # d # bs) h =
     (let h = rotl 13 (h XOR murmur_k (be_get [d, c, b, a])) in murmur_blocks bs (h * 5 + 0xe6546b64))"
| "murmur_blocks bs h = (h, bs)"

fun murmur_tail :: "bytes \<Rightarrow> 32 word" where
  "murmur_tail [a, b, c] = push_bit 16 (ucast c) XOR push_bit 8 (ucast b) XOR ucast a"
| "murmur_tail [a, b] = push_bit 8 (ucast b) XOR ucast a"
| "murmur_tail [a] = ucast a"
| "murmur_tail _ = 0"

definition murmur_mix :: "32 word \<Rightarrow> 32 word" where
  "murmur_mix h = (let h = (h XOR drop_bit 16 h) * 0x85ebca6b; h = (h XOR drop_bit 13 h) * 0xc2b2ae35 in h XOR drop_bit 16 h)"

definition murmur3Hash :: "bytes \<Rightarrow> 32 word" where
  "murmur3Hash data = (let (h, tail) = murmur_blocks data 0;
       h = (if tail = [] then h else h XOR murmur_k (murmur_tail tail))
     in murmur_mix (h XOR word_of_nat (length data)))"

text \<open>The result of the counter is cut to 32 bits before the remainder is taken.\<close>

definition roundRobinPartition :: "string \<Rightarrow> 32 word \<Rightarrow> TopicManager \<Rightarrow> 32 word \<times> TopicManager" where
  "roundRobinPartition topic count tm =
     (let c = (case tm_rrCounters tm topic of Some c \<Rightarrow> c | None \<Rightarrow> 0) + 1
      in (ucast (c - 1) mod count, tm\<lparr>tm_rrCounters := (tm_rrCounters tm)(topic \<mapsto> c)\<rparr>))"

definition ResolvePartition :: "string \<Rightarrow> string \<Rightarrow> 32 word \<Rightarrow> TopicManager \<Rightarrow> 32 word \<times> TopicManager" where
  "ResolvePartition topic routingKey count tm =
     (if routingKey = '''' then roundRobinPartition topic count tm
      else (murmur3Hash (str_bytes routingKey) mod count, tm))"

section \<open>The handler\<close>

text \<open>Decoding the body: absent fields and nulls are zero values, other types are errors.  Keys are
  matched exactly.\<close>

definition dec_string :: "(string \<times> json) list \<Rightarrow> string \<Rightarrow> string option" where
  "dec_string kvs k = (case map_of kvs k of None \<Rightarrow> Some '''' | Some JNull \<Rightarrow> Some '''' | Some (JStr s) \<Rightarrow> Some s | _ \<Rightarrow> None)"

definition dec_uint32 :: "(string \<times> json) list \<Rightarrow> string \<Rightarrow> nat option" where
  "dec_uint32 kvs k = (case map_of kvs k of None \<Rightarrow> Some 0 | Some JNull \<Rightarrow> Some 0
     | Some (JNum n) \<Rightarrow> if 0 \<le> n \<and> n < 2 ^ 32 then Some (nat n) else None | _ \<Rightarrow> None)"

record create_request =
  cr_Name :: string
  cr_Mode :: string
  cr_Partitions :: nat
  cr_DLQTopic :: string
  cr_MaxRetries :: nat

definition request_body :: "init_obj \<Rightarrow> json option" where
  "request_body i = (case map_of i ''body'' of Some (Str s) \<Rightarrow> JSON_parse s | _ \<Rightarrow> None)"

definition decode_create :: "init_obj \<Rightarrow> create_request option" where
  "decode_create i = (case request_body i of
     Some (JObj kvs) \<Rightarrow>
       (case (dec_string kvs ''name'', dec_string kvs ''mode'', dec_uint32 kvs ''partitions'', dec_string kvs ''retention_time'',
              dec_string kvs ''dlq_topic'', dec_uint32 kvs ''max_retries'') of
          (Some n, Some m, Some ps, Some _, Some d, Some r) \<Rightarrow>
            Some \<lparr>cr_Name = n, cr_Mode = m, cr_Partitions = ps, cr_DLQTopic = d, cr_MaxRetries = r\<rparr>
        | _ \<Rightarrow> None)
   | Some JNull \<Rightarrow> Some \<lparr>cr_Name = '''', cr_Mode = '''', cr_Partitions = 0, cr_DLQTopic = '''', cr_MaxRetries = 0\<rparr>
   | _ \<Rightarrow> None)"

definition request_mode :: "string \<Rightarrow> topic_mode" where
  "request_mode m = (if m = ''stream'' then ModeStream else if m = ''queue'' then ModeQueue else ModeUnified)"

text \<open>\<open>defaultPartitions\<close> and \<open>maxPartitions\<close> come from the configuration; \<open>err_text\<close> is the message of an error.\<close>

definition handleCreateTopic ::
  "(topic_error \<Rightarrow> string) \<Rightarrow> nat \<Rightarrow> nat \<Rightarrow> topic_io \<Rightarrow> init_obj \<Rightarrow> TopicManager option \<Rightarrow> fetch_outcome \<times> TopicManager option" where
  "handleCreateTopic err_text defaultPartitions maxPartitions io i tmo = (case tmo of
     None \<Rightarrow> (writeError 503 ''topic manager not available'', None)
   | Some tm \<Rightarrow> (case decode_create i of
       None \<Rightarrow> (writeError 400 ''invalid request body'', Some tm)
     | Some req \<Rightarrow>
         if \<not> validateTopicName (cr_Name req) then (writeError 400 ''invalid topic name'', Some tm)
         else let ps = (if cr_Partitions req = 0 then defaultPartitions else cr_Partitions req) in
           if maxPartitions > 0 \<and> ps > maxPartitions then (writeError 400 ''partitions exceed maximum'', Some tm)
           else let cfg = \<lparr>tc_Name = cr_Name req, tc_Mode = request_mode (cr_Mode req), tc_Partitions = ps,
                  tc_RetentionTime = 0, tc_RetentionSize = 0, tc_DLQTopic = cr_DLQTopic req, tc_MaxRetries = cr_MaxRetries req,
                  tc_DelaySupport = False, tc_SchemaSubject = '''', tc_SchemaEnforcement = False, tc_PrioritySupport = False,
                  tc_DefaultTTL = 0, tc_TTLAction = '''', tc_TransformPipeline = None, tc_CreatedAt = ''''\<rparr>
             in (case CreateTopic io cfg tm of
                   (Some err, tm) \<Rightarrow> (writeError 409 (err_text err), Some tm)
                 | (None, tm) \<Rightarrow> (writeJSON 201 (JObj [(''mode'', JStr (cr_Mode req)), (''name'', JStr (cr_Name req)),
                      (''partitions'', JNum (int ps))]), Some tm))))"

section \<open>Lemmas\<close>

lemma name_plain_seg: "name_regex n \<Longrightarrow> n \<notin> {''.'', ''..''} \<Longrightarrow> plain_seg n"
  using name_regex_chars name_char_not_special by (fastforce simp: plain_seg_def name_regex_def)

lemma http_name_ok:
  assumes "name_regex n" and "length n \<le> 128"
  shows "validateTopicName n \<longleftrightarrow> (\<nexists>ps ss. n = ps @ ''..'' @ ss)"
proof -
  have "\<not> list_ex (\<lambda>c. c \<in> {CHR ''/'', CHR 0x5C, CHR 0x0D, CHR 0x0A}) n"
    using name_regex_chars [OF assms(1)] name_char_not_special by (fastforce simp: list_ex_iff)
  then show ?thesis using assms by (simp add: validateTopicName_def str_includes_iff name_regex_def)
qed

lemma broker_name_ok:
  assumes "name_regex n" and "length n \<le> 128"
  shows "tm_validateTopicName n = None \<longleftrightarrow> hd n \<noteq> CHR ''.'' \<and> hd n \<noteq> CHR ''-''"
  using assms by (auto simp: tm_validateTopicName_def name_regex_def hd_conv_nth)

lemma submitted_values:
  assumes "zod_ok z" and "Call c \<in> set (create_submit z s)"
  shows "name_regex (tf_name (form s))" "length (tf_name (form s)) \<le> 128"
    "tf_mode (form s) \<in> {''unified'', ''stream'', ''queue''}"
    "\<exists>p. tf_partitions (form s) = Some p \<and> 1 \<le> num_val p \<and> num_val p \<le> 256 \<and>
      c = createTopic (tf_name (form s)) (tf_mode (form s)) (number_json p)"
  using assms zod_okD [OF assms(1)]
  by (auto simp: create_submit_def topicSchema_def topic_name_checks_def create_mutationFn_def split: if_splits)

text \<open>The managers that occur: one entry for a name, under the name of its configuration.\<close>

definition topics_wf :: "TopicManager \<Rightarrow> bool" where
  "topics_wf tm \<longleftrightarrow> distinct (map fst (tm_topics tm)) \<and> list_all (\<lambda>(n, c). tc_Name c = n) (tm_topics tm)"

lemma map_of_filter_neq: "map_of (filter (\<lambda>(n, _). n \<noteq> k) ts) = (map_of ts)(k := None)"
  by (induction ts) auto

lemma map_fst_filter_distinct: "distinct (map fst ts) \<Longrightarrow> distinct (map fst (filter P ts))"
  by (induction ts) auto

lemma topics_wf_append:
  "topics_wf tm \<Longrightarrow> map_of (tm_topics tm) (tc_Name c) = None \<Longrightarrow> topics_wf (tm\<lparr>tm_topics := tm_topics tm @ [(tc_Name c, c)]\<rparr>)"
  by (auto simp: topics_wf_def map_of_eq_None_iff)

lemma saveMetadata_topics [simp]:
  "tm_topics (snd (saveMetadata ok tm)) = tm_topics tm" "tm_storage (snd (saveMetadata ok tm)) = tm_storage tm"
  "topics_wf (snd (saveMetadata ok tm)) = topics_wf tm"
  by (simp_all add: saveMetadata_def topics_wf_def)

lemma update_fresh: "k \<notin> fst ` set xs \<Longrightarrow> AList.update k v xs = xs @ [(k, v)]"
  by (induction xs) auto

lemma load_fresh:
  "distinct (map fst ts @ map tc_Name cs) \<Longrightarrow> fold (\<lambda>c. AList.update (tc_Name c) c) cs ts = ts @ map (\<lambda>c. (tc_Name c, c)) cs"
  by (induction cs arbitrary: ts) (auto simp: update_fresh)

lemma persisted_name [simp]: "tc_Name (persisted c) = tc_Name c"
  by (simp add: persisted_def)

text \<open>What is saved is what is loaded.\<close>

lemma load_saved:
  assumes "topics_wf tm"
  shows "loadMetadata (Some (map (persisted \<circ> snd) (tm_topics tm))) = map (\<lambda>(n, c). (n, persisted c)) (tm_topics tm)"
proof -
  have names: "map tc_Name (map (persisted \<circ> snd) (tm_topics tm)) = map fst (tm_topics tm)"
    using assms by (auto simp: topics_wf_def list_all_iff)
  have "distinct (map fst [] @ map tc_Name (map (persisted \<circ> snd) (tm_topics tm)))"
    unfolding names using assms by (simp add: topics_wf_def)
  from load_fresh [OF this] have "loadMetadata (Some (map (persisted \<circ> snd) (tm_topics tm))) =
      map (\<lambda>c. (tc_Name c, c)) (map (persisted \<circ> snd) (tm_topics tm))"
    by (simp add: loadMetadata_def)
  also have "\<dots> = map (\<lambda>(n, c). (n, persisted c)) (tm_topics tm)"
    using assms by (auto simp: topics_wf_def list_all_iff)
  finally show ?thesis .
qed

lemma map_of_persisted: "map_of (map (\<lambda>(n, c). (n, persisted c)) ts) n = map_option persisted (map_of ts n)"
  by (induction ts) auto

text \<open>The metadata file gives the topics that are listed, but for their pipelines.\<close>

definition in_sync :: "TopicManager \<Rightarrow> bool" where
  "in_sync tm \<longleftrightarrow> (\<forall>n. map_of (loadMetadata (tm_meta tm)) n = map_option persisted (map_of (tm_topics tm) n))"

lemma saveMetadata_sync: "topics_wf tm \<Longrightarrow> in_sync (snd (saveMetadata True tm))"
  by (simp add: saveMetadata_def in_sync_def load_saved map_of_persisted)

lemma CreateTopic_wf: "topics_wf tm \<Longrightarrow> topics_wf (snd (CreateTopic io cfg tm))"
  using topics_wf_append [of "tm\<lparr>tm_storage := e\<rparr>" "cfg\<lparr>tc_CreatedAt := tio_now io\<rparr>" for e]
  by (auto simp: CreateTopic_def Let_def topics_wf_def split: option.split prod.split)

lemma DeleteTopic_wf: "topics_wf tm \<Longrightarrow> topics_wf (snd (tm_DeleteTopic io name tm))"
  by (auto simp: tm_DeleteTopic_def topics_wf_def map_fst_filter_distinct list_all_iff)

lemma open_partitions_ok:
  assumes "\<And>i. \<exists>p. disk (topic, i) = Inr p"
  shows "\<exists>e'. open_partitions disk topic i k e = (True, e')"
proof (induction k arbitrary: i e)
  case (Suc k)
  obtain p where p: "disk (topic, i) = Inr p" using assms by blast
  with Suc.IH show ?case by (cases "e (topic, i)") (simp_all add: GetOrCreatePartition_def)
qed simp

lemma open_partitions_keeps: "open_partitions disk topic i k e = (ok, e') \<Longrightarrow> e q = Some p \<Longrightarrow> e' q = Some p"
proof (induction k arbitrary: i e)
  case (Suc k)
  then show ?case
  proof (cases "e (topic, i)")
    case None
    with Suc.prems obtain x where "open_partitions disk topic (Suc i) k (e((topic, i) \<mapsto> x)) = (ok, e') \<or> e' = e"
      by (auto simp: GetOrCreatePartition_def split: sum.splits)
    moreover have "(e((topic, i) \<mapsto> x)) q = Some p" using None Suc.prems(2) by auto
    ultimately show ?thesis using Suc.IH Suc.prems(2) by blast
  qed (auto simp: GetOrCreatePartition_def)
qed simp

lemma NewTopicManager_topics:
  "NewTopicManager disk storage mt mp meta = Some tm \<Longrightarrow> GetTopic tm n = map_of (loadMetadata meta) n"
  by (auto simp: NewTopicManager_def GetTopic_def Let_def split: prod.splits if_splits)

datatype topic_op = TCreate topic_io TopicConfig | TDelete topic_io string

fun topic_call :: "topic_op \<Rightarrow> TopicManager \<Rightarrow> topic_error option \<times> TopicManager" where
  "topic_call (TCreate io cfg) tm = CreateTopic io cfg tm"
| "topic_call (TDelete io name) tm = tm_DeleteTopic io name tm"

lemma topic_call_wf: "topics_wf tm \<Longrightarrow> topics_wf (snd (topic_call op tm))"
  by (cases op) (simp_all add: CreateTopic_wf DeleteTopic_wf)

lemma save_done: "saveMetadata ok tm = (None, tm') \<Longrightarrow> tm' = snd (saveMetadata True tm)"
  by (simp add: saveMetadata_def split: if_splits)

lemma topic_call_saves: "topic_call op tm = (None, tm') \<Longrightarrow> \<exists>tm0. tm' = snd (saveMetadata True tm0)"
  by (cases op) (auto simp: CreateTopic_def tm_DeleteTopic_def Let_def
      dest!: save_done split: if_splits option.splits prod.splits)

lemma topic_call_fails:
  "topic_call op tm = (Some err, tm') \<Longrightarrow> tm_meta tm' = tm_meta tm \<and> (err \<noteq> SaveFailed \<longrightarrow> tm_topics tm' = tm_topics tm)"
  by (cases op) (auto simp: CreateTopic_def tm_DeleteTopic_def saveMetadata_def tm_validateTopicName_def Let_def
      split: if_splits option.splits prod.splits)

lemma create_fails_listed:
  "CreateTopic io cfg tm = (Some SaveFailed, tm') \<Longrightarrow> map_of (tm_topics tm) (tc_Name cfg) = None \<and> GetTopic tm' (tc_Name cfg) \<noteq> None"
  by (auto simp: CreateTopic_def saveMetadata_def tm_validateTopicName_def GetTopic_def Let_def map_add_def split: if_splits option.splits prod.splits)

text \<open>C11: A creation or deletion that reports success is in the metadata file: a broker started from it has
  exactly the listed topics, but for their pipelines.  A call that reports an error leaves the file and, unless it was
  the write of the file that failed, the topics as they were; when that write failed, a created topic is
  listed although its creator was told it does not exist, and is gone after a restart.\<close>

theorem topics_survive_restart:
  assumes "topics_wf tm"
  shows "case topic_call op tm of
      (None, tm') \<Rightarrow> topics_wf tm' \<and> (\<forall>disk storage mt mp tm2. NewTopicManager disk storage mt mp (tm_meta tm') = Some tm2 \<longrightarrow>
        (\<forall>n. GetTopic tm2 n = map_option persisted (GetTopic tm' n)))
    | (Some err, tm') \<Rightarrow> topics_wf tm' \<and> tm_meta tm' = tm_meta tm \<and> (err \<noteq> SaveFailed \<longrightarrow> tm_topics tm' = tm_topics tm) \<and>
        (\<forall>io cfg disk storage mt mp tm2. err = SaveFailed \<longrightarrow> op = TCreate io cfg \<longrightarrow> in_sync tm \<longrightarrow>
          NewTopicManager disk storage mt mp (tm_meta tm') = Some tm2 \<longrightarrow>
          GetTopic tm' (tc_Name cfg) \<noteq> None \<and> GetTopic tm2 (tc_Name cfg) = None)"
proof (cases "topic_call op tm")
  case (Pair res tm')
  have wf: "topics_wf tm'" using topic_call_wf [OF assms, of op] Pair by simp
  show ?thesis
  proof (cases res)
    case None
    then obtain tm0 where "tm' = snd (saveMetadata True tm0)" using topic_call_saves Pair by blast
    with wf have "in_sync tm'" by (simp add: saveMetadata_sync)
    with wf None Pair show ?thesis by (auto simp: in_sync_def GetTopic_def [of tm'] NewTopicManager_topics)
  next
    case (Some err)
    with Pair topic_call_fails [of op tm err tm'] wf show ?thesis
      by (auto simp: NewTopicManager_topics in_sync_def dest!: create_fails_listed)
  qed
qed

definition io_fine :: topic_io where
  "io_fine = \<lparr>tio_now = ''2024-01-01T00:00:00Z'', tio_wal = True, tio_disk = (\<lambda>_. OpenPartition Wrote 0 1024 []), tio_save = True\<rparr>"

definition tm_empty :: TopicManager where
  "tm_empty = \<lparr>tm_topics = [], tm_meta = None, tm_storage = (\<lambda>_. None), tm_rrCounters = (\<lambda>_. None), tm_maxTopics = 0, tm_maxPartitions = 0\<rparr>"

definition cfg_ex :: TopicConfig where
  "cfg_ex = \<lparr>tc_Name = ''orders'', tc_Mode = ModeQueue, tc_Partitions = 1,
     tc_RetentionTime = 0, tc_RetentionSize = 0, tc_DLQTopic = '''', tc_MaxRetries = 0,
     tc_DelaySupport = False, tc_SchemaSubject = '''', tc_SchemaEnforcement = False, tc_PrioritySupport = False,
     tc_DefaultTTL = 0, tc_TTLAction = '''', tc_TransformPipeline = None, tc_CreatedAt = ''''\<rparr>"

lemma tm_empty_wf: "topics_wf tm_empty" "in_sync tm_empty"
  by (simp_all add: topics_wf_def tm_empty_def in_sync_def loadMetadata_def)

lemma fine_partition: "\<exists>p. OpenPartition Wrote 0 1024 [] = Inr p \<and> part_holds p 0 []"
  using OpenPartition_new [of 1024 0] by auto

lemma create_ex: "CreateTopic (io_fine\<lparr>tio_save := ok\<rparr>) cfg_ex tm_empty =
    saveMetadata ok (tm_empty\<lparr>tm_topics := [(''orders'', cfg_ex\<lparr>tc_CreatedAt := ''2024-01-01T00:00:00Z''\<rparr>)],
      tm_storage := [(''orders'', 0) \<mapsto> projr (OpenPartition Wrote 0 1024 [])]\<rparr>)"
  using fine_partition
  by (auto simp: CreateTopic_def tm_empty_def cfg_ex_def io_fine_def tm_validateTopicName_def name_char_def GetOrCreatePartition_def Let_def)

lemma restart_empty: "NewTopicManager (tio_disk io_fine) (\<lambda>_. None) 0 0 None = Some tm_empty"
  by (simp add: NewTopicManager_def loadMetadata_def tm_empty_def)

lemma restart_one: "\<exists>tm. NewTopicManager (tio_disk io_fine) (\<lambda>_. None) 0 0 (Some [cfg]) = Some tm"
proof -
  obtain e where "open_partitions (tio_disk io_fine) (tc_Name cfg) 0 (tc_Partitions cfg) (\<lambda>_. None) = (True, e)"
    using open_partitions_ok [of "tio_disk io_fine" "tc_Name cfg" 0 "tc_Partitions cfg" "\<lambda>_. None"] fine_partition
    by (auto simp: io_fine_def)
  then show ?thesis by (simp add: NewTopicManager_def loadMetadata_def)
qed

theorem topics_survive_restart_witness:
  "(\<exists>tm' tm2. topic_call (TCreate io_fine cfg_ex) tm_empty = (None, tm') \<and>
      NewTopicManager (tio_disk io_fine) (\<lambda>_. None) 0 0 (tm_meta tm') = Some tm2 \<and>
      GetTopic tm2 ''orders'' = map_option persisted (GetTopic tm' ''orders'')) \<and>
   (\<exists>tm'. topic_call (TCreate (io_fine\<lparr>tio_save := False\<rparr>) cfg_ex) tm_empty = (Some SaveFailed, tm') \<and>
      GetTopic tm' ''orders'' \<noteq> None \<and> GetTopic tm_empty ''orders'' = None)"
proof (intro conjI)
  obtain tm' where c: "topic_call (TCreate io_fine cfg_ex) tm_empty = (None, tm')" "\<exists>cfg. tm_meta tm' = Some [cfg]"
    using create_ex [of True] by (simp add: saveMetadata_def io_fine_def)
  then obtain tm2 where n: "NewTopicManager (tio_disk io_fine) (\<lambda>_. None) 0 0 (tm_meta tm') = Some tm2"
    using restart_one by metis
  with c topics_survive_restart [OF tm_empty_wf(1), of "TCreate io_fine cfg_ex"]
  show "\<exists>tm' tm2. topic_call (TCreate io_fine cfg_ex) tm_empty = (None, tm') \<and>
      NewTopicManager (tio_disk io_fine) (\<lambda>_. None) 0 0 (tm_meta tm') = Some tm2 \<and>
      GetTopic tm2 ''orders'' = map_option persisted (GetTopic tm' ''orders'')" by auto
next
  obtain tm' where c: "topic_call (TCreate (io_fine\<lparr>tio_save := False\<rparr>) cfg_ex) tm_empty = (Some SaveFailed, tm')"
    using create_ex [of False] by (simp add: saveMetadata_def)
  have name: "tc_Name cfg_ex = ''orders''" by (simp add: cfg_ex_def)
  have m: "tm_meta tm' = None"
    using topics_survive_restart [OF tm_empty_wf(1), of "TCreate (io_fine\<lparr>tio_save := False\<rparr>) cfg_ex"] c by (simp add: tm_empty_def)
  with topics_survive_restart [OF tm_empty_wf(1), of "TCreate (io_fine\<lparr>tio_save := False\<rparr>) cfg_ex"] c restart_empty tm_empty_wf(2) name
  show "\<exists>tm'. topic_call (TCreate (io_fine\<lparr>tio_save := False\<rparr>) cfg_ex) tm_empty = (Some SaveFailed, tm') \<and>
      GetTopic tm' ''orders'' \<noteq> None \<and> GetTopic tm_empty ''orders'' = None" by auto
qed

text \<open>Of the names the topic form lets through, the server and the broker behind it accept exactly those without
  two dots in a row that begin with neither a dot nor a hyphen, and the requests for the details and the deletion of each
  such topic reach their handlers with its name: what the dashboard can create it can show and delete.\<close>

theorem topic_names_accepted:
  assumes "zod_ok z" and "Call c \<in> set (create_submit z s)" and "n = tf_name (form s)"
  shows "(validateTopicName n \<and> tm_validateTopicName n = None \<longleftrightarrow>
      (\<nexists>ps ss. n = ps @ ''..'' @ ss) \<and> hd n \<noteq> CHR ''.'' \<and> hd n \<noteq> CHR ''-'') \<and>
    (tm_validateTopicName n = None \<longrightarrow> route_of (getTopicDetail n) = Some (''/v1/topics/{name}'', [n]) \<and>
      route_of (deleteTopic n) = Some (''/v1/topics/{name}'', [n]))"
proof -
  note n = submitted_values(1,2) [OF assms(1,2), folded assms(3)]
  have "plain_seg n" if "hd n \<noteq> CHR ''.''" using that by (intro name_plain_seg n) auto
  then show ?thesis by (auto simp: http_name_ok [OF n] broker_name_ok [OF n] route_getTopicDetail route_deleteTopic)
qed

theorem topic_names_accepted_witness:
  "Call (createTopic ''a.b'' ''unified'' (JNum 8)) \<in> set (create_submit zod_doc topics_form_ex) \<and>
   route_of (deleteTopic ''a.b'') = Some (''/v1/topics/{name}'', [''a.b''])"
proof -
  have c: "Call (createTopic ''a.b'' ''unified'' (JNum 8)) \<in> set (create_submit zod_doc topics_form_ex)" by code_simp
  have f: "''a.b'' = tf_name (form topics_form_ex)" by code_simp
  have "tm_validateTopicName ''a.b'' = None" by code_simp
  with topic_names_accepted [OF zod_doc_ok c f] c show ?thesis by blast
qed

text \<open>The answer to a submitted form, and the broker after it.\<close>

lemma sent_create:
  "decode_create (fetch_options st (Some (call_init (createTopic n m (JNum k))))) =
    (if 0 \<le> k \<and> k < 2 ^ 32 then Some \<lparr>cr_Name = n, cr_Mode = m, cr_Partitions = nat k, cr_DLQTopic = '''', cr_MaxRetries = 0\<rparr> else None)"
proof -
  let ?v = "JObj [(''name'', JStr n), (''mode'', JStr m), (''partitions'', JNum k)]"
  have "map_of (fetch_options st (Some (call_init (createTopic n m (JNum k))))) ''body'' = Some (Str (JSON_stringify ?v))"
    by (subst verb_sent_other, rule typed_verb_calls, simp) (simp add: createTopic_def api_post_def json_body_def)
  moreover have "JSON_parse (JSON_stringify ?v) = Some ?v" by (rule JSON_parse_stringify) simp
  ultimately have "request_body (fetch_options st (Some (call_init (createTopic n m (JNum k))))) = Some ?v"
    by (simp only: request_body_def option.case init_val.case)
  then show ?thesis by (simp add: decode_create_def dec_string_def dec_uint32_def)
qed

definition room_for :: "string \<Rightarrow> nat \<Rightarrow> TopicManager \<Rightarrow> bool" where
  "room_for n k tm \<longleftrightarrow> GetTopic tm n = None \<and> (tm_maxTopics tm > 0 \<longrightarrow> int (length (tm_topics tm)) < tm_maxTopics tm) \<and>
     (tm_maxPartitions tm > 0 \<longrightarrow> k \<le> tm_maxPartitions tm)"

definition io_succeeds :: "topic_io \<Rightarrow> string \<Rightarrow> bool" where
  "io_succeeds io n \<longleftrightarrow> tio_wal io \<and> tio_save io \<and> (\<forall>i. \<exists>p. tio_disk io (n, i) = Inr p)"

lemma CreateTopic_ok:
  assumes "room_for (tc_Name cfg) (tc_Partitions cfg) tm" and "io_succeeds io (tc_Name cfg)"
    and "tm_validateTopicName (tc_Name cfg) = None" and "0 < tc_Partitions cfg"
  shows "\<exists>tm'. CreateTopic io cfg tm = (None, tm') \<and> tm_topics tm' = tm_topics tm @ [(tc_Name cfg, cfg\<lparr>tc_CreatedAt := tio_now io\<rparr>)]"
proof -
  obtain e where "open_partitions (tio_disk io) (tc_Name cfg) 0 (tc_Partitions cfg) (tm_storage tm) = (True, e)"
    using open_partitions_ok [of "tio_disk io" "tc_Name cfg"] assms(2) unfolding io_succeeds_def by blast
  with assms show ?thesis
    by (auto simp: CreateTopic_def room_for_def GetTopic_def io_succeeds_def saveMetadata_def Let_def)
qed

text \<open>\<open>ListTopics\<close> gives the topics in some order of the map.\<close>

definition listed_as :: "TopicConfig \<Rightarrow> broker_topic" where
  "listed_as c = \<lparr>bt_name = tc_Name c, bt_mode = tc_Mode c, bt_partitions = tc_Partitions c, bt_created_at = tc_CreatedAt c\<rparr>"

definition ListTopics_order :: "TopicManager \<Rightarrow> broker_topic list \<Rightarrow> bool" where
  "ListTopics_order tm ts \<longleftrightarrow> length ts = length (tm_topics tm) \<and> set ts = listed_as ` snd ` set (tm_topics tm)"

lemma pagination_of_topics: "parsePagination (fetch_url (call_path (getTopics 1000 0))) = (1000, 0)"
  by code_simp

lemma decode_topic_info:
  "decode_TopicInfo (topic_info_json t) =
     Some \<lparr>ti_name = bt_name t, ti_mode = mode_str (bt_mode t), ti_partitions = int (bt_partitions t), ti_created_at = bt_created_at t\<rparr>"
  by (simp add: decode_TopicInfo_def topic_info_json_def field_def)

lemma decode_topic_list: "as_arr decode_TopicInfo (JArr (map topic_info_json xs)) = Some (map (\<lambda>t. \<lparr>ti_name = bt_name t,
      ti_mode = mode_str (bt_mode t), ti_partitions = int (bt_partitions t), ti_created_at = bt_created_at t\<rparr>) xs)"
  by (induction xs) (simp_all add: decode_topic_info)

lemma topic_list_answer:
  assumes "bv_topics b = Some ts"
  shows "perform st (serve (admin b other)) topics_queryFn = Inr (JArr (map topic_info_json (take 1000 ts)))"
proof -
  have m: "init_method (call_init (getTopics 1000 0)) = ''GET''"
    by (simp add: init_method_def call_defs verb_defs)
  then show ?thesis
    using perform_serve [OF _ fixed_routes(2) [of 1000 0], of "admin b other"] assms
    by (simp add: topics_queryFn_def admin_def m handleListTopics_def pagination_of_topics paginate_first writeJSON_def res_ok_def)
qed

lemma mode_str_request_mode: "m \<in> {''unified'', ''stream'', ''queue''} \<Longrightarrow> mode_str (request_mode m) = m"
  by (auto simp: request_mode_def)

text \<open>C2: A topic submitted through the form, with a name that broker and server accept and that is not taken, a whole
  number of partitions within the limits and no failing disk, is created: the request succeeds, and the
  list the page loads next, of at most a thousand topics in whatever order, has the topic with the name, the mode and
  the number of partitions that were entered, while all topics of before are still there.\<close>

theorem create_then_listed:
  assumes "zod_ok z" and "Call c \<in> set (create_submit z s)" and "tf_partitions (form s) = Some p" and "num_val p = of_nat k"
    and "validateTopicName (tf_name (form s))" and "tm_validateTopicName (tf_name (form s)) = None"
    and "room_for (tf_name (form s)) k tm" and "io_succeeds io (tf_name (form s))" and "limit > 0 \<longrightarrow> k \<le> limit"
    and "\<And>vals u i. handle ''POST'' ''/v1/topics'' vals u i = fst (handleCreateTopic err_text dflt limit io i (Some tm))"
  shows "\<exists>tm'. perform st (serve handle) c = Inr (JObj [(''mode'', JStr (tf_mode (form s))), (''name'', JStr (tf_name (form s))), (''partitions'', JNum (int k))]) \<and>
    snd (handleCreateTopic err_text dflt limit io (fetch_options st (Some (call_init c))) (Some tm)) = Some tm' \<and>
    (\<forall>n' cfg. GetTopic tm n' = Some cfg \<longrightarrow> GetTopic tm' n' = Some cfg) \<and>
    (\<forall>b ts other. bv_topics b = Some ts \<longrightarrow> ListTopics_order tm' ts \<longrightarrow> length ts \<le> 1000 \<longrightarrow>
      (\<exists>v tis ti. perform st (serve (admin b other)) topics_queryFn = Inr v \<and> as_arr decode_TopicInfo v = Some tis \<and> ti \<in> set tis \<and>
         ti_name ti = tf_name (form s) \<and> ti_mode ti = tf_mode (form s) \<and> ti_partitions ti = int k))"
proof -
  let ?n = "tf_name (form s)" and ?m = "tf_mode (form s)"
  note sub = submitted_values [OF assms(1,2)]
  have k: "1 \<le> k" "k \<le> 256" using sub(4) assms(3,4) by simp_all
  have c: "c = createTopic ?n ?m (JNum (int k))"
    using sub(4) assms(3) number_json_def [of p] assms(4) by (simp add: floor_of_nat)
  define cfg where "cfg = \<lparr>tc_Name = ?n, tc_Mode = request_mode ?m, tc_Partitions = k,
     tc_RetentionTime = 0, tc_RetentionSize = 0, tc_DLQTopic = '''', tc_MaxRetries = 0,
     tc_DelaySupport = False, tc_SchemaSubject = '''', tc_SchemaEnforcement = False, tc_PrioritySupport = False,
     tc_DefaultTTL = 0, tc_TTLAction = '''', tc_TransformPipeline = None, tc_CreatedAt = ''''\<rparr>"
  obtain tm' where tm': "CreateTopic io cfg tm = (None, tm')"
    "tm_topics tm' = tm_topics tm @ [(?n, cfg\<lparr>tc_CreatedAt := tio_now io\<rparr>)]"
    using CreateTopic_ok [of cfg tm io] assms(6-8) k(1) by (auto simp: cfg_def)
  have h: "handleCreateTopic err_text dflt limit io (fetch_options st (Some (call_init c))) (Some tm) =
      (writeJSON 201 (JObj [(''mode'', JStr ?m), (''name'', JStr ?n), (''partitions'', JNum (int k))]), Some tm')"
    using k assms(5,9) tm'(1) by (auto simp: handleCreateTopic_def c sent_create cfg_def)
  have m: "init_method (call_init c) = ''POST''" by (simp add: c init_method_def createTopic_def api_post_def)
  have "perform st (serve handle) c = Inr (JObj [(''mode'', JStr ?m), (''name'', JStr ?n), (''partitions'', JNum (int k))])"
    using perform_serve [of c "''/v1/topics''" "[]" handle st] fixed_routes(3) h m
    by (simp add: c assms(10) writeJSON_def res_ok_def)
  moreover have "\<exists>v tis ti. perform st (serve (admin b other)) topics_queryFn = Inr v \<and> as_arr decode_TopicInfo v = Some tis \<and> ti \<in> set tis \<and>
         ti_name ti = ?n \<and> ti_mode ti = ?m \<and> ti_partitions ti = int k"
    if "bv_topics b = Some ts" "ListTopics_order tm' ts" "length ts \<le> 1000" for b ts other
  proof -
    have "listed_as (cfg\<lparr>tc_CreatedAt := tio_now io\<rparr>) \<in> set ts" using that(2) tm'(2) by (simp add: ListTopics_order_def)
    then have "\<lparr>ti_name = ?n, ti_mode = ?m, ti_partitions = int k, ti_created_at = tio_now io\<rparr> \<in>
        set (map (\<lambda>t. \<lparr>ti_name = bt_name t, ti_mode = mode_str (bt_mode t), ti_partitions = int (bt_partitions t),
          ti_created_at = bt_created_at t\<rparr>) ts)"
      using mode_str_request_mode [OF sub(3)] by (force simp: listed_as_def cfg_def)
    moreover have "perform st (serve (admin b other)) topics_queryFn = Inr (JArr (map topic_info_json ts))"
      using topic_list_answer [OF that(1)] that(3) by simp
    ultimately show ?thesis using decode_topic_list [of ts] by fastforce
  qed
  ultimately show ?thesis using h tm'(2) by (auto simp: GetTopic_def map_add_def)
qed

definition fresh_storage :: web_storage where
  "fresh_storage = \<lparr>items = Map.empty, accessible = True, quota_left = True\<rparr>"

theorem create_then_listed_witness:
  "\<exists>tm'. perform (useAuthStore fresh_storage) (serve (\<lambda>m p v u i. fst (handleCreateTopic (\<lambda>_. '''') 8 0 io_fine i (Some tm_empty))))
      (createTopic ''a.b'' ''unified'' (JNum 8)) =
      Inr (JObj [(''mode'', JStr ''unified''), (''name'', JStr ''a.b''), (''partitions'', JNum 8)]) \<and>
    snd (handleCreateTopic (\<lambda>_. '''') 8 0 io_fine
      (fetch_options (useAuthStore fresh_storage) (Some (call_init (createTopic ''a.b'' ''unified'' (JNum 8))))) (Some tm_empty)) = Some tm'"
proof -
  have c: "Call (createTopic ''a.b'' ''unified'' (JNum 8)) \<in> set (create_submit zod_doc topics_form_ex)" by code_simp
  have f: "tf_name (form topics_form_ex) = ''a.b''" "tf_mode (form topics_form_ex) = ''unified''"
    "tf_partitions (form topics_form_ex) = Some \<lparr>num_val = 8, num_text = ''8''\<rparr>"
    by code_simp+
  have n: "num_val \<lparr>num_val = 8, num_text = ''8''\<rparr> = of_nat 8" by simp
  have v: "validateTopicName (tf_name (form topics_form_ex))" "tm_validateTopicName (tf_name (form topics_form_ex)) = None"
    unfolding f by code_simp+
  have r: "room_for (tf_name (form topics_form_ex)) 8 tm_empty" "io_succeeds io_fine (tf_name (form topics_form_ex))"
    using fine_partition by (auto simp: room_for_def tm_empty_def GetTopic_def io_succeeds_def io_fine_def)
  from create_then_listed [OF zod_doc_ok c f(3) n v r, of 0 "\<lambda>m p v u i. fst (handleCreateTopic (\<lambda>_. '''') 8 0 io_fine i (Some tm_empty))"
      "\<lambda>_. ''''" 8 "useAuthStore fresh_storage"] f
  show ?thesis by auto
qed

text \<open>The counter of a topic, and the manager after \<open>k\<close> messages without a key.\<close>

definition rr_count :: "TopicManager \<Rightarrow> string \<Rightarrow> 64 word" where
  "rr_count tm topic = (case tm_rrCounters tm topic of Some c \<Rightarrow> c | None \<Rightarrow> 0)"

fun keyless :: "string \<Rightarrow> 32 word \<Rightarrow> nat \<Rightarrow> TopicManager \<Rightarrow> TopicManager" where
  "keyless topic count 0 tm = tm"
| "keyless topic count (Suc k) tm = keyless topic count k (snd (ResolvePartition topic '''' count tm))"

lemma keyless_count: "rr_count (keyless topic count k tm) topic = rr_count tm topic + of_nat k"
  by (induction k arbitrary: tm) (simp_all add: ResolvePartition_def roundRobinPartition_def rr_count_def)

lemma resolve_keyless:
  "unat (fst (ResolvePartition topic '''' count tm)) = unat (rr_count tm topic) mod 2 ^ 32 mod unat count"
  by (simp add: ResolvePartition_def roundRobinPartition_def rr_count_def unat_mod unsigned_ucast_eq take_bit_eq_mod)

lemma window_mod: "(\<lambda>i. (a + i) mod n) ` {..<n} = {..<n}" if "0 < n" for a n :: nat
proof (rule card_subset_eq)
  have "i = j" if "(a + i) mod n = (a + j) mod n" "i < n" "j < n" for i j
  proof -
    have "int n dvd int (a + i) - int (a + j)" using that(1) by (metis mod_eq_dvd_iff zmod_int)
    then have "int n dvd int i - int j" by simp
    then have "int i - int j = 0 \<or> \<bar>int n\<bar> \<le> \<bar>int i - int j\<bar>" using dvd_imp_le_int by blast
    with that(2,3) show ?thesis by linarith
  qed
  then have "inj_on (\<lambda>i. (a + i) mod n) {..<n}" by (intro inj_onI) (simp only: lessThan_iff)
  then show "card ((\<lambda>i. (a + i) mod n) ` {..<n}) = card {..<n}" by (rule card_image)
qed (use that in auto)

text \<open>C24: Partitions are chosen within the count.  Messages with a key always go to the same partition; those without go
  round: as long as the counter does not pass a multiple of \<open>2 ^ 32\<close>, any \<open>count\<close> of them in a row reach every
  partition.\<close>

theorem partition_choice:
  assumes "0 < count"
  shows "fst (ResolvePartition topic key count tm) < count \<and>
    (key \<noteq> '''' \<longrightarrow> ResolvePartition topic key count tm = (fst (ResolvePartition topic key count tm2), tm)) \<and>
    (unat (rr_count tm topic) mod 2 ^ 32 + unat count \<le> 2 ^ 32 \<longrightarrow>
      (\<lambda>i. unat (fst (ResolvePartition topic '''' count (keyless topic count i tm)))) ` {..<unat count} = {..<unat count})"
proof (intro conjI impI)
  have pos: "0 < unat count" using assms by (simp add: unat_gt_0 word_gt_0)
  show "fst (ResolvePartition topic key count tm) < count"
    using assms by (simp add: ResolvePartition_def roundRobinPartition_def word_mod_less_divisor)
  show "ResolvePartition topic key count tm = (fst (ResolvePartition topic key count tm2), tm)" if "key \<noteq> ''''"
    using that by (simp add: ResolvePartition_def)
  let ?c = "unat (rr_count tm topic)" and ?f = "\<lambda>i. fst (ResolvePartition topic '''' count (keyless topic count i tm))"
  assume fit: "?c mod 2 ^ 32 + unat count \<le> 2 ^ 32"
  have val: "unat (?f i) = (?c mod 2 ^ 32 + i) mod unat count" if "i < unat count" for i
  proof -
    have "unat (rr_count tm topic + of_nat i) mod 2 ^ 32 = (?c + i) mod 2 ^ 32"
      by (simp add: unat_word_ariths unat_of_nat mod_mod_cancel mod_simps)
    also have "\<dots> = ?c mod 2 ^ 32 + i"
    proof -
      have "?c mod 2 ^ 32 + i < 2 ^ 32" using fit that by linarith
      then show ?thesis using mod_add_left_eq [of ?c "2 ^ 32" i] by simp
    qed
    finally show ?thesis by (simp add: resolve_keyless keyless_count)
  qed
  show "(\<lambda>i. unat (?f i)) ` {..<unat count} = {..<unat count}"
    using window_mod [OF pos, of "?c mod 2 ^ 32"] val by simp
qed

theorem partition_choice_witness:
  "fst (ResolvePartition ''orders'' ''k'' 3 tm_empty) < 3 \<and>
   (\<lambda>i. unat (fst (ResolvePartition ''orders'' '''' 3 (keyless ''orders'' 3 i tm_empty)))) ` {..<3} = {..<3}"
proof -
  have "unat (rr_count tm_empty ''orders'') mod 2 ^ 32 + unat (3 :: 32 word) \<le> 2 ^ 32" by (simp add: rr_count_def tm_empty_def)
  with partition_choice [of 3 "''orders''" "''k''" tm_empty tm_empty] show ?thesis by simp
qed

text \<open>Deleting a topic removes it from the list but not its log: when a topic of the same name is created again
  while the broker runs, a reader of each old partition gets the messages of the deleted topic.\<close>

theorem recreated_topic_has_old_log:
  assumes "tm_storage tm (n, i) = Some p" and "part_holds p start ms"
    and "tm_DeleteTopic io n tm = (None, tm1)" and "CreateTopic io2 cfg tm1 = (None, tm2)" and "tc_Name cfg = n"
  shows "GetTopic tm1 n = None \<and> GetTopic tm2 n \<noteq> None \<and>
    fst (GetOrCreatePartition disk n i (tm_storage tm2)) = Inr p \<and> ReadRange p start (start + length ms) (length ms) = ms"
proof -
  have d: "tm_storage tm1 (n, i) = Some p" "map_of (tm_topics tm1) n = None"
    using assms(1,3) by (auto simp: tm_DeleteTopic_def saveMetadata_def map_of_filter_neq split: if_splits)
  obtain ok e where e: "open_partitions (tio_disk io2) n 0 (tc_Partitions cfg) (tm_storage tm1) = (ok, e)" by fastforce
  then have "e (n, i) = Some p" using open_partitions_keeps d(1) by blast
  then have "tm_storage tm2 (n, i) = Some p" "map_of (tm_topics tm2) n \<noteq> None"
    using assms(4,5) e d(2) by (auto simp: CreateTopic_def saveMetadata_def map_add_def Let_def split: if_splits option.splits)
  then show ?thesis using d ReadRange_holds [OF assms(2), of start] by (simp add: GetTopic_def GetOrCreatePartition_def)
qed

theorem recreated_topic_has_old_log_witness:
  "\<exists>p tm tm1 tm2. part_holds p 0 [[1, 2]] \<and> tm_storage tm (''orders'', 0) = Some p \<and>
     tm_DeleteTopic io_fine ''orders'' tm = (None, tm1) \<and> CreateTopic io_fine cfg_ex tm1 = (None, tm2) \<and> GetTopic tm1 ''orders'' = None \<and>
     fst (GetOrCreatePartition (tio_disk io_fine) ''orders'' 0 (tm_storage tm2)) = Inr p \<and> ReadRange p 0 1 1 = [[1, 2]]"
proof -
  obtain q where q: "OpenPartition Wrote 0 1024 [] = Inr q" "part_holds q 0 []" using fine_partition by blast
  have "\<exists>p. part_Append io_ok [1, 2] q = (Inr 0, p)"
    using q(1) by (auto simp: OpenPartition_def OpenSegment_def new_segment_def part_Append_def seg_Append_def io_ok_def SegmentHeaderLen_def)
  with part_Append_holds [OF q(2), of "[1, 2]" io_ok] obtain p where p: "part_holds p 0 [[1, 2]]" by auto
  define tm where "tm = tm_empty\<lparr>tm_topics := [(''orders'', cfg_ex)], tm_storage := [(''orders'', 0) \<mapsto> p]\<rparr>"
  obtain tm1 where d: "tm_DeleteTopic io_fine ''orders'' tm = (None, tm1)" "tm_topics tm1 = []" "tm_maxTopics tm1 = 0" "tm_maxPartitions tm1 = 0"
    by (simp add: tm_DeleteTopic_def tm_def saveMetadata_def io_fine_def tm_empty_def)
  obtain tm2 where c: "CreateTopic io_fine cfg_ex tm1 = (None, tm2)"
    using CreateTopic_ok [of cfg_ex tm1 io_fine] d fine_partition
    by (auto simp: room_for_def GetTopic_def io_succeeds_def io_fine_def cfg_ex_def tm_validateTopicName_def name_char_def)
  have s: "tm_storage tm (''orders'', 0) = Some p" "tc_Name cfg_ex = ''orders''" by (simp_all add: tm_def cfg_ex_def)
  from recreated_topic_has_old_log [OF s(1) p d(1) c s(2), of "tio_disk io_fine"] p s(1) d(1) c show ?thesis by fastforce
qed

end
