(* ===== verification/Broker_Publish.thy ===== *)
theory Broker_Publish
  imports Message Topic_Manager
begin

text \<open>
  \<^verbatim>\<open>internal/broker/publish.go\<close>, the reading side of \<^verbatim>\<open>internal/engine/stream/engine.go\<close> and the handlers that
  publish over HTTP and deliver to NATS subscriptions: the path of a message from the client through
  encoding, write-ahead log and partition to the consumers.  The optional subsystems a
  publication asks (deduplication, rate limits, quotas, schemas, transforms, encryption), the clock and the
  results of the disk are the record \<open>publish_env\<close>; a subsystem that is switched off answers as
  the code does without it.  The calls a publication makes to the engines are a list of events.
\<close>

section \<open>Publishing\<close>

datatype transform_result = TransformFailed | Filtered | Transformed Envelope

record publish_env =
  pe_maxMessageSize :: int
  pe_deduper :: "(string \<Rightarrow> 64 word \<Rightarrow> bool) option"
  pe_flow :: "string \<Rightarrow> bool"
  pe_quota :: "string \<Rightarrow> bool"
  pe_schema :: "(32 word \<Rightarrow> bytes \<Rightarrow> bool option) option" \<comment> \<open>\<open>None\<close> inside is an error of the registry\<close>
  pe_wasm :: "(nat \<Rightarrow> Envelope \<Rightarrow> transform_result) option"
  pe_now :: "64 word"
  pe_uuid :: bytes
  pe_pooled :: bytes
  pe_order1 :: header_order
  pe_order2 :: header_order
  pe_encrypt :: "(bytes \<Rightarrow> string \<Rightarrow> bytes option) option"
  pe_wal :: bool
  pe_disk :: "string \<times> nat \<Rightarrow> log_error + Partition"
  pe_append :: append_io
  pe_geo :: bool

datatype publish_error = MessageTooLarge | NoTopic | RateLimited | QuotaExceeded | NoSchemaID | SchemaFailed | SchemaInvalid
  | TransformError | MarshalError go_error | EncryptError | WALError | StorageError log_error

datatype broker_event =
    NotifyWaiters string "32 word"
  | TryDispatch string "32 word" nat Envelope
  | ScheduleDelayed string Envelope
  | Replicate Envelope

text \<open>\<open>strconv.ParseUint(s, 10, bits)\<close>\<close>

definition parse_uint :: "nat \<Rightarrow> bytes \<Rightarrow> nat option" where
  "parse_uint bits v = (let s = bytes_str v in
     if s \<noteq> '''' \<and> list_all is_digit s \<and> read_nat s < 2 ^ bits then Some (read_nat s) else None)"

definition parseSchemaIDFromHeaders :: "Envelope \<Rightarrow> 32 word option" where
  "parseSchemaIDFromHeaders env = (case hdr_map (Headers env) ''x-chimera-schema-id'' of
     None \<Rightarrow> None | Some v \<Rightarrow> map_option word_of_nat (parse_uint 32 v))"

definition extractProducerInfo :: "Envelope \<Rightarrow> (string \<times> 64 word) option" where
  "extractProducerInfo env = (case hdr_map (Headers env) ''x-chimera-producer-id'' of
     None \<Rightarrow> None
   | Some pid \<Rightarrow> if pid = [] then None else
      (case hdr_map (Headers env) ''x-chimera-producer-seq'' of
        None \<Rightarrow> None
      | Some sq \<Rightarrow> if sq = [] then None else map_option (\<lambda>n. (bytes_str pid, word_of_nat n)) (parse_uint 64 sq)))"

definition is_duplicate :: "publish_env \<Rightarrow> Envelope \<Rightarrow> bool" where
  "is_duplicate pe env = (case pe_deduper pe of None \<Rightarrow> False
     | Some d \<Rightarrow> (case extractProducerInfo env of None \<Rightarrow> False | Some (pid, sq) \<Rightarrow> d pid sq))"

definition schema_check :: "publish_env \<Rightarrow> TopicConfig \<Rightarrow> Envelope \<Rightarrow> publish_error option" where
  "schema_check pe cfg env = (case pe_schema pe of None \<Rightarrow> None
     | Some validate \<Rightarrow>
        if \<not> tc_SchemaEnforcement cfg then None
        else let i = (case parseSchemaIDFromHeaders env of Some i \<Rightarrow> i | None \<Rightarrow> 0)
        in if i = 0 then Some NoSchemaID
           else (case validate i (Payload env) of None \<Rightarrow> Some SchemaFailed
                 | Some valid \<Rightarrow> if valid then None else Some SchemaInvalid))"

definition ApplyDefaultTTL :: "Envelope \<Rightarrow> 64 word \<Rightarrow> Envelope" where
  "ApplyDefaultTTL env defaultTTL = (if TTL env = 0 \<and> 0 <s defaultTTL then env\<lparr>TTL := defaultTTL\<rparr> else env)"

definition with_default_ttl :: "TopicConfig \<Rightarrow> Envelope \<Rightarrow> Envelope" where
  "with_default_ttl cfg env = (if tc_DefaultTTL cfg > 0 then ApplyDefaultTTL env (word_of_int (tc_DefaultTTL cfg)) else env)"

definition run_pipeline :: "publish_env \<Rightarrow> TopicConfig \<Rightarrow> Envelope \<Rightarrow> transform_result" where
  "run_pipeline pe cfg env = (case (pe_wasm pe, tc_TransformPipeline cfg) of
     (Some apply_to, Some pl) \<Rightarrow> apply_to pl env | _ \<Rightarrow> Transformed env)"

definition queue_mode :: "TopicConfig \<Rightarrow> bool" where
  "queue_mode cfg \<longleftrightarrow> tc_Mode cfg = ModeQueue \<or> tc_Mode cfg = ModeUnified"

definition with_identity :: "publish_env \<Rightarrow> Envelope \<Rightarrow> Envelope" where
  "with_identity pe env = env\<lparr>MessageID := pe_uuid pe, Timestamp := (if Timestamp env = 0 then pe_now pe else Timestamp env)\<rparr>"

definition stored_bytes :: "publish_env \<Rightarrow> Envelope \<Rightarrow> publish_error + bytes" where
  "stored_bytes pe env = (case Marshal (pe_pooled pe) (pe_order1 pe) (pe_order2 pe) env of
     Inl err \<Rightarrow> Inl (MarshalError err)
   | Inr data \<Rightarrow> (case pe_encrypt pe of None \<Rightarrow> Inr data
      | Some enc \<Rightarrow> (case enc data (Topic env @ ''/'' @ show_nat (unat (PartitionID env))) of
           None \<Rightarrow> Inl EncryptError | Some c \<Rightarrow> Inr c)))"

text \<open>From the serialisation on.  A partition is shared: the append is seen by everybody who has it.\<close>

definition store_message :: "publish_env \<Rightarrow> TopicConfig \<Rightarrow> Envelope \<Rightarrow> TopicManager \<Rightarrow>
    (publish_error + nat) \<times> Envelope \<times> TopicManager \<times> broker_event list" where
  "store_message pe cfg env tm = (let partID = PartitionID env in
     case stored_bytes pe env of Inl err \<Rightarrow> (Inl err, env, tm, [])
   | Inr data \<Rightarrow>
      if \<not> pe_wal pe then (Inl WALError, env, tm, [])
      else (case GetOrCreatePartition (pe_disk pe) (Topic env) (unat partID) (tm_storage tm) of
        (Inl err, e) \<Rightarrow> (Inl (StorageError err), env, tm\<lparr>tm_storage := e\<rparr>, [])
      | (Inr p, e) \<Rightarrow> (case part_Append (pe_append pe) data p of
          (Inl err, p') \<Rightarrow> (Inl (StorageError err), env, tm\<lparr>tm_storage := e((Topic env, unat partID) \<mapsto> p')\<rparr>, [])
        | (Inr offset, p') \<Rightarrow>
            let env = env\<lparr>Sequence := word_of_nat offset\<rparr> in
            (Inr offset, env, tm\<lparr>tm_storage := e((Topic env, unat partID) \<mapsto> p')\<rparr>,
             [NotifyWaiters (Topic env) partID] @
             (if queue_mode cfg then [TryDispatch (Topic env) partID offset env] else []) @
             (if pe_geo pe then [Replicate env] else [])))))"

text \<open>The second component is what the envelope of the caller has become.  A transform gives a new
  envelope and leaves that of the caller behind.\<close>

definition Publish :: "publish_env \<Rightarrow> Envelope \<Rightarrow> TopicManager \<Rightarrow>
    (publish_error + nat) \<times> Envelope \<times> TopicManager \<times> broker_event list" where
  "Publish pe env tm =
     (if pe_maxMessageSize pe > 0 \<and> int (length (Payload env)) > pe_maxMessageSize pe then (Inl MessageTooLarge, env, tm, [])
      else case GetTopic tm (Topic env) of None \<Rightarrow> (Inl NoTopic, env, tm, []) | Some cfg \<Rightarrow>
      if is_duplicate pe env then (Inr 0, env, tm, [])
      else if \<not> pe_flow pe (Topic env) then (Inl RateLimited, env, tm, [])
      else if \<not> pe_quota pe (Topic env) then (Inl QuotaExceeded, env, tm, [])
      else case schema_check pe cfg env of Some err \<Rightarrow> (Inl err, env, tm, []) | None \<Rightarrow>
      let env1 = with_default_ttl cfg env in
      case run_pipeline pe cfg env1 of
        TransformFailed \<Rightarrow> (Inl TransformError, env1, tm, [])
      | Filtered \<Rightarrow> (Inr 0, env1, tm, [])
      | Transformed env2 \<Rightarrow>
          let (partID, tm) = ResolvePartition (Topic env2) (RoutingKey env2) (word_of_nat (tc_Partitions cfg)) tm;
              env2 = env2\<lparr>PartitionID := partID\<rparr>;
              caller = (\<lambda>e. if pe_wasm pe \<noteq> None \<and> tc_TransformPipeline cfg \<noteq> None then env1 else e)
          in if 0 <s DeliverAt env2 \<and> pe_now pe <s DeliverAt env2 \<and> queue_mode cfg
             then (Inr 0, caller env2, tm, [ScheduleDelayed (Topic env2) env2])
             else let (res, env3, tm, evs) = store_message pe cfg (with_identity pe env2) tm in (res, caller env3, tm, evs))"

section \<open>Fetching\<close>

definition u64 :: "int \<Rightarrow> nat" where "u64 i = nat (i mod 2 ^ 64)"

text \<open>\<open>dec\<close> is the decryptor, \<open>None\<close> without encryption at rest.  A message that cannot be decrypted or decoded is
  left out.\<close>

definition decode_message :: "(bytes \<Rightarrow> string \<Rightarrow> bytes option) option \<Rightarrow> string \<Rightarrow> nat \<Rightarrow> nat \<Rightarrow> bytes \<Rightarrow> Envelope option" where
  "decode_message dec topic partID offset data =
     (case (case dec of None \<Rightarrow> Some data | Some d \<Rightarrow> d data (topic @ ''/'' @ show_nat partID)) of
        None \<Rightarrow> None
      | Some data \<Rightarrow> (case Unmarshal data of Inl _ \<Rightarrow> None | Inr env \<Rightarrow> Some (env\<lparr>Sequence := word_of_nat offset\<rparr>)))"

fun decode_messages :: "(bytes \<Rightarrow> string \<Rightarrow> bytes option) option \<Rightarrow> string \<Rightarrow> nat \<Rightarrow> nat \<Rightarrow> bytes list \<Rightarrow> Envelope list" where
  "decode_messages dec topic partID offset [] = []"
| "decode_messages dec topic partID offset (data # ds) =
     (case decode_message dec topic partID offset data of
        None \<Rightarrow> decode_messages dec topic partID (Suc offset) ds
      | Some env \<Rightarrow> env # decode_messages dec topic partID (Suc offset) ds)"

definition readMessages :: "(bytes \<Rightarrow> string \<Rightarrow> bytes option) option \<Rightarrow> Partition \<Rightarrow> string \<Rightarrow> nat \<Rightarrow> nat \<Rightarrow> nat \<Rightarrow> int \<Rightarrow> Envelope list \<times> nat" where
  "readMessages dec part topic partID from to max_n =
     (let last = u64 (int from + max_n - 1); e = (if last < to then last else to);
          rawMsgs = ReadRange part from e (nat max_n)
      in if rawMsgs = [] then ([], from)
         else let msgs = decode_messages dec topic partID from rawMsgs in (msgs, from + length msgs))"

datatype fetch_error = EngineClosed | FetchStorage log_error

text \<open>\<open>woken\<close> is the partition at the time a waiter is woken, \<open>None\<close> when the wait times out.\<close>

definition Fetch :: "bool \<Rightarrow> (string \<times> nat \<Rightarrow> log_error + Partition) \<Rightarrow> (bytes \<Rightarrow> string \<Rightarrow> bytes option) option \<Rightarrow> Partition option \<Rightarrow>
    string \<Rightarrow> nat \<Rightarrow> nat \<Rightarrow> int \<Rightarrow> hot_engine \<Rightarrow> (fetch_error + Envelope list \<times> nat) \<times> hot_engine" where
  "Fetch stopped disk dec woken topic partID from max_n e =
     (if stopped then (Inl EngineClosed, e)
      else case GetOrCreatePartition disk topic partID e of
        (Inl err, e) \<Rightarrow> (Inl (FetchStorage err), e)
      | (Inr part, e) \<Rightarrow>
          if from \<le> part_highWater part
          then (Inr (readMessages dec part topic partID from (part_highWater part) max_n), e)
          else (case woken of
             None \<Rightarrow> (Inr ([], from), e)
           | Some part \<Rightarrow> (Inr (readMessages dec part topic partID from (part_highWater part) max_n), e)))"

section \<open>Handlers\<close>

text \<open>\<open>handlePublish\<close>: the body is read through a limited reader.\<close>

definition handlePublish :: "publish_env \<Rightarrow> string \<Rightarrow> string \<Rightarrow> string \<Rightarrow> bytes \<Rightarrow> TopicManager \<Rightarrow> fetch_outcome \<times> TopicManager" where
  "handlePublish pe topicName routingKey contentType bdy tm =
     (let maxSize = (if pe_maxMessageSize pe \<le> 0 then 16 * 1024 * 1024 else pe_maxMessageSize pe);
          env = zero_envelope\<lparr>Topic := topicName, RoutingKey := routingKey, Payload := take (nat maxSize) bdy,
            ContentType := contentType, SourceProto := 4\<rparr>
      in (case Publish pe env tm of
        (Inl err, env, tm, evs) \<Rightarrow> (writeError 500 ''internal error'', tm)
      | (Inr offset, env, tm, evs) \<Rightarrow> (writeJSON 200 (JObj [(''offset'', JNum (int offset)),
          (''partition'', JNum (uint (PartitionID env))), (''topic'', JStr topicName)]), tm)))"

text \<open>One round of the loop of a NATS subscription: the envelopes it sends.\<close>

definition nats_poll :: "(string \<times> nat \<Rightarrow> log_error + Partition) \<Rightarrow> (bytes \<Rightarrow> string \<Rightarrow> bytes option) option \<Rightarrow> Partition option \<Rightarrow>
    string \<Rightarrow> hot_engine \<Rightarrow> Envelope list \<times> hot_engine" where
  "nats_poll disk dec woken topic e = (case Fetch False disk dec woken topic 0 0 1 e of
     (Inl _, e) \<Rightarrow> ([], e) | (Inr (msgs, _), e) \<Rightarrow> (msgs, e))"

section \<open>Lemmas\<close>

text \<open>\<open>logs\<close> gives the first offset and the messages of every partition, open or still to be opened.\<close>

definition logs_ok :: "(string \<times> nat \<Rightarrow> log_error + Partition) \<Rightarrow> hot_engine \<Rightarrow> (string \<times> nat \<Rightarrow> nat \<times> bytes list) \<Rightarrow> bool" where
  "logs_ok disk e logs \<longleftrightarrow>
     (\<forall>q p. e q = Some p \<or> e q = None \<and> disk q = Inr p \<longrightarrow> part_holds p (fst (logs q)) (snd (logs q)))"

lemma logs_okD: "logs_ok disk e logs \<Longrightarrow> e q = Some p \<Longrightarrow> part_holds p (fst (logs q)) (snd (logs q))"
  unfolding logs_ok_def by blast

lemma GetOrCreate_ok:
  assumes "logs_ok disk e logs" and "GetOrCreatePartition disk t i e = (r, e')"
  shows "logs_ok disk e' logs" "r = Inr p \<Longrightarrow> part_holds p (fst (logs (t, i))) (snd (logs (t, i))) \<and> e' (t, i) = Some p"
  using assms by (auto simp: GetOrCreatePartition_def logs_ok_def split: option.splits sum.splits if_splits)

lemma logs_ok_upd:
  "logs_ok disk e logs \<Longrightarrow> part_holds p a xs \<Longrightarrow> logs_ok disk (e(q \<mapsto> p)) (logs(q := (a, xs)))"
  by (auto simp: logs_ok_def)

lemma logs_ok_same: "logs_ok disk e logs \<Longrightarrow> part_holds p (fst (logs q)) (snd (logs q)) \<Longrightarrow> logs_ok disk (e(q \<mapsto> p)) logs"
  by (auto simp: logs_ok_def)

definition append_log :: "string \<times> nat \<Rightarrow> bytes \<Rightarrow> (string \<times> nat \<Rightarrow> nat \<times> bytes list) \<Rightarrow> string \<times> nat \<Rightarrow> nat \<times> bytes list" where
  "append_log q data logs = logs(q := (fst (logs q), snd (logs q) @ [data]))"

lemma store_message_ok:
  assumes "logs_ok (pe_disk pe) (tm_storage tm) logs" and "store_message pe cfg env tm = (res, env', tm', evs)"
  shows "tm_topics tm' = tm_topics tm \<and> (case res of Inl err \<Rightarrow> logs_ok (pe_disk pe) (tm_storage tm') logs \<and> evs = []
    | Inr offset \<Rightarrow> \<exists>data. stored_bytes pe env = Inr data \<and> offset = fst (logs (Topic env, unat (PartitionID env))) + length (snd (logs (Topic env, unat (PartitionID env)))) \<and>
        env' = env\<lparr>Sequence := word_of_nat offset\<rparr> \<and> NotifyWaiters (Topic env) (PartitionID env) \<in> set evs \<and>
        (\<forall>t p. NotifyWaiters t p \<in> set evs \<longrightarrow> t = Topic env \<and> p = PartitionID env) \<and>
        (\<exists>p. tm_storage tm' (Topic env, unat (PartitionID env)) = Some p) \<and>
        logs_ok (pe_disk pe) (tm_storage tm') (append_log (Topic env, unat (PartitionID env)) data logs))"
proof -
  let ?q = "(Topic env, unat (PartitionID env))"
  obtain r e where g: "GetOrCreatePartition (pe_disk pe) (Topic env) (unat (PartitionID env)) (tm_storage tm) = (r, e)" by fastforce
  note ok = GetOrCreate_ok [OF assms(1) g]
  show ?thesis
  proof (cases "stored_bytes pe env")
    case (Inl err)
    then show ?thesis using assms by (auto simp: store_message_def Let_def)
  next
    case (Inr data)
    show ?thesis
    proof (cases "pe_wal pe")
      case wal: True
      show ?thesis
      proof (cases r)
        case (Inl err)
        then show ?thesis using assms g ok(1) Inr wal by (auto simp: store_message_def Let_def)
      next
        case r: (Inr p)
        note p = ok(2) [OF r]
        show ?thesis
          using assms(2) g ok(1) Inr wal r part_Append_holds [OF p [THEN conjunct1], of data "pe_append pe"]
            logs_ok_same [OF ok(1), of _ ?q] logs_ok_upd [OF ok(1), of _ "fst (logs ?q)" "snd (logs ?q) @ [data]" ?q]
          by (cases "part_Append (pe_append pe) data p") (auto simp: store_message_def Let_def append_log_def split: sum.splits)
      qed
    qed (use assms Inr in \<open>auto simp: store_message_def Let_def\<close>)
  qed
qed

lemma ResolvePartition_storage [simp]:
  "ResolvePartition t k n tm = (pid, tm') \<Longrightarrow> tm_storage tm' = tm_storage tm"
  "ResolvePartition t k n tm = (pid, tm') \<Longrightarrow> tm_topics tm' = tm_topics tm"
  by (auto simp: ResolvePartition_def roundRobinPartition_def split: if_splits)

text \<open>The branches of a publication.\<close>

definition nothing_stored :: "broker_event list \<Rightarrow> bool" where
  "nothing_stored evs \<longleftrightarrow> evs = [] \<or> (\<exists>e. evs = [ScheduleDelayed (Topic e) e])"

lemma Publish_cases:
  assumes "Publish pe env tm = (res, env', tm', evs)"
  obtains "tm_storage tm' = tm_storage tm" "tm_topics tm' = tm_topics tm" "nothing_stored evs" "res = Inr 0 \<or> (\<exists>err. res = Inl err \<and> evs = [])"
  | cfg e1 e2 pid tm1 e3 where "GetTopic tm (Topic env) = Some cfg" "e1 = with_default_ttl cfg env" "run_pipeline pe cfg e1 = Transformed e2"
    "ResolvePartition (Topic e2) (RoutingKey e2) (word_of_nat (tc_Partitions cfg)) tm = (pid, tm1)"
    "store_message pe cfg (with_identity pe (e2\<lparr>PartitionID := pid\<rparr>)) tm1 = (res, e3, tm', evs)"
    "env' = (if pe_wasm pe \<noteq> None \<and> tc_TransformPipeline cfg \<noteq> None then e1 else e3)"
  using assms unfolding Publish_def nothing_stored_def
  by (auto simp: Let_def split: if_splits option.splits transform_result.splits prod.splits)

lemma with_identity_sel [simp]:
  "Topic (with_identity pe e) = Topic e" "PartitionID (with_identity pe e) = PartitionID e" "Payload (with_identity pe e) = Payload e"
  "RoutingKey (with_identity pe e) = RoutingKey e" "Headers (with_identity pe e) = Headers e"
  by (simp_all add: with_identity_def)

lemma with_default_ttl_sel [simp]:
  "Topic (with_default_ttl cfg e) = Topic e" "Payload (with_default_ttl cfg e) = Payload e" "RoutingKey (with_default_ttl cfg e) = RoutingKey e"
  "Headers (with_default_ttl cfg e) = Headers e" "array_lengths (with_default_ttl cfg e) = array_lengths e"
  by (simp_all add: with_default_ttl_def ApplyDefaultTTL_def array_lengths_def)

text \<open>A publication stored \<open>data\<close>, the encoding of the envelope \<open>e\<close>.\<close>

definition stored_as :: "publish_env \<Rightarrow> Envelope \<Rightarrow> TopicManager \<Rightarrow> (string \<times> nat \<Rightarrow> nat \<times> bytes list) \<Rightarrow> nat \<Rightarrow> Envelope \<Rightarrow> TopicManager \<Rightarrow>
    broker_event list \<Rightarrow> Envelope \<Rightarrow> bytes \<Rightarrow> bool" where
  "stored_as pe env tm logs offset env' tm' evs e data \<longleftrightarrow> (let q = (Topic e, unat (PartitionID e)) in
          stored_bytes pe e = Inr data \<and> MessageID e = pe_uuid pe \<and> offset = fst (logs q) + length (snd (logs q)) \<and>
          NotifyWaiters (Topic e) (PartitionID e) \<in> set evs \<and> (\<forall>t p. NotifyWaiters t p \<in> set evs \<longrightarrow> (t, unat p) = q) \<and>
          (\<exists>p. tm_storage tm' q = Some p) \<and> logs_ok (pe_disk pe) (tm_storage tm') (append_log q data logs) \<and>
          (pe_wasm pe = None \<longrightarrow> env' = e\<lparr>Sequence := word_of_nat offset\<rparr> \<and>
            (\<exists>cfg pid tm1. e = with_identity pe ((with_default_ttl cfg env)\<lparr>PartitionID := pid\<rparr>) \<and> GetTopic tm (Topic env) = Some cfg \<and>
              ResolvePartition (Topic env) (RoutingKey env) (word_of_nat (tc_Partitions cfg)) tm = (pid, tm1))))"

lemma Publish_ok:
  assumes "logs_ok (pe_disk pe) (tm_storage tm) logs" and "Publish pe env tm = (res, env', tm', evs)"
  shows "tm_topics tm' = tm_topics tm \<and> (case res of
      Inl err \<Rightarrow> logs_ok (pe_disk pe) (tm_storage tm') logs \<and> evs = []
    | Inr offset \<Rightarrow> (offset = 0 \<and> nothing_stored evs \<and> tm_storage tm' = tm_storage tm) \<or>
        (\<exists>e data. stored_as pe env tm logs offset env' tm' evs e data))"
  using assms(2)
proof (cases rule: Publish_cases)
  case 1
  then show ?thesis using assms(1) by auto
next
  case (2 cfg e1 e2 pid tm1 e3)
  define e where "e = with_identity pe (e2\<lparr>PartitionID := pid\<rparr>)"
  have st: "tm_storage tm1 = tm_storage tm" "tm_topics tm1 = tm_topics tm" using 2(4) by simp_all
  have "logs_ok (pe_disk pe) (tm_storage tm1) logs" using assms(1) st by simp
  note s = store_message_ok [OF this 2(5) [folded e_def]]
  have id: "MessageID e = pe_uuid pe" by (simp add: e_def with_identity_def)
  show ?thesis
  proof (cases res)
    case (Inl err)
    then show ?thesis using s st by simp
  next
    case (Inr offset)
    have w: "env' = e3 \<and> e2 = with_default_ttl cfg env" if "pe_wasm pe = None" using that 2(2,3,6) by (simp add: run_pipeline_def)
    from s [unfolded Inr sum.case] obtain data where "stored_bytes pe e = Inr data" "offset = fst (logs (Topic e, unat (PartitionID e))) + length (snd (logs (Topic e, unat (PartitionID e))))"
        "NotifyWaiters (Topic e) (PartitionID e) \<in> set evs"
        "\<forall>t p. NotifyWaiters t p \<in> set evs \<longrightarrow> t = Topic e \<and> p = PartitionID e"
        "\<exists>p. tm_storage tm' (Topic e, unat (PartitionID e)) = Some p" "tm_topics tm' = tm_topics tm1"
        "logs_ok (pe_disk pe) (tm_storage tm') (append_log (Topic e, unat (PartitionID e)) data logs)" and e3: "e3 = e\<lparr>Sequence := word_of_nat offset\<rparr>" by blast
    note d = this
    have n: "\<forall>t p. NotifyWaiters t p \<in> set evs \<longrightarrow> (t, unat p) = (Topic e, unat (PartitionID e))" using d(4) by simp
    have w3: "pe_wasm pe = None \<longrightarrow> env' = e\<lparr>Sequence := word_of_nat offset\<rparr> \<and>
            (\<exists>cfg pid tm1. e = with_identity pe ((with_default_ttl cfg env)\<lparr>PartitionID := pid\<rparr>) \<and> GetTopic tm (Topic env) = Some cfg \<and>
              ResolvePartition (Topic env) (RoutingKey env) (word_of_nat (tc_Partitions cfg)) tm = (pid, tm1))"
    proof
      assume "pe_wasm pe = None"
      note w = w [OF this]
      have "ResolvePartition (Topic env) (RoutingKey env) (word_of_nat (tc_Partitions cfg)) tm = (pid, tm1)"
        using 2(4) w by simp
      moreover have "e = with_identity pe ((with_default_ttl cfg env)\<lparr>PartitionID := pid\<rparr>)" using w by (simp add: e_def)
      ultimately show "env' = e\<lparr>Sequence := word_of_nat offset\<rparr> \<and>
            (\<exists>cfg pid tm1. e = with_identity pe ((with_default_ttl cfg env)\<lparr>PartitionID := pid\<rparr>) \<and> GetTopic tm (Topic env) = Some cfg \<and>
              ResolvePartition (Topic env) (RoutingKey env) (word_of_nat (tc_Partitions cfg)) tm = (pid, tm1))"
        using w 2(1) e3 by blast
    qed
    have t: "tm_topics tm' = tm_topics tm" using d(6) st(2) by (rule trans)
    show ?thesis
      unfolding Inr sum.case Let_def stored_as_def
      by (intro conjI t disjI2 exI [of _ e] exI [of _ data] d(1) id d(2) d(3) n d(5) d(7) w3)
  qed
qed

subsection \<open>Reading\<close>

lemma u64_small: "0 \<le> i \<Longrightarrow> i < 2 ^ 64 \<Longrightarrow> u64 i = nat i"
  by (simp add: u64_def)

lemma readMessages_holds:
  assumes "part_holds p start ms" and "start \<le> from" and "start + length ms \<le> 2 ^ 64" and "0 < max_n" and "int from + max_n \<le> 2 ^ 64"
  shows "readMessages dec p topic partID from (part_highWater p) max_n =
    (let msgs = decode_messages dec topic partID from (take (nat max_n) (drop (from - start) ms)) in (msgs, from + length msgs))"
proof -
  have hw: "part_highWater p = last_offset start (length ms)" using assms(1) by (simp add: part_holds_def)
  define l where "l = u64 (int from + max_n - 1)"
  have l: "l = from + nat max_n - 1" using assms(4,5) by (simp add: l_def u64_small nat_add_distrib nat_diff_distrib)
  define e where "e = (if l < part_highWater p then l else part_highWater p)"
  have "ReadRange p from e (nat max_n) = take (min (Suc e - from) (nat max_n)) (drop (from - start) ms)"
    using ReadRange_holds [OF assms(1,2)] .
  also have "\<dots> = take (nat max_n) (drop (from - start) ms)"
  proof (cases "ms = []")
    case False
    then have "part_highWater p = start + length ms - 1" by (cases ms) (simp_all add: hw last_offset_def)
    moreover have "length (drop (from - start) ms) = start + length ms - from" using assms(2) by simp
    moreover have "0 < nat max_n" "0 < length ms" using assms(4) False by simp_all
    ultimately have "length (drop (from - start) ms) \<le> Suc e - from \<or> nat max_n \<le> Suc e - from"
      using l by (cases "l < part_highWater p") (simp_all add: e_def)
    then show ?thesis by (auto simp: min_def)
  qed simp
  finally have r: "ReadRange p from e (nat max_n) = take (nat max_n) (drop (from - start) ms)" .
  show ?thesis
    unfolding readMessages_def l_def [symmetric] Let_def e_def [symmetric] r by auto
qed

definition decodable :: "(bytes \<Rightarrow> string \<Rightarrow> bytes option) option \<Rightarrow> string \<Rightarrow> nat \<Rightarrow> bytes list \<Rightarrow> bool" where
  "decodable dec topic partID ms \<longleftrightarrow> (\<forall>data \<in> set ms. \<forall>i. decode_message dec topic partID i data \<noteq> None)"




lemma Fetch_open:
  assumes "e (topic, partID) = Some p" and "part_holds p start ms" and "start \<le> from" and "start + length ms \<le> 2 ^ 64"
    and "0 < max_n" and "int from + max_n \<le> 2 ^ 64"
  shows "Fetch False disk dec None topic partID from max_n e =
    (Inr (let msgs = decode_messages dec topic partID from (take (nat max_n) (drop (from - start) ms)) in (msgs, from + length msgs)), e)"
proof -
  have "part_highWater p < from \<Longrightarrow> drop (from - start) ms = []"
  proof -
    have "part_highWater p = last_offset start (length ms)" using assms(2) by (simp add: part_holds_def)
    then show "part_highWater p < from \<Longrightarrow> drop (from - start) ms = []"
      using assms(3) by (auto simp: last_offset_def split: if_splits)
  qed
  then show ?thesis
    using assms(1) readMessages_holds [OF assms(2-6)] by (auto simp: Fetch_def GetOrCreatePartition_def)
qed




section \<open>Properties\<close>

definition crypt_ok :: "(bytes \<Rightarrow> string \<Rightarrow> bytes option) option \<Rightarrow> (bytes \<Rightarrow> string \<Rightarrow> bytes option) option \<Rightarrow> bool" where
  "crypt_ok enc dec = (case (enc, dec) of (None, None) \<Rightarrow> True
     | (Some f, Some g) \<Rightarrow> \<forall>d s c. f d s = Some c \<longrightarrow> g c s = Some d | _ \<Rightarrow> False)"

lemma decode_stored:
  assumes "stored_bytes pe e = Inr data" and "crypt_ok (pe_encrypt pe) dec" and "array_lengths e"
    and "visits (pe_order1 pe) (Headers e)" and "visits (pe_order2 pe) (Headers e)" and "short_headers (pe_order2 pe)"
  shows "decode_message dec (Topic e) (unat (PartitionID e)) i data = Some ((on_wire e)\<lparr>Sequence := word_of_nat i\<rparr>)"
proof -
  obtain raw where m: "Marshal (pe_pooled pe) (pe_order1 pe) (pe_order2 pe) e = Inr raw"
    using assms(1) by (auto simp: stored_bytes_def split: sum.splits)
  note fit = Marshal_fits [OF assms(3,4,5), of "pe_pooled pe"]
  have f: "fits (pe_order1 pe) e" "raw = wire (pe_order2 pe) e" using m fit by (auto split: if_splits)
  have "EstimateSize (pe_order1 pe) e = EstimateSize (pe_order2 pe) e"
    using visits_unique [OF assms(4,5)] by (simp add: EstimateSize_def)
  with f(1) have "fits (pe_order2 pe) e" by (simp add: fits_def)
  then have u: "Unmarshal raw = Inr (on_wire e)" using Unmarshal_wire [OF assms(3,5,6)] f(2) by simp
  with assms(1,2) m show ?thesis
    by (auto simp: stored_bytes_def decode_message_def crypt_ok_def split: option.splits)
qed

lemma on_wire_sequence [simp]: "(on_wire e)\<lparr>Sequence := s\<rparr> = on_wire (e\<lparr>Sequence := s\<rparr>)"
  by (simp add: on_wire_def has_trace_def)

text \<open>C22: Every publication ends in one of three ways.  It reports an error, and every partition has the log it had.
  It reports offset 0 without storing anything: a duplicate, a message dropped by a transform, or a delayed
  message, which is only handed to the queue engine.  Or it reports the next offset of one partition, whose log
  is longer by the encoded message while all other logs are as they were, and the waiters of just that partition are woken.\<close>

theorem publish_outcomes:
  assumes "logs_ok (pe_disk pe) (tm_storage tm) logs" and "Publish pe env tm = (res, env', tm', evs)"
  shows "tm_topics tm' = tm_topics tm \<and> (case res of
      Inl err \<Rightarrow> logs_ok (pe_disk pe) (tm_storage tm') logs \<and> evs = []
    | Inr offset \<Rightarrow> (offset = 0 \<and> nothing_stored evs \<and> tm_storage tm' = tm_storage tm) \<or>
        (\<exists>t i e data. stored_bytes pe e = Inr data \<and> MessageID e = pe_uuid pe \<and> (Topic e, unat (PartitionID e)) = (t, i) \<and>
          offset = fst (logs (t, i)) + length (snd (logs (t, i))) \<and>
          (\<exists>pid. NotifyWaiters t pid \<in> set evs) \<and> (\<forall>t' pid. NotifyWaiters t' pid \<in> set evs \<longrightarrow> (t', unat pid) = (t, i)) \<and>
          logs_ok (pe_disk pe) (tm_storage tm') (append_log (t, i) data logs)))"
proof (cases res)
  case (Inl err)
  with Publish_ok [OF assms] show ?thesis by simp
next
  case (Inr offset)
  with Publish_ok [OF assms] show ?thesis unfolding Inr sum.case Let_def stored_as_def by blast
qed

definition publish_env_ex :: publish_env where
  "publish_env_ex = \<lparr>pe_maxMessageSize = 0, pe_deduper = None, pe_flow = (\<lambda>_. True), pe_quota = (\<lambda>_. True), pe_schema = None,
     pe_wasm = None, pe_now = 7, pe_uuid = replicate 16 1, pe_pooled = [], pe_order1 = [], pe_order2 = [], pe_encrypt = None,
     pe_wal = True, pe_disk = (\<lambda>_. OpenPartition Wrote 0 1024 []), pe_append = io_ok, pe_geo = False\<rparr>"

definition tm_orders :: TopicManager where
  "tm_orders = tm_empty\<lparr>tm_topics := [(''orders'', cfg_ex\<lparr>tc_Mode := ModeStream\<rparr>)]\<rparr>"

definition env_ex :: Envelope where
  "env_ex = zero_envelope\<lparr>Topic := ''orders'', Payload := [7, 8]\<rparr>"

definition no_logs :: "string \<times> nat \<Rightarrow> nat \<times> bytes list" where "no_logs = (\<lambda>_. (0, []))"

lemma orders_logs: "logs_ok (pe_disk publish_env_ex) (tm_storage tm_orders) no_logs"
  using fine_partition by (auto simp: logs_ok_def publish_env_ex_def tm_orders_def tm_empty_def no_logs_def)

lemma ex_resolve: "ResolvePartition ''orders'' '''' (word_of_nat 1) tm_orders = (0, tm_orders\<lparr>tm_rrCounters := [''orders'' \<mapsto> 1]\<rparr>)"
  by (simp add: ResolvePartition_def roundRobinPartition_def tm_orders_def tm_empty_def)

lemma publish_small:
  assumes "env = zero_envelope\<lparr>Topic := ''orders'', Payload := [7, 8], SourceProto := src\<rparr>" and "n \<in> {0, 2}"
  shows "\<exists>tm'. Publish (publish_env_ex\<lparr>pe_maxMessageSize := n\<rparr>) env tm_orders =
     (Inr 0, env\<lparr>MessageID := replicate 16 1, Timestamp := 7\<rparr>, tm', [NotifyWaiters ''orders'' 0])"
proof -
  obtain p where p: "OpenPartition Wrote 0 1024 [] = Inr p" "part_holds p 0 []" using fine_partition by blast
  define e where "e = env\<lparr>MessageID := replicate 16 1, Timestamp := 7\<rparr>"
  have m: "Marshal [] [] [] e = Inr (wire [] e)" "length (wire [] e) = 72"
    using Marshal_fits [of e "[]" "[]" "[]"] length_wire [of e "[]"]
    by (simp_all add: e_def assms(1) zero_envelope_def array_lengths_def visits_def hdr_map_def fits_def EstimateSize_def headers_size_def
      MaxMessageSize_def FixedHeaderSize_def has_trace_def)
  have "\<exists>p'. part_Append io_ok (wire [] e) p = (Inr 0, p')"
    using p(1) m(2) by (auto simp: OpenPartition_def OpenSegment_def new_segment_def part_Append_def seg_Append_def io_ok_def SegmentHeaderLen_def)
  then obtain p' where "part_Append io_ok (wire [] e) p = (Inr 0, p')" by blast
  moreover have "with_identity (publish_env_ex\<lparr>pe_maxMessageSize := n\<rparr>) (env\<lparr>PartitionID := 0\<rparr>) = e" "e\<lparr>Sequence := 0\<rparr> = e"
    by (simp_all add: with_identity_def publish_env_ex_def e_def assms(1) zero_envelope_def)
  moreover have "GetTopic tm_orders ''orders'' = Some (cfg_ex\<lparr>tc_Mode := ModeStream\<rparr>)" "tm_storage tm_orders = (\<lambda>_. None)"
    by (simp_all add: GetTopic_def tm_orders_def tm_empty_def)
  ultimately show ?thesis
    using ex_resolve p(1) m(1) assms(2)
    by (auto simp: Publish_def is_duplicate_def schema_check_def with_default_ttl_def run_pipeline_def queue_mode_def
      store_message_def stored_bytes_def GetOrCreatePartition_def publish_env_ex_def cfg_ex_def Let_def e_def assms(1) zero_envelope_def)
qed

lemma publish_ex:
  "\<exists>tm'. Publish publish_env_ex env_ex tm_orders =
     (Inr 0, env_ex\<lparr>MessageID := replicate 16 1, Timestamp := 7\<rparr>, tm', [NotifyWaiters ''orders'' 0])"
  using publish_small [of env_ex 0 0] by (simp add: env_ex_def zero_envelope_def publish_env_ex_def)

theorem publish_outcomes_witness:
  "\<exists>env' tm' evs data. Publish publish_env_ex env_ex tm_orders = (Inr 0, env', tm', evs) \<and> evs \<noteq> [] \<and>
     logs_ok (pe_disk publish_env_ex) (tm_storage tm') (no_logs((''orders'', 0) := (0, [data])))"
proof -
  obtain tm' where p: "Publish publish_env_ex env_ex tm_orders =
     (Inr 0, env_ex\<lparr>MessageID := replicate 16 1, Timestamp := 7\<rparr>, tm', [NotifyWaiters ''orders'' 0])" using publish_ex by blast
  have "\<not> nothing_stored [NotifyWaiters ''orders'' 0]" by (simp add: nothing_stored_def)
  with publish_outcomes [OF orders_logs p] have "\<exists>t i e data. (\<forall>t' pid. NotifyWaiters t' pid \<in> set [NotifyWaiters ''orders'' 0] \<longrightarrow> (t', unat pid) = (t, i)) \<and>
      logs_ok (pe_disk publish_env_ex) (tm_storage tm') (append_log (t, i) data no_logs)"
    unfolding sum.case by blast
  then obtain t i data where "(t, i) = (''orders'', 0)" "logs_ok (pe_disk publish_env_ex) (tm_storage tm') (append_log (t, i) data no_logs)" by auto
  moreover have "append_log (''orders'', 0) data no_logs = no_logs((''orders'', 0) := (0, [data]))" by (simp add: append_log_def no_logs_def)
  ultimately show ?thesis using p by auto
qed

text \<open>C3: A message that was stored is what the consumers of its partition get at the offset reported to its
  publisher: with the topic, key, headers and payload it was published with, the identity it was
  given and its offset, and without the fields the wire format does not keep.\<close>

theorem published_is_fetched:
  assumes "logs_ok (pe_disk pe) (tm_storage tm) logs" and "Publish pe env tm = (Inr offset, env', tm', evs)"
    and "NotifyWaiters t pid \<in> set evs" and "pe_wasm pe = None" and "crypt_ok (pe_encrypt pe) dec"
    and "array_lengths env" and "length (pe_uuid pe) = 16" and "visits (pe_order1 pe) (Headers env)" and "visits (pe_order2 pe) (Headers env)"
    and "short_headers (pe_order2 pe)" and "int offset + max_n \<le> 2 ^ 64" and "0 < max_n"
  shows "Fetch False disk dec None t (unat pid) offset max_n (tm_storage tm') = (Inr ([on_wire env'], Suc offset), tm_storage tm') \<and>
    Topic env' = Topic env \<and> RoutingKey env' = RoutingKey env \<and> Headers env' = Headers env \<and> Payload env' = Payload env \<and>
    MessageID env' = pe_uuid pe \<and> Sequence env' = word_of_nat offset \<and> Topic env' = t \<and> PartitionID env' = pid"
proof -
  have "\<not> nothing_stored evs" using assms(3) by (auto simp: nothing_stored_def)
  with Publish_ok [OF assms(1,2)] obtain e data where r0: "stored_as pe env tm logs offset env' tm' evs e data" by auto
  note c1 = r0 [unfolded stored_as_def Let_def]
  note c3 = c1 [THEN conjunct2, THEN conjunct2]
  note c5 = c3 [THEN conjunct2, THEN conjunct2]
  note c7 = c5 [THEN conjunct2, THEN conjunct2]
  note r = c1 [THEN conjunct1] c3 [THEN conjunct1] c5 [THEN conjunct1] c5 [THEN conjunct2, THEN conjunct1] c7 [THEN conjunct1] c7 [THEN conjunct2]
  from r(6) assms(4) obtain cfg pid' where env': "env' = e\<lparr>Sequence := word_of_nat offset\<rparr>"
    "e = with_identity pe ((with_default_ttl cfg env)\<lparr>PartitionID := pid'\<rparr>)" by blast
  obtain p where p: "tm_storage tm' (Topic e, unat (PartitionID e)) = Some p" using r(4) by blast
  have tp: "(t, unat pid) = (Topic e, unat (PartitionID e))" using r(3) assms(3) by blast
  then have "(word_of_nat (unat pid) :: 32 word) = word_of_nat (unat (PartitionID e))" by (simp only: prod.inject)
  then have pid: "pid = PartitionID e" by simp
  note e = r(1,2) tp p r(5) env'
  let ?q = "(Topic e, unat (PartitionID e))" and ?start = "fst (logs (Topic e, unat (PartitionID e)))"
  have holds: "part_holds p ?start (snd (logs ?q) @ [data])"
    using logs_okD [OF e(5,4)] by (simp add: append_log_def)
  have env: "array_lengths e" "Headers e = Headers env" "Topic e = Topic env" "Payload e = Payload env" "RoutingKey e = RoutingKey env"
    "MessageID e = pe_uuid pe"
    using assms(6,7) by (simp_all add: e(7) array_lengths_def with_identity_def with_default_ttl_def ApplyDefaultTTL_def)
  have d: "decode_message dec (Topic e) (unat (PartitionID e)) offset data = Some (on_wire env')"
    using decode_stored [OF e(1) assms(5) env(1)] assms(8-10) env(2) by (simp add: e(6))
  have "?start + length (snd (logs ?q) @ [data]) \<le> 2 ^ 64" using assms(11,12) e(2) by simp
  note f = Fetch_open [of "tm_storage tm'" "Topic e" "unat (PartitionID e)" p ?start "snd (logs ?q) @ [data]" offset max_n disk dec,
      OF e(4) holds _ this assms(12,11)]
  obtain k where k: "nat max_n = Suc k" using assms(12) by (metis gr0_implies_Suc zero_less_nat_eq)
  have "take (nat max_n) (drop (offset - ?start) (snd (logs ?q) @ [data])) = [data]" by (simp add: e(2) k)
  with f d e(2,3) have "Fetch False disk dec None t (unat pid) offset max_n (tm_storage tm') = (Inr ([on_wire env'], Suc offset), tm_storage tm')"
    by simp
  moreover have "Topic env' = t" "PartitionID env' = pid" using e(3,6) pid by simp_all
  ultimately show ?thesis using env by (simp add: e(6))
qed

theorem published_is_fetched_witness:
  "\<exists>tm' env'. Publish publish_env_ex env_ex tm_orders = (Inr 0, env', tm', [NotifyWaiters ''orders'' 0]) \<and>
     Fetch False (\<lambda>_. Inl ErrIO) None None ''orders'' 0 0 10 (tm_storage tm') = (Inr ([on_wire env'], 1), tm_storage tm') \<and> Payload env' = [7, 8]"
proof -
  obtain tm' where p: "Publish publish_env_ex env_ex tm_orders =
     (Inr 0, env_ex\<lparr>MessageID := replicate 16 1, Timestamp := 7\<rparr>, tm', [NotifyWaiters ''orders'' 0])" using publish_ex by blast
  have h: "NotifyWaiters ''orders'' 0 \<in> set [NotifyWaiters ''orders'' 0]" "pe_wasm publish_env_ex = None" "crypt_ok (pe_encrypt publish_env_ex) None"
    "array_lengths env_ex" "length (pe_uuid publish_env_ex) = 16" "visits (pe_order1 publish_env_ex) (Headers env_ex)"
    "visits (pe_order2 publish_env_ex) (Headers env_ex)" "short_headers (pe_order2 publish_env_ex)" "int 0 + 10 \<le> 2 ^ 64" "0 < (10 :: int)"
    by (simp_all add: publish_env_ex_def crypt_ok_def array_lengths_def env_ex_def zero_envelope_def visits_def hdr_map_def short_headers_def)
  from published_is_fetched [OF orders_logs p h, of "\<lambda>_. Inl ErrIO"] p show ?thesis by (simp add: env_ex_def)
qed


text \<open>A partition with one message, as the publication of the example leaves it.\<close>

lemma one_message:
  "\<exists>tm' p data. Publish publish_env_ex env_ex tm_orders = (Inr 0, env_ex\<lparr>MessageID := replicate 16 1, Timestamp := 7\<rparr>, tm', [NotifyWaiters ''orders'' 0]) \<and>
     tm_storage tm' (''orders'', 0) = Some p \<and> part_holds p 0 [data] \<and> decodable None ''orders'' 0 [data] \<and>
     (\<forall>i. decode_message None ''orders'' 0 i data = Some (on_wire (env_ex\<lparr>MessageID := replicate 16 1, Timestamp := 7, Sequence := word_of_nat i\<rparr>)))"
proof -
  obtain tm' where p: "Publish publish_env_ex env_ex tm_orders =
     (Inr 0, env_ex\<lparr>MessageID := replicate 16 1, Timestamp := 7\<rparr>, tm', [NotifyWaiters ''orders'' 0])" using publish_ex by blast
  have "\<not> nothing_stored [NotifyWaiters ''orders'' 0]" by (simp add: nothing_stored_def)
  with Publish_ok [OF orders_logs p] obtain e data where
    "stored_as publish_env_ex env_ex tm_orders no_logs 0 (env_ex\<lparr>MessageID := replicate 16 1, Timestamp := 7\<rparr>) tm' [NotifyWaiters ''orders'' 0] e data"
    by auto
  note c1 = this [unfolded stored_as_def Let_def]
  note c5 = c1 [THEN conjunct2, THEN conjunct2, THEN conjunct2, THEN conjunct2]
  have q: "Topic e = ''orders''" "unat (PartitionID e) = 0" using c5 [THEN conjunct1] by auto
  have ev: "env_ex\<lparr>MessageID := replicate 16 1, Timestamp := 7\<rparr> = e\<lparr>Sequence := word_of_nat 0\<rparr>"
    using c5 [THEN conjunct2, THEN conjunct2, THEN conjunct2] by (simp add: publish_env_ex_def)
  obtain pt where pt: "tm_storage tm' (''orders'', 0) = Some pt" using c5 [THEN conjunct2, THEN conjunct1] q by auto
  have h: "part_holds pt 0 [data]"
    using logs_okD [OF c5 [THEN conjunct2, THEN conjunct2, THEN conjunct1], of "(''orders'', 0)" pt] pt q by (simp add: append_log_def no_logs_def)
  have a: "array_lengths e" "Headers e = None"
    using arg_cong [OF ev, of array_lengths] arg_cong [OF ev, of Headers]
    by (simp_all add: env_ex_def zero_envelope_def array_lengths_def)
  have d: "decode_message None ''orders'' 0 i data = Some (on_wire (env_ex\<lparr>MessageID := replicate 16 1, Timestamp := 7, Sequence := word_of_nat i\<rparr>))" for i
  proof -
    have "decode_message None (Topic e) (unat (PartitionID e)) i data = Some ((on_wire e)\<lparr>Sequence := word_of_nat i\<rparr>)"
      by (rule decode_stored [OF c1 [THEN conjunct1] _ a(1)])
        (simp_all add: publish_env_ex_def crypt_ok_def visits_def hdr_map_def a(2) short_headers_def)
    moreover have "e\<lparr>Sequence := word_of_nat i\<rparr> = env_ex\<lparr>MessageID := replicate 16 1, Timestamp := 7, Sequence := word_of_nat i\<rparr>"
      using arg_cong [OF ev, of "\<lambda>x. x\<lparr>Sequence := word_of_nat i\<rparr>"] by simp
    ultimately show ?thesis using q by simp
  qed
  then have "decodable None ''orders'' 0 [data]" by (simp add: decodable_def)
  with p pt h d show ?thesis by blast
qed




text \<open>C5: The loop of a NATS subscription fetches one message from offset 0 of partition 0 in every round: its subscriber is
  sent the first message of the topic over and over and never any other.\<close>

fun nats_rounds :: "(string \<times> nat \<Rightarrow> log_error + Partition) \<Rightarrow> (bytes \<Rightarrow> string \<Rightarrow> bytes option) option \<Rightarrow> string \<Rightarrow> nat \<Rightarrow> hot_engine \<Rightarrow> Envelope list" where
  "nats_rounds disk dec topic 0 e = []"
| "nats_rounds disk dec topic (Suc k) e = (let (msgs, e) = nats_poll disk dec None topic e in msgs @ nats_rounds disk dec topic k e)"

theorem nats_repeats_first:
  assumes "e (topic, 0) = Some p" and "part_holds p 0 (data # ms)" and "length ms < 2 ^ 63"
    and "decode_message dec topic 0 0 data = Some env"
  shows "nats_rounds disk dec topic k e = replicate k env"
proof -
  have b: "(0 :: nat) \<le> 0" "0 + length (data # ms) \<le> 2 ^ 64" "(0 :: int) < 1" "int 0 + 1 \<le> 2 ^ 64" using assms(3) by simp_all
  have "Fetch False disk dec None topic 0 0 1 e = (Inr ([env], 1), e)"
    using Fetch_open [of e topic 0 p 0 "data # ms" 0 1 disk dec, OF assms(1,2) b] assms(4) by simp
  then have "nats_poll disk dec None topic e = ([env], e)" by (simp add: nats_poll_def)
  then show ?thesis by (induction k) simp_all
qed

theorem nats_repeats_first_witness:
  "\<exists>e env. nats_rounds (\<lambda>_. Inl ErrIO) None ''orders'' 3 e = [env, env, env]"
proof -
  from one_message obtain tm' :: TopicManager and p data where o: "tm_storage tm' (''orders'', 0) = Some p" "part_holds p 0 [data]"
    "\<forall>i. decode_message None ''orders'' 0 i data = Some (on_wire (env_ex\<lparr>MessageID := replicate 16 1, Timestamp := 7, Sequence := word_of_nat i\<rparr>))"
    by blast
  note d = o(3) [rule_format, of 0]
  have "length ([] :: bytes list) < 2 ^ 63" by simp
  from nats_repeats_first [of "tm_storage tm'" "''orders''" p data "[]" None _ "\<lambda>_. Inl ErrIO" 3, OF o(1,2) this d]
  show ?thesis by (auto simp: numeral_eq_Suc)
qed

text \<open>C6: A request body longer than the maximum message size, which the broker would refuse, is cut to the maximum by the
  handler, and the cut message is published and confirmed as if it had been sent.\<close>

definition http_envelope :: "string \<Rightarrow> string \<Rightarrow> string \<Rightarrow> bytes \<Rightarrow> Envelope" where
  "http_envelope t key ctype bdy = zero_envelope\<lparr>Topic := t, RoutingKey := key, Payload := bdy, ContentType := ctype, SourceProto := 4\<rparr>"

theorem http_publish_cuts_body:
  assumes "0 < pe_maxMessageSize pe" and "pe_maxMessageSize pe < int (length bdy)"
  shows "fst (Publish pe (http_envelope t key ctype bdy) tm) = Inl MessageTooLarge \<and>
    handlePublish pe t key ctype bdy tm = handlePublish pe t key ctype (take (nat (pe_maxMessageSize pe)) bdy) tm \<and>
    (\<forall>offset env tm' evs. Publish pe (http_envelope t key ctype (take (nat (pe_maxMessageSize pe)) bdy)) tm = (Inr offset, env, tm', evs) \<longrightarrow>
       handlePublish pe t key ctype bdy tm = (writeJSON 200 (JObj [(''offset'', JNum (int offset)),
          (''partition'', JNum (uint (PartitionID env))), (''topic'', JStr t)]), tm'))"
  using assms by (simp add: handlePublish_def Publish_def http_envelope_def zero_envelope_def min_def Let_def)

theorem http_publish_cuts_body_witness:
  "\<exists>tm'. handlePublish (publish_env_ex\<lparr>pe_maxMessageSize := 2\<rparr>) ''orders'' '''' '''' [7, 8, 9] tm_orders =
     (writeJSON 200 (JObj [(''offset'', JNum 0), (''partition'', JNum 0), (''topic'', JStr ''orders'')]), tm')"
proof -
  let ?pe = "publish_env_ex\<lparr>pe_maxMessageSize := 2\<rparr>"
  obtain env tm' evs where p: "Publish ?pe (http_envelope ''orders'' '''' '''' (take (nat (pe_maxMessageSize ?pe)) [7, 8, 9])) tm_orders = (Inr 0, env, tm', evs)"
      "PartitionID env = 0"
    using publish_small [of "http_envelope ''orders'' '''' '''' [7, 8]" 4 2] by (auto simp: http_envelope_def zero_envelope_def)
  then show ?thesis using http_publish_cuts_body [of ?pe "[7, 8, 9]" "''orders''" "''''" "''''" tm_orders] by fastforce
qed

end
