(* ===== verification/DLQ_Page.thy ===== *)
theory DLQ_Page
  imports Forms Responses
begin

text \<open>
  \<^verbatim>\<open>frontend/src/pages/DLQPage.tsx\<close>: the dead letter queues, their entries, and the replay and
  clear dialogs.  The virtualised list takes the indices it shows from
  \<^verbatim>\<open>@tanstack/react-virtual\<close>; they are the field \<open>virtualItems\<close> of the environment.  \<open>dlq_step\<close> is
  the page together with the clear requests in flight, as a step relation.
\<close>

section \<open>The replay form\<close>

record ReplayFormValues =
  targetTopic :: string
  dryRun :: bool
  deleteAfter :: bool

definition replaySchema :: "zod \<Rightarrow> ReplayFormValues \<Rightarrow> (string \<times> string) list" where
  "replaySchema z f = map (Pair ''targetTopic'')
     (zunion z (zstring z [ZMax 256 ''Topic name is too long''] (targetTopic f)) (zliteral z '''' (targetTopic f)))"

definition replay_defaults :: ReplayFormValues where
  "replay_defaults = \<lparr>targetTopic = '''', dryRun = False, deleteAfter = False\<rparr>"

section \<open>State\<close>

record dlq_page =
  selectedTopic :: "string option"
  viewOpen :: bool
  viewEntry :: "DLQEntry option"
  replayOpen :: bool
  clearOpen :: bool
  replayForm :: ReplayFormValues

record dlq_env =
  dlqTopics :: "string list option"
  dlqLoading :: bool
  entries :: "DLQEntry list option"
  entriesLoading :: bool
  replayPending :: bool
  replayValid :: bool
  replayErrors :: "(string \<times> string) list"
  virtualItems :: "nat list"
  toLocaleString :: "string \<Rightarrow> string"

definition dlq_init :: dlq_page where
  "dlq_init = \<lparr>selectedTopic = None, viewOpen = False, viewEntry = None, replayOpen = False,
               clearOpen = False, replayForm = replay_defaults\<rparr>"

datatype dlq_action =
    SetSelectedTopic "string option"
  | SetViewOpen bool
  | SetViewEntry DLQEntry
  | SetReplayOpen bool
  | SetClearOpen bool
  | ReplayReset
  | ReplayTarget string
  | ReplayDryRun bool
  | ReplayDeleteAfter bool
  | SubmitReplay
  | MutateClear

fun dlq_act :: "dlq_action \<Rightarrow> dlq_page \<Rightarrow> dlq_page" where
  "dlq_act (SetSelectedTopic t) s = s\<lparr>selectedTopic := t\<rparr>"
| "dlq_act (SetViewOpen b) s = s\<lparr>viewOpen := b\<rparr>"
| "dlq_act (SetViewEntry x) s = s\<lparr>viewEntry := Some x\<rparr>"
| "dlq_act (SetReplayOpen b) s = s\<lparr>replayOpen := b\<rparr>"
| "dlq_act (SetClearOpen b) s = s\<lparr>clearOpen := b\<rparr>"
| "dlq_act ReplayReset s = s\<lparr>replayForm := replay_defaults\<rparr>"
| "dlq_act (ReplayTarget t) s = s\<lparr>replayForm := (replayForm s)\<lparr>targetTopic := t\<rparr>\<rparr>"
| "dlq_act (ReplayDryRun b) s = s\<lparr>replayForm := (replayForm s)\<lparr>dryRun := b\<rparr>\<rparr>"
| "dlq_act (ReplayDeleteAfter b) s = s\<lparr>replayForm := (replayForm s)\<lparr>deleteAfter := b\<rparr>\<rparr>"
| "dlq_act SubmitReplay s = s"
| "dlq_act MutateClear s = s"

text \<open>A handler performs its actions in order.\<close>

definition dlq_acts :: "dlq_action list \<Rightarrow> dlq_page \<Rightarrow> dlq_page" where
  "dlq_acts as s = fold dlq_act as s"

section \<open>Queries\<close>

text \<open>\<open>data.topics ?? []\<close> and \<open>data.entries ?? []\<close>; every rejection, and the exception of reading a
  property of \<open>null\<close>, gives the empty list.\<close>

definition listed :: "string \<Rightarrow> rejection + json \<Rightarrow> json" where
  "listed k r = (case r of Inl _ \<Rightarrow> JArr []
     | Inr data \<Rightarrow> (case get_prop data k of None \<Rightarrow> JArr [] | Some v \<Rightarrow> nullish v (JArr [])))"

definition listDLQ :: "auth_state \<Rightarrow> fetcher \<Rightarrow> json" where
  "listDLQ st fetch = listed ''topics'' (perform st fetch listDLQTopics)"

definition peekDLQ :: "auth_state \<Rightarrow> fetcher \<Rightarrow> string \<Rightarrow> nat \<Rightarrow> json" where
  "peekDLQ st fetch topic limit = listed ''entries'' (perform st fetch (getDLQ topic limit))"

text \<open>The second query runs while a topic is selected, with the default limit of 50.\<close>

definition entries_queryFn :: "auth_state \<Rightarrow> fetcher \<Rightarrow> dlq_page \<Rightarrow> json option" where
  "entries_queryFn st fetch s =
     (if truthy_str (selectedTopic s) then Some (peekDLQ st fetch (tpl (selectedTopic s)) 50) else None)"

section \<open>Mutations\<close>

definition replay_options :: "ReplayFormValues \<Rightarrow> (string \<times> json) list" where
  "replay_options d =
     [(''dry_run'', JBool (dryRun d)), (''delete_after_replay'', JBool (deleteAfter d))] @
     guard (targetTopic d \<noteq> []) [(''target_topic'', JStr (targetTopic d))]"

definition replay_mutationFn :: "dlq_page \<Rightarrow> ReplayFormValues \<Rightarrow> api_call" where
  "replay_mutationFn closure d = replayDLQ (tpl (selectedTopic closure)) (replay_options d)"

definition replay_submit :: "zod \<Rightarrow> dlq_page \<Rightarrow> effect list" where
  "replay_submit z s = (if replaySchema z (replayForm s) = [] then [Call (replay_mutationFn s (replayForm s))] else [])"

definition replay_onSuccess :: "dlq_page \<Rightarrow> bool \<Rightarrow> int \<Rightarrow> dlq_page \<Rightarrow> dlq_page \<times> effect list" where
  "replay_onSuccess closure dry n s =
     (s\<lparr>replayOpen := False, replayForm := replay_defaults\<rparr>,
      [if dry then Toast ToastInfo (''Dry run: '' @ show_int n @ '' messages would be replayed'')
       else Toast ToastSuccess (''Replayed '' @ show_int n @ '' messages from \"'' @ tpl (selectedTopic closure) @ ''\"''),
       Invalidate [''dlq-entries'', tpl (selectedTopic closure)]])"

definition replay_onError :: "string option \<Rightarrow> dlq_page \<Rightarrow> dlq_page \<times> effect list" where
  "replay_onError msg s = (s, [error_toast msg ''Failed to replay messages''])"

definition clear_mutationFn :: "dlq_page \<Rightarrow> api_call" where
  "clear_mutationFn closure = clearDLQ (tpl (selectedTopic closure))"

definition clear_onSuccess :: "dlq_page \<Rightarrow> dlq_page \<Rightarrow> dlq_page \<times> effect list" where
  "clear_onSuccess closure s =
     (s\<lparr>clearOpen := False, selectedTopic := None\<rparr>,
      [Toast ToastSuccess (''DLQ \"'' @ tpl (selectedTopic closure) @ ''\" cleared''), Invalidate [''dlq-topics'']])"

definition clear_onError :: "string option \<Rightarrow> dlq_page \<Rightarrow> dlq_page \<times> effect list" where
  "clear_onError msg s = (s, [error_toast msg ''Failed to clear DLQ''])"

section \<open>View\<close>

definition dlq_loading :: "dlq_action vnode" where
  "dlq_loading = El TDiv [] [El TSkeleton [] [], El TCard [] [El TCardContent [] [El TSkeleton [] []]]]"

text \<open>The body of an entry; both lists have it, with their own handler of the view button.\<close>

definition entry_item :: "(DLQEntry \<Rightarrow> dlq_action list) \<Rightarrow> dlq_env \<Rightarrow> DLQEntry \<Rightarrow> dlq_action vnode" where
  "entry_item onView e x = El TDiv [Key (show_int (e_id x))]
     [El TDiv []
       [El TDiv []
         [El TDiv []
           [El TCode [] [Txt ''ID: '', Txt (show_int (e_id x))],
            El TBadge [Variant VSecondary] [Txt ''Partition '', Txt (show_int (e_partition x))],
            El TBadge [Variant VOutline] [Txt (show_int (e_retries x)), Txt '' retries'']],
          El TP [] [Txt (case e_original_msg x of Some m \<Rightarrow> om_topic m | None \<Rightarrow> e_topic x)],
          El TP [] [Txt ''Reason: '', Txt (e_reason x)]],
        El TDiv []
         [El TSpan [] [Txt (toLocaleString e (e_failed_at x))],
          El TButton [Variant VGhost, OnClick (onView x), AriaLabel (''View DLQ entry '' @ show_int (e_id x))] []]]]"

definition virtual_item :: "(DLQEntry \<Rightarrow> dlq_action list) \<Rightarrow> dlq_env \<Rightarrow> DLQEntry list \<Rightarrow> nat \<Rightarrow> dlq_action vnode list" where
  "virtual_item onView e xs i = (if i < length xs then [entry_item onView e (xs ! i)] else [])"

definition EntriesVirtualList :: "(DLQEntry \<Rightarrow> dlq_action list) \<Rightarrow> dlq_env \<Rightarrow> DLQEntry list \<Rightarrow> dlq_action vnode" where
  "EntriesVirtualList onView e xs = El TDiv [] [El TDiv [] (concat (map (virtual_item onView e xs) (virtualItems e)))]"

definition toggle_topic :: "dlq_page \<Rightarrow> string \<Rightarrow> dlq_action" where
  "toggle_topic s t = SetSelectedTopic (if selectedTopic s = Some t then None else Some t)"

definition dlq_card :: "dlq_page \<Rightarrow> string \<Rightarrow> dlq_action vnode" where
  "dlq_card s t = El TDiv [Key t]
     [El TDiv [] [El TBadge [Variant VDestructive] [Txt t], El TSpan [] [Txt ''Tap to inspect'']],
      El TDiv []
       [El TButton [Variant VGhost, OnClick [toggle_topic s t], AriaLabel (''Inspect DLQ topic '' @ t)] [Txt ''Inspect''],
        El TButton [Variant VGhost, OnClick [SetSelectedTopic (Some t), SetReplayOpen True],
                    AriaLabel (''Replay DLQ topic '' @ t)] [Txt ''Replay''],
        El TButton [Variant VGhost, OnClick [SetSelectedTopic (Some t), SetClearOpen True],
                    AriaLabel (''Clear DLQ topic '' @ t)] [Txt ''Clear'']]]"

definition dlq_row :: "dlq_page \<Rightarrow> string \<Rightarrow> dlq_action vnode" where
  "dlq_row s t = El TDiv [Key t, OnClick [toggle_topic s t]]
     [El TDiv [] [El TBadge [Variant VDestructive] [Txt t], El TSpan [] [Txt ''Click to inspect'']],
      El TDiv []
       [El TButton [Variant VGhost, StopPropagation, OnClick [toggle_topic s t],
                    AriaLabel (''Inspect DLQ topic '' @ t)] [Txt ''Inspect''],
        El TButton [Variant VGhost, StopPropagation, OnClick [SetSelectedTopic (Some t), SetReplayOpen True],
                    AriaLabel (''Replay DLQ topic '' @ t)] [Txt ''Replay''],
        El TButton [Variant VGhost, StopPropagation, OnClick [SetSelectedTopic (Some t), SetClearOpen True],
                    AriaLabel (''Clear DLQ topic '' @ t)] []]]"

definition dlq_topics_card :: "dlq_page \<Rightarrow> dlq_env \<Rightarrow> dlq_action vnode" where
  "dlq_topics_card s e = El TCard []
     [El TCardHeader []
       [El TCardTitle [] [Txt (show_nat (case dlqTopics e of Some ts \<Rightarrow> length ts | None \<Rightarrow> 0)), Txt '' DLQ Topics''],
        El TCardDescription [] [Txt ''Messages that exceeded max retries are routed here'']],
      El TCardContent []
       (case dlqTopics e of
          Some (t # ts) \<Rightarrow> [El TDiv [Vis Mobile] (map (dlq_card s) (t # ts)),
                            El TDiv [Vis Desktop] (map (dlq_row s) (t # ts))]
        | _ \<Rightarrow> [El TDiv [] [El TH3 [] [Txt ''No DLQ topics active''],
                           El TP [] [Txt ''Failed messages will appear here when DLQ is enabled'']]])]"

text \<open>More than 100 entries go to the virtualised list, whose \<open>onView\<close> is \<open>setViewEntry\<close>; the plain
  list's handler also opens the dialog.\<close>

definition entries_list :: "dlq_env \<Rightarrow> DLQEntry list \<Rightarrow> dlq_action vnode" where
  "entries_list e xs =
     (if 100 < length xs then EntriesVirtualList (\<lambda>x. [SetViewEntry x]) e xs
      else El TDiv [] (map (entry_item (\<lambda>x. [SetViewEntry x, SetViewOpen True]) e) xs))"

definition entries_card :: "dlq_page \<Rightarrow> dlq_env \<Rightarrow> dlq_action vnode" where
  "entries_card s e = El TCard []
     [El TCardHeader []
       [El TCardTitle []
         [El TSpan [] [Txt (tpl (selectedTopic s))],
          El TDiv [] [El TBadge [Variant VDestructive]
            [Txt (if entriesLoading e then ''...''
                  else show_nat (case entries e of Some xs \<Rightarrow> length xs | None \<Rightarrow> 0)), Txt '' entries'']]],
        El TCardDescription [] [Txt ''Failed messages in DLQ topic'']],
      El TCardContent []
       [if entriesLoading e then El TDiv [] (map (\<lambda>i. El TSkeleton [Key (show_nat i)] []) [0, 1, 2])
        else (case entries e of
            Some (x # xs) \<Rightarrow> entries_list e (x # xs)
          | _ \<Rightarrow> El TDiv [] [El TP [] [Txt ''No entries in this DLQ topic'']])]]"

definition opt_txt :: "string option \<Rightarrow> dlq_action vnode list" where
  "opt_txt x = (case x of Some t \<Rightarrow> [Txt t] | None \<Rightarrow> [])"

definition message_tab :: "dlq_env \<Rightarrow> DLQEntry \<Rightarrow> dlq_action vnode" where
  "message_tab e x = El TTabsContent [Value ''message'']
     [El TDiv []
       ([El TDiv []
          [El TDiv [] [El TLabel [] [Txt ''Topic''], El TP [] (opt_txt (map_option om_topic (e_original_msg x)))],
           El TDiv [] [El TLabel [] [Txt ''Message ID''], El TP [] (opt_txt (map_option om_id (e_original_msg x)))],
           El TDiv [] [El TLabel [] [Txt ''Failed At''], El TP [] [Txt (toLocaleString e (e_failed_at x))]],
           El TDiv [] [El TLabel [] [Txt ''Retries''], El TP [] [Txt (show_int (e_retries x))]]],
         El TDiv [] [El TLabel [] [Txt ''Failure Reason''], El TP [] [Txt (e_reason x)]]]
        @ (case e_original_msg x of
             Some m \<Rightarrow> guard (om_body m \<noteq> []) [El TDiv [] [El TLabel [] [Txt ''Body''], El TPre [] [Txt (om_body m)]]]
           | None \<Rightarrow> []))]"

definition details_tab :: "DLQEntry \<Rightarrow> dlq_action vnode" where
  "details_tab x = El TTabsContent [Value ''details'']
     [El TDiv []
       ([El TDiv []
          [El TDiv [] [El TLabel [] [Txt ''DLQ Entry ID''], El TP [] [Txt (show_int (e_id x))]],
           El TDiv [] [El TLabel [] [Txt ''Partition''], El TP [] [Txt (show_int (e_partition x))]]]]
        @ (case Option.bind (e_original_msg x) om_headers of
             Some h \<Rightarrow> guard (h \<noteq> []) [El TDiv [] [El TLabel [] [Txt ''Headers''],
               El TPre [] [Txt (JSON_stringify2 (JObj (map (\<lambda>(k, v). (k, JStr v)) h)))]]]
           | None \<Rightarrow> []))]"

definition raw_tab :: "DLQEntry \<Rightarrow> dlq_action vnode" where
  "raw_tab x = El TTabsContent [Value ''raw''] [El TPre [] [Txt (JSON_stringify2 (e_raw x))]]"

definition view_dialog :: "dlq_page \<Rightarrow> dlq_env \<Rightarrow> dlq_action vnode" where
  "view_dialog s e = El TDialog [Open (viewOpen s), OnOpenChange (\<lambda>b. [SetViewOpen b])]
     [El TDialogContent []
       ([El TDialogHeader []
          [El TDialogTitle [] (Txt ''DLQ Entry #'' # opt_txt (map_option (show_int \<circ> e_id) (viewEntry s))),
           El TDialogDescription []
            (opt_txt (map_option om_topic (Option.bind (viewEntry s) e_original_msg)) @ [Txt '' - Partition ''] @
             opt_txt (map_option (show_int \<circ> e_partition) (viewEntry s)))]]
        @ (case viewEntry s of None \<Rightarrow> []
           | Some x \<Rightarrow> [El TTabs [Value ''message'']
               [El TTabsList []
                 [El TTabsTrigger [Value ''message''] [Txt ''Message''],
                  El TTabsTrigger [Value ''details''] [Txt ''Details''],
                  El TTabsTrigger [Value ''raw''] [Txt ''Raw JSON'']],
                message_tab e x, details_tab x, raw_tab x]]))]"

definition replay_dialog :: "dlq_page \<Rightarrow> dlq_env \<Rightarrow> dlq_action vnode" where
  "replay_dialog s e =
     El TDialog [Open (replayOpen s), OnOpenChange (\<lambda>open. SetReplayOpen open # guard open [ReplayReset])]
     [El TDialogContent []
       [El TDialogHeader []
         [El TDialogTitle [] [Txt ''Replay DLQ Messages''],
          El TDialogDescription [] ([Txt ''Replay failed messages from \"''] @ opt_txt (selectedTopic s) @ [Txt ''\"''])],
        El TForm [OnSubmit [SubmitReplay]]
         [El TDiv []
           ([El TLabel [] [Txt ''Target Topic (optional)''],
             El TInput [Value (targetTopic (replayForm s)), OnChange (\<lambda>v. [ReplayTarget v])] []]
            @ (case map_of (replayErrors e) ''targetTopic'' of Some m \<Rightarrow> [El TP [] [Txt m]] | None \<Rightarrow> [])
            @ [El TP [] [Txt ''Messages will be replayed to their original topic if not specified'']]),
          El TDiv []
           [El TDiv []
             [El TSwitch [Checked (dryRun (replayForm s)), OnCheckedChange (\<lambda>v. [ReplayDryRun v])] [],
              El TLabel [] [Txt ''Dry run (preview only)'']],
            El TDiv []
             [El TSwitch [Checked (deleteAfter (replayForm s)), OnCheckedChange (\<lambda>v. [ReplayDeleteAfter v])] [],
              El TLabel [] [Txt ''Delete after replay'']]],
          El TDialogFooter []
           [El TButton [Variant VOutline, OnClick [SetReplayOpen False]] [Txt ''Cancel''],
            El TButton [Disabled (\<not> replayValid e \<or> replayPending e),
                        Variant (if dryRun (replayForm s) then VOutline else VDefault)]
             [Txt (if dryRun (replayForm s) then ''Preview'' else ''Replay'')]]]]]"

definition clear_dialog :: "dlq_page \<Rightarrow> dlq_action vnode" where
  "clear_dialog s = El TAlertDialog [Open (clearOpen s), OnOpenChange (\<lambda>b. [SetClearOpen b])]
     [El TAlertDialogContent []
       [El TAlertDialogHeader []
         [El TAlertDialogTitle [] [Txt ''Clear DLQ Topic''],
          El TAlertDialogDescription []
           ([Txt ''Are you sure you want to clear all entries from \"''] @ opt_txt (selectedTopic s) @
            [Txt ''\"? This action cannot be undone.''])],
        El TAlertDialogFooter []
         [El TAlertDialogCancel [] [Txt ''Cancel''], El TAlertDialogAction [OnClick [MutateClear]] [Txt ''Clear'']]]]"

definition dlq_header :: "dlq_action vnode" where
  "dlq_header = El TDiv [] [El TDiv [] [El TH1 [] [Txt ''Dead Letter Queue''], El TP [] [Txt ''Inspect and replay failed messages'']]]"

definition dlq_view :: "dlq_page \<Rightarrow> dlq_env \<Rightarrow> dlq_action vnode" where
  "dlq_view s e =
     (if dlqLoading e then dlq_loading
      else El TDiv []
        ([dlq_header, dlq_topics_card s e] @ guard (truthy_str (selectedTopic s)) [entries_card s e] @
         [view_dialog s e, replay_dialog s e, clear_dialog s]))"

section \<open>The page and its requests in flight\<close>

text \<open>
  A state is the page and the number of clear requests in flight.  The dialogs are modal: the
  buttons of the lists can be pressed only while no dialog is open, and the handlers of a dialog
  only while it is open.  The confirm button of an alert dialog starts the mutation and closes the
  dialog.  A clear request may complete at any time; \<open>late\<close> says whether it may complete while the
  replay dialog is open.
\<close>

definition no_dialog :: "dlq_page \<Rightarrow> bool" where
  "no_dialog s \<longleftrightarrow> \<not> viewOpen s \<and> \<not> replayOpen s \<and> \<not> clearOpen s"

inductive dlq_step :: "bool \<Rightarrow> dlq_page \<times> nat \<Rightarrow> dlq_page \<times> nat \<Rightarrow> bool" for late where
  press: "no_dialog s \<Longrightarrow> (l, as) \<in> set (buttons_on Desktop (dlq_view s e)) \<Longrightarrow> dlq_step late (s, n) (dlq_acts as s, n)"
| view_change: "viewOpen s \<Longrightarrow> dlq_step late (s, n) (dlq_acts [SetViewOpen b] s, n)"
| replay_change: "replayOpen s \<Longrightarrow>
    a \<in> {SetReplayOpen False} \<union> range ReplayTarget \<union> range ReplayDryRun \<union> range ReplayDeleteAfter \<Longrightarrow>
    dlq_step late (s, n) (dlq_act a s, n)"
| replay_done: "dlq_step late (s, n) (fst (replay_onSuccess s dry k s), n)"
| clear_cancel: "clearOpen s \<Longrightarrow> dlq_step late (s, n) (dlq_act (SetClearOpen False) s, n)"
| clear_confirm: "clearOpen s \<Longrightarrow> dlq_step late (s, n) (dlq_acts [MutateClear, SetClearOpen False] s, Suc n)"
| clear_done: "late \<or> \<not> replayOpen s \<Longrightarrow> dlq_step late (s, Suc n) (fst (clear_onSuccess s s), n)"
| clear_failed: "dlq_step late (s, Suc n) (fst (clear_onError m s), n)"

definition dialog_has_topic :: "dlq_page \<Rightarrow> bool" where
  "dialog_has_topic s \<longleftrightarrow> (replayOpen s \<or> clearOpen s \<longrightarrow> (\<exists>t. selectedTopic s = Some t))"


section \<open>Lemmas\<close>

interpretation dlq_layout: two_layouts "dlq_card s" "dlq_row s" for s
  by unfold_locales (simp add: dlq_card_def dlq_row_def)

lemma buttons_dlq_row:
  "buttons_on sc (dlq_row s t) =
     [(''Inspect DLQ topic '' @ t, [toggle_topic s t]),
      (''Replay DLQ topic '' @ t, [SetSelectedTopic (Some t), SetReplayOpen True]),
      (''Clear DLQ topic '' @ t, [SetSelectedTopic (Some t), SetClearOpen True])]"
  by (simp add: dlq_row_def)

lemma buttons_entry_item [simp]:
  "buttons_on sc (entry_item onView e x) = [(''View DLQ entry '' @ show_int (e_id x), onView x)]"
  by (simp add: entry_item_def)

lemma buttons_opt_txt [simp]: "concat (map (buttons_on sc) (opt_txt x)) = []"
  by (cases x) (simp_all add: opt_txt_def)

lemma buttons_message_tab [simp]: "buttons_on sc (message_tab e x) = []"
  by (cases "e_original_msg x") (simp_all add: message_tab_def guard_def)

lemma buttons_details_tab [simp]: "buttons_on sc (details_tab x) = []"
  by (cases "Option.bind (e_original_msg x) om_headers") (simp_all add: details_tab_def guard_def)

lemma buttons_view_dialog [simp]: "buttons_on sc (view_dialog s e) = []"
  by (cases "viewEntry s") (simp_all add: view_dialog_def raw_tab_def)

lemma buttons_replay_dialog [simp]: "buttons_on sc (replay_dialog s e) = []"
  by (cases "map_of (replayErrors e) ''targetTopic''") (simp_all add: replay_dialog_def)

lemma buttons_clear_dialog [simp]: "buttons_on sc (clear_dialog s) = []" "buttons_on sc dlq_header = []"
  by (simp_all add: clear_dialog_def dlq_header_def)

lemma buttons_entries_list:
  "buttons_on sc (entries_list e xs) =
     (if 100 < length xs
      then concat (map (\<lambda>i. if i < length xs then [(''View DLQ entry '' @ show_int (e_id (xs ! i)), [SetViewEntry (xs ! i)])] else [])
             (virtualItems e))
      else map (\<lambda>x. (''View DLQ entry '' @ show_int (e_id x), [SetViewEntry x, SetViewOpen True])) xs)"
proof -
  have "concat (map (buttons_on sc) (concat (map (virtual_item f e xs) is))) =
    concat (map (\<lambda>i. if i < length xs then [(''View DLQ entry '' @ show_int (e_id (xs ! i)), f (xs ! i))] else []) is)" for f "is"
    by (induction "is") (simp_all add: virtual_item_def)
  moreover have "concat (map (buttons_on sc \<circ> entry_item f e) ys) =
    map (\<lambda>x. (''View DLQ entry '' @ show_int (e_id x), f x)) ys" for f ys
    by (induction ys) simp_all
  ultimately show ?thesis by (simp add: entries_list_def EntriesVirtualList_def)
qed

text \<open>The buttons of the page: three per topic, then those of the entries of the selected topic.\<close>

definition topic_buttons_of :: "dlq_page \<Rightarrow> dlq_env \<Rightarrow> (string \<times> dlq_action list) list" where
  "topic_buttons_of s e = concat (map (buttons_on Desktop \<circ> dlq_row s) (case dlqTopics e of Some ts \<Rightarrow> ts | None \<Rightarrow> []))"

definition entry_buttons_of :: "dlq_page \<Rightarrow> dlq_env \<Rightarrow> (string \<times> dlq_action list) list" where
  "entry_buttons_of s e =
     guard (truthy_str (selectedTopic s) \<and> \<not> entriesLoading e)
       (buttons_on Desktop (entries_list e (case entries e of Some xs \<Rightarrow> xs | None \<Rightarrow> [])))"

lemma buttons_topics_part: "buttons_on sc (dlq_topics_card s e) = topic_buttons_of s e"
proof (cases "dlqTopics e")
  case (Some ts)
  have "concat (map (buttons_on Mobile \<circ> dlq_card s) ts) = concat (map (buttons_on Desktop \<circ> dlq_row s) ts)"
    by (rule dlq_layout.lists_agree)
  with Some show ?thesis
    by (cases sc; cases ts) (simp_all add: dlq_topics_card_def topic_buttons_of_def comp_def)
qed (simp add: dlq_topics_card_def topic_buttons_of_def)

lemma buttons_entries_part:
  "concat (map (buttons_on sc) (guard (truthy_str (selectedTopic s)) [entries_card s e])) = entry_buttons_of s e"
proof (cases "entries e")
  case (Some xs)
  then show ?thesis
    by (cases xs) (simp_all add: entries_card_def entry_buttons_of_def buttons_entries_list guard_def)
qed (simp add: entries_card_def entry_buttons_of_def buttons_entries_list guard_def)

lemma buttons_dlq_view:
  "\<not> dlqLoading e \<Longrightarrow> buttons_on sc (dlq_view s e) = topic_buttons_of s e @ entry_buttons_of s e"
  using buttons_entries_part [of sc s e] by (simp add: dlq_view_def buttons_topics_part)

lemma buttons_dlq_loading: "dlqLoading e \<Longrightarrow> buttons_on sc (dlq_view s e) = []"
  by (simp add: dlq_view_def dlq_loading_def)

lemma dlq_acts_simps [simp]: "dlq_acts [] s = s" "dlq_acts (a # as) s = dlq_acts as (dlq_act a s)"
  by (simp_all add: dlq_acts_def)

lemma button_actions:
  assumes "(l, as) \<in> set (buttons_on sc (dlq_view s e))"
  obtains (inspect) t where "as = [toggle_topic s t]"
    | (replay) t where "as = [SetSelectedTopic (Some t), SetReplayOpen True]"
    | (clear) t where "as = [SetSelectedTopic (Some t), SetClearOpen True]"
    | (pick) x where "as = [SetViewEntry x]"
    | (view) x where "as = [SetViewEntry x, SetViewOpen True]"
proof -
  have "\<not> dlqLoading e" using assms by (auto simp: buttons_dlq_loading)
  with assms that show thesis
    by (auto simp: buttons_dlq_view topic_buttons_of_def entry_buttons_of_def buttons_dlq_row
        buttons_entries_list guard_def split: if_splits)
qed

lemma press_keeps:
  assumes "no_dialog s" and "(l, as) \<in> set (buttons_on sc (dlq_view s e))"
  shows "dialog_has_topic (dlq_acts as s)"
  using assms(2)
proof (cases rule: button_actions)
qed (use assms(1) in \<open>simp_all add: dialog_has_topic_def no_dialog_def toggle_topic_def\<close>)

lemma dlq_step_keeps:
  assumes "dlq_step False p q" and "dialog_has_topic (fst p)"
  shows "dialog_has_topic (fst q)"
  using assms
proof (cases rule: dlq_step.cases)
  case (press s l as e n)
  with press_keeps show ?thesis by simp
qed (auto simp: dialog_has_topic_def replay_onSuccess_def clear_onSuccess_def clear_onError_def)

section \<open>Properties\<close>

text \<open>C12: In every reachable state of the dead letter page an open replay or clear dialog has a selected
  topic, so that its request is made for that topic, as long as no clear request completes
  while the replay dialog is open.\<close>

theorem dlq_dialog_has_topic:
  assumes "(dlq_step False)\<^sup>*\<^sup>* (dlq_init, 0) (s, n)"
  shows "replayOpen s \<or> clearOpen s \<longrightarrow> (\<exists>t. selectedTopic s = Some t)"
proof -
  have "dialog_has_topic (fst (s, n))"
    using assms
  proof (induction rule: rtranclp_induct)
    case base
    then show ?case by (simp add: dialog_has_topic_def dlq_init_def)
  next
    case (step y z)
    then show ?case using dlq_step_keeps by blast
  qed
  then show ?thesis by (simp add: dialog_has_topic_def)
qed

definition dlq_env_ex :: dlq_env where
  "dlq_env_ex = \<lparr>dlqTopics = Some [''a'', ''b''], dlqLoading = False, entries = Some [], entriesLoading = False,
     replayPending = False, replayValid = True, replayErrors = [], virtualItems = [], toLocaleString = id\<rparr>"

definition dlq_replay_a :: dlq_page where
  "dlq_replay_a = dlq_init\<lparr>selectedTopic := Some ''a'', replayOpen := True\<rparr>"

lemma press_button:
  assumes "t \<in> {''a'', ''b''}" and "no_dialog s"
  shows "dlq_step late (s, n) (s\<lparr>selectedTopic := Some t, replayOpen := True\<rparr>, n)"
    and "dlq_step late (s, n) (s\<lparr>selectedTopic := Some t, clearOpen := True\<rparr>, n)"
proof -
  have m: "(''Replay DLQ topic '' @ t, [SetSelectedTopic (Some t), SetReplayOpen True]) \<in> set (buttons_on Desktop (dlq_view s dlq_env_ex))"
    "(''Clear DLQ topic '' @ t, [SetSelectedTopic (Some t), SetClearOpen True]) \<in> set (buttons_on Desktop (dlq_view s dlq_env_ex))"
    using assms(1) by (auto simp: buttons_dlq_view topic_buttons_of_def buttons_dlq_row dlq_env_ex_def)
  show "dlq_step late (s, n) (s\<lparr>selectedTopic := Some t, replayOpen := True\<rparr>, n)"
    using dlq_step.press [OF assms(2) m(1)] by simp
  show "dlq_step late (s, n) (s\<lparr>selectedTopic := Some t, clearOpen := True\<rparr>, n)"
    using dlq_step.press [OF assms(2) m(2)] by simp
qed

theorem dlq_dialog_has_topic_witness:
  "(dlq_step False)\<^sup>*\<^sup>* (dlq_init, 0) (dlq_replay_a, 0) \<and> replayOpen dlq_replay_a \<and>
   (\<exists>t. selectedTopic dlq_replay_a = Some t)"
proof -
  have "dlq_step False (dlq_init, 0) (dlq_replay_a, 0)"
    using press_button(1) [of "''a''" dlq_init False 0] by (simp add: no_dialog_def dlq_init_def dlq_replay_a_def)
  then have r: "(dlq_step False)\<^sup>*\<^sup>* (dlq_init, 0) (dlq_replay_a, 0)" by blast
  moreover have "replayOpen dlq_replay_a" by (simp add: dlq_replay_a_def)
  ultimately show ?thesis using dlq_dialog_has_topic [OF r] by blast
qed

text \<open>If the user opens the replay dialog of one topic while the clear request of another one is in
  flight, the completion of that request takes the selected topic away from the open dialog, and
  submitting it asks the server to replay the topic called \<open>null\<close>.\<close>

theorem dlq_late_clear_replays_null:
  "\<exists>s. (dlq_step True)\<^sup>*\<^sup>* (dlq_init, 0) (s, 0) \<and> replayOpen s \<and>
     replay_submit zod_doc s = [Call (replayDLQ ''null'' (replay_options replay_defaults))]"
proof -
  define s1 where "s1 = dlq_init\<lparr>selectedTopic := Some ''a'', clearOpen := True\<rparr>"
  define s2 where "s2 = s1\<lparr>clearOpen := False\<rparr>"
  define s3 where "s3 = s2\<lparr>selectedTopic := Some ''b'', replayOpen := True\<rparr>"
  define s4 where "s4 = s3\<lparr>clearOpen := False, selectedTopic := None\<rparr>"
  have "dlq_step True (dlq_init, 0) (s1, 0)"
    unfolding s1_def by (rule press_button) (simp_all add: no_dialog_def dlq_init_def)
  moreover have "dlq_step True (s1, 0) (s2, Suc 0)"
    using dlq_step.clear_confirm [of s1 True 0] by (simp add: s1_def s2_def)
  moreover have "dlq_step True (s2, Suc 0) (s3, Suc 0)"
    unfolding s3_def by (rule press_button) (simp_all add: no_dialog_def s2_def s1_def dlq_init_def)
  moreover have "dlq_step True (s3, Suc 0) (s4, 0)"
    using dlq_step.clear_done [of True s3 0] by (simp add: s4_def clear_onSuccess_def)
  ultimately have "(dlq_step True)\<^sup>*\<^sup>* (dlq_init, 0) (s4, 0)"
    by (meson converse_rtranclp_into_rtranclp rtranclp.rtrancl_refl)
  moreover have "replayForm s4 = replay_defaults" "selectedTopic s4 = None" "replayOpen s4"
    by (simp_all add: s4_def s3_def s2_def s1_def dlq_init_def)
  moreover have "replaySchema zod_doc replay_defaults = []" by code_simp
  ultimately show ?thesis by (auto simp: replay_submit_def replay_mutationFn_def tpl_def)
qed

text \<open>Cancelling the replay dialog keeps the values typed into it, and opening it for another topic
  shows them again: a target topic and the choice to delete after the replay carry over from one
  dead letter topic to the next.\<close>

theorem dlq_replay_form_carries_over:
  "\<exists>s. (dlq_step False)\<^sup>*\<^sup>* (dlq_replay_a, 0) (s, 0) \<and> replayOpen s \<and> selectedTopic s = Some ''b'' \<and>
     replayForm s = replay_defaults\<lparr>deleteAfter := True\<rparr>"
proof -
  define s1 where "s1 = dlq_replay_a\<lparr>replayForm := replay_defaults\<lparr>deleteAfter := True\<rparr>\<rparr>"
  define s2 where "s2 = s1\<lparr>replayOpen := False\<rparr>"
  define s3 where "s3 = s2\<lparr>selectedTopic := Some ''b'', replayOpen := True\<rparr>"
  have "dlq_step False (dlq_replay_a, 0) (s1, 0)"
    using dlq_step.replay_change [of dlq_replay_a "ReplayDeleteAfter True" False 0]
    by (simp add: s1_def dlq_replay_a_def dlq_init_def)
  moreover have "dlq_step False (s1, 0) (s2, 0)"
    using dlq_step.replay_change [of s1 "SetReplayOpen False" False 0] by (simp add: s1_def s2_def dlq_replay_a_def)
  moreover have "dlq_step False (s2, 0) (s3, 0)"
    unfolding s3_def by (rule press_button) (simp_all add: no_dialog_def s2_def s1_def dlq_replay_a_def dlq_init_def)
  ultimately have "(dlq_step False)\<^sup>*\<^sup>* (dlq_replay_a, 0) (s3, 0)"
    by (meson converse_rtranclp_into_rtranclp rtranclp.rtrancl_refl)
  then show ?thesis by (auto simp: s3_def s2_def s1_def)
qed

text \<open>The phone layout and the wide layout of the dead letter page offer the same labelled buttons
  with the same handlers.\<close>

lemma dlq_layouts: "buttons_on Mobile (dlq_view s e) = buttons_on Desktop (dlq_view s e)"
  by (cases "dlqLoading e") (simp_all add: buttons_dlq_loading buttons_dlq_view)

text \<open>With at most a hundred entries every entry of the selected topic has a view button, in order,
  and pressing it opens the dialog on that entry; with more, pressing a view button does not
  open the dialog.\<close>

theorem dlq_view_buttons:
  assumes "\<not> dlqLoading e" "truthy_str (selectedTopic s)" "\<not> entriesLoading e" "entries e = Some xs" "\<not> viewOpen s"
    and "(l, as) \<in> set (entry_buttons_of s e)"
  shows "set (entry_buttons_of s e) \<subseteq> set (buttons_on sc (dlq_view s e)) \<and>
    viewEntry (dlq_acts as s) \<in> Some ` set xs \<and>
    viewOpen (dlq_acts as s) = (length xs \<le> 100) \<and>
    (length xs \<le> 100 \<longrightarrow> map fst (entry_buttons_of s e) = map (\<lambda>x. ''View DLQ entry '' @ show_int (e_id x)) xs)"
  using assms by (auto simp: buttons_dlq_view entry_buttons_of_def buttons_entries_list split: if_splits)

definition dlq_entry_ex :: DLQEntry where
  "dlq_entry_ex = \<lparr>e_id = 7, e_original_msg = None, e_topic = ''a'', e_partition = 0, e_reason = ''expired'',
     e_retries = 3, e_failed_at = '''', e_raw = JNull\<rparr>"

theorem dlq_view_buttons_witness:
  "(''View DLQ entry 7'', [SetViewEntry dlq_entry_ex, SetViewOpen True]) \<in>
     set (entry_buttons_of (dlq_init\<lparr>selectedTopic := Some ''a''\<rparr>) (dlq_env_ex\<lparr>entries := Some [dlq_entry_ex]\<rparr>)) \<and>
   viewOpen (dlq_acts [SetViewEntry dlq_entry_ex, SetViewOpen True] (dlq_init\<lparr>selectedTopic := Some ''a''\<rparr>))"
proof -
  let ?s = "dlq_init\<lparr>selectedTopic := Some ''a''\<rparr>" and ?e = "dlq_env_ex\<lparr>entries := Some [dlq_entry_ex]\<rparr>"
  have m: "(''View DLQ entry 7'', [SetViewEntry dlq_entry_ex, SetViewOpen True]) \<in> set (entry_buttons_of ?s ?e)"
    by (simp add: entry_buttons_of_def buttons_entries_list truthy_str_def dlq_env_ex_def dlq_entry_ex_def
      show_int_def show_nat.simps [of 7] digit_char_def)
  have h: "\<not> dlqLoading ?e" "truthy_str (selectedTopic ?s)" "\<not> entriesLoading ?e" "entries ?e = Some [dlq_entry_ex]" "\<not> viewOpen ?s"
    by (simp_all add: dlq_env_ex_def dlq_init_def truthy_str_def)
  show ?thesis using dlq_view_buttons [OF h m] m by simp
qed

text \<open>A replay request is sent exactly when the target topic has at most 256 characters; it goes to
  the selected topic, asks for what the two switches show, and names a target topic only when one
  was typed.\<close>

theorem dlq_replay_request:
  assumes "zod_ok z"
  shows "(replay_submit z s \<noteq> [] \<longleftrightarrow> length (targetTopic (replayForm s)) \<le> 256) \<and>
    (Call c \<in> set (replay_submit z s) \<longrightarrow>
      (\<exists>opts. c = replayDLQ (tpl (selectedTopic s)) opts \<and>
        map_of opts ''dry_run'' = Some (JBool (dryRun (replayForm s))) \<and>
        map_of opts ''delete_after_replay'' = Some (JBool (deleteAfter (replayForm s))) \<and>
        map_of opts ''target_topic'' =
          (if targetTopic (replayForm s) = '''' then None else Some (JStr (targetTopic (replayForm s))))))"
  using zod_okD [OF assms]
  by (auto simp: replay_submit_def replaySchema_def replay_mutationFn_def replay_options_def guard_def)

theorem dlq_replay_request_witness:
  "zod_ok zod_doc \<and> replay_submit zod_doc dlq_replay_a \<noteq> []"
  using dlq_replay_request [OF zod_doc_ok, of dlq_replay_a] zod_doc_ok
  by (simp add: dlq_replay_a_def dlq_init_def replay_defaults_def)

end
