(* ===== verification/Dlq_Store.thy ===== *)
theory Dlq_Store
  imports Broker_Publish DLQ_Page
begin

text \<open>
  \<^verbatim>\<open>internal/engine/dlq\<close>: the dead letter queues with their files, the replay of their entries, and the handlers of the
  admin server the dead letter page talks to.  The lines of a file are kept as the entries they encode, as
  the JSON of these types is read back as it was written; \<open>line_len\<close> is the length of the text of a line.
  An entry owns its envelope: what a transform or a publication does to it through a shared pointer is
  written back to the entry.  Whether a write to a file succeeds is an argument; a failed one leaves no line.
\<close>

section \<open>Queues\<close>

record dead_letter =
  dl_ID :: nat
  dl_msg :: "Envelope option" \<comment> \<open>a pointer that can be nil\<close>
  dl_Topic :: string
  dl_Partition :: nat
  dl_Reason :: string
  dl_Retries :: int
  dl_FailedAt :: string \<comment> \<open>RFC 3339, with nanoseconds\<close>

record deadQueue =
  q_messages :: "dead_letter list"
  q_offset :: nat

record DLQ =
  dq_prefix :: string
  dq_maxRetries :: int
  dq_queues :: "string \<Rightarrow> deadQueue option"
  dq_enabled :: bool
  dq_dir :: bool \<comment> \<open>a data directory is configured\<close>
  dq_files :: "string list \<Rightarrow> dead_letter list option" \<comment> \<open>by the path below the data directory\<close>

definition dlq_name_char :: "char \<Rightarrow> bool" where
  "dlq_name_char c \<longleftrightarrow> name_char c \<and> c \<noteq> CHR ''.''"

definition dlq_validateTopicName :: "string \<Rightarrow> bool" where
  "dlq_validateTopicName topic \<longleftrightarrow> topic \<noteq> '''' \<and> length topic \<le> 256 \<and> \<not> str_includes topic ''..'' \<and>
     \<not> str_includes topic ''/'' \<and> CHR 0x5C \<notin> set topic \<and> list_all dlq_name_char topic"

text \<open>\<open>filepath.Join\<close> of the data directory and the name, as the path from that directory: \<open>..\<close> drops the
  element before it, or stays at the front.  A path that leaves the directory and comes back into it by its name counts as
  another one.\<close>

fun clean_path :: "string list \<Rightarrow> string list \<Rightarrow> string list" where
  "clean_path acc [] = rev acc"
| "clean_path acc (s # ss) = (if s = '''' \<or> s = ''.'' then clean_path acc ss
     else if s = ''..'' \<and> acc \<noteq> [] \<and> hd acc \<noteq> ''..'' then clean_path (tl acc) ss
     else clean_path (s # acc) ss)"

definition topicPath :: "string \<Rightarrow> string list" where
  "topicPath topic = clean_path [] (split_on CHR ''/'' (topic @ ''.jsonl''))"

definition persistEntry :: "bool \<Rightarrow> dead_letter \<Rightarrow> DLQ \<Rightarrow> DLQ" where
  "persistEntry ok e d = (if \<not> dq_dir d \<or> \<not> ok then d
     else let path = topicPath (dl_Topic e)
       in d\<lparr>dq_files := (dq_files d)(path \<mapsto> (case dq_files d path of None \<Rightarrow> [] | Some ls \<Rightarrow> ls) @ [e])\<rparr>)"

definition Push :: "bool \<Rightarrow> string \<Rightarrow> Envelope \<Rightarrow> string \<Rightarrow> nat \<Rightarrow> string \<Rightarrow> int \<Rightarrow> DLQ \<Rightarrow> DLQ" where
  "Push ok now msg topic part_id reason retryCount d =
     (if \<not> dq_enabled d then d
      else if \<not> dlq_validateTopicName topic then d
      else let q = (case dq_queues d topic of None \<Rightarrow> \<lparr>q_messages = [], q_offset = 0\<rparr> | Some q \<Rightarrow> q);
               off = q_offset q + 1;
               entry = \<lparr>dl_ID = off, dl_msg = Some msg, dl_Topic = topic, dl_Partition = part_id, dl_Reason = reason,
                 dl_Retries = retryCount, dl_FailedAt = now\<rparr>
        in persistEntry ok entry (d\<lparr>dq_queues := (dq_queues d)(topic \<mapsto> \<lparr>q_messages = q_messages q @ [entry], q_offset = off\<rparr>)\<rparr>))"

definition ShouldDLQ :: "int \<Rightarrow> DLQ \<Rightarrow> bool" where
  "ShouldDLQ retryCount d \<longleftrightarrow> dq_enabled d \<and> retryCount \<ge> dq_maxRetries d"

definition Peek :: "string \<Rightarrow> int \<Rightarrow> DLQ \<Rightarrow> dead_letter list" where
  "Peek topic limit d = (case dq_queues d topic of None \<Rightarrow> []
     | Some q \<Rightarrow> let n = int (length (q_messages q)); n = (if limit > 0 \<and> limit < n then limit else n) in take (nat n) (q_messages q))"

definition Pop :: "string \<Rightarrow> DLQ \<Rightarrow> dead_letter option \<times> DLQ" where
  "Pop topic d = (case dq_queues d topic of None \<Rightarrow> (None, d)
     | Some q \<Rightarrow> (case q_messages q of [] \<Rightarrow> (None, d)
        | e # es \<Rightarrow> (Some e, d\<lparr>dq_queues := (dq_queues d)(topic \<mapsto> q\<lparr>q_messages := es\<rparr>)\<rparr>)))"

definition dlq_Size :: "string \<Rightarrow> DLQ \<Rightarrow> nat" where
  "dlq_Size topic d = (case dq_queues d topic of None \<Rightarrow> 0 | Some q \<Rightarrow> length (q_messages q))"

definition Clear :: "string \<Rightarrow> DLQ \<Rightarrow> DLQ" where
  "Clear topic d = (let d = d\<lparr>dq_queues := (dq_queues d)(topic := None)\<rparr>
     in if dq_dir d then d\<lparr>dq_files := (dq_files d)(topicPath topic := None)\<rparr> else d)"

text \<open>A scanner gives up at the first line that does not fit its buffer of 64 KiB.\<close>

definition scanned :: "(dead_letter \<Rightarrow> nat) \<Rightarrow> dead_letter list \<Rightarrow> dead_letter list" where
  "scanned line_len ls = takeWhile (\<lambda>e. line_len e < 65536) ls"

definition loadTopic :: "(dead_letter \<Rightarrow> nat) \<Rightarrow> string \<Rightarrow> DLQ \<Rightarrow> DLQ" where
  "loadTopic line_len topic d = (case dq_files d (topicPath topic) of None \<Rightarrow> d
     | Some ls \<Rightarrow> let es = scanned line_len ls;
           q = \<lparr>q_messages = es, q_offset = fold (\<lambda>e off. if dl_ID e > off then dl_ID e else off) es 0\<rparr>
         in if es \<noteq> [] then d\<lparr>dq_queues := (dq_queues d)(topic \<mapsto> q)\<rparr> else d)"

text \<open>\<open>names\<close> are the files of the directory without their extension.\<close>

definition loadAll :: "(dead_letter \<Rightarrow> nat) \<Rightarrow> string list \<Rightarrow> DLQ \<Rightarrow> DLQ" where
  "loadAll line_len names d = fold (\<lambda>n d. if dlq_validateTopicName n then loadTopic line_len n d else d) names d"

definition NewDLQ :: "(dead_letter \<Rightarrow> nat) \<Rightarrow> string list \<Rightarrow> bool \<Rightarrow> string \<Rightarrow> int \<Rightarrow> bool \<Rightarrow> (string list \<Rightarrow> dead_letter list option) \<Rightarrow> DLQ" where
  "NewDLQ line_len names enabled pref maxRetries dir files =
     (let d = \<lparr>dq_prefix = (if pref = '''' then ''__dlq_'' else pref), dq_maxRetries = (if maxRetries \<le> 0 then 3 else maxRetries),
        dq_queues = (\<lambda>_. None), dq_enabled = enabled, dq_dir = dir, dq_files = files\<rparr>
      in if dir then loadAll line_len names d else d)"

section \<open>Replay\<close>

type_synonym condition = "dead_letter \<Rightarrow> bool"

definition AllMessages :: condition where "AllMessages = (\<lambda>e. True)"
definition ByReason :: "string \<Rightarrow> condition" where "ByReason reason = (\<lambda>e. dl_Reason e = reason)"
definition ByRetryCount :: "int \<Rightarrow> condition" where "ByRetryCount minRetries = (\<lambda>e. dl_Retries e \<ge> minRetries)"

text \<open>\<open>regex\<close> is \<open>regexp.Compile\<close> with \<open>MatchString\<close>, \<open>None\<close> for a pattern that does not compile; neither times out.\<close>

definition ByReasonPattern :: "(string \<Rightarrow> (string \<Rightarrow> bool) option) \<Rightarrow> string \<Rightarrow> condition" where
  "ByReasonPattern regex pattern = (if pattern = '''' \<or> length pattern > 256 then (\<lambda>e. False)
     else case regex pattern of None \<Rightarrow> (\<lambda>e. False) | Some m \<Rightarrow> (\<lambda>e. m (dl_Reason e)))"

fun containsInternal :: "string \<Rightarrow> string \<Rightarrow> bool" where
  "containsInternal [] substr \<longleftrightarrow> substr = []"
| "containsInternal (c # s) substr \<longleftrightarrow> take (length substr) (c # s) = substr \<or> containsInternal s substr"

definition contains :: "string \<Rightarrow> string \<Rightarrow> bool" where
  "contains s substr \<longleftrightarrow> length s \<ge> length substr \<and> (s = substr \<or> length s > length substr \<and> containsInternal s substr)"

definition ByPayloadContains :: "string \<Rightarrow> condition" where
  "ByPayloadContains substr = (\<lambda>e. case dl_msg e of None \<Rightarrow> False | Some m \<Rightarrow> contains (bytes_str (Payload m)) substr)"

fun CompositeAND :: "condition list \<Rightarrow> condition" where
  "CompositeAND [] e = True"
| "CompositeAND (c # cs) e = (if \<not> c e then False else CompositeAND cs e)"

text \<open>A transform gives the message to publish, what has become of the entry, and whether the message is the envelope of the
  entry itself.\<close>

type_synonym transform = "dead_letter \<Rightarrow> Envelope option \<times> dead_letter \<times> bool"

definition NoTransform :: transform where
  "NoTransform e = (dl_msg e, e, True)"

text \<open>\<open>time.RFC3339\<close> of a time written with nanoseconds: without the fraction of the second.\<close>

definition rfc3339 :: "string \<Rightarrow> string" where
  "rfc3339 t = takeWhile (\<lambda>c. c \<noteq> CHR ''.'') t @
     dropWhile (\<lambda>c. c = CHR ''.'' \<or> is_digit c) (dropWhile (\<lambda>c. c \<noteq> CHR ''.'') t)"

definition dlq_metadata :: "string \<Rightarrow> dead_letter \<Rightarrow> (string \<Rightarrow> bytes option) \<Rightarrow> string \<Rightarrow> bytes option" where
  "dlq_metadata now e h = h(''x-dlq-original-failure'' \<mapsto> str_bytes (dl_Reason e), ''x-dlq-retry-count'' \<mapsto> str_bytes (show_int (dl_Retries e)),
     ''x-dlq-failed-at'' \<mapsto> str_bytes (rfc3339 (dl_FailedAt e)), ''x-dlq-replay-at'' \<mapsto> str_bytes (rfc3339 now))"

text \<open>A shallow copy: a header map that exists is shared with the entry.\<close>

definition AddDLQMetadata :: "string \<Rightarrow> transform" where
  "AddDLQMetadata now e = (case dl_msg e of None \<Rightarrow> (None, e, False)
     | Some m \<Rightarrow> (case Headers m of
         None \<Rightarrow> (Some (m\<lparr>Headers := Some (dlq_metadata now e Map.empty)\<rparr>), e, False)
       | Some h \<Rightarrow> (let m = m\<lparr>Headers := Some (dlq_metadata now e h)\<rparr> in (Some m, e\<lparr>dl_msg := Some m\<rparr>, False))))"

text \<open>The chain the handler builds: \<open>NoTransform\<close>, then the metadata if asked for.\<close>

definition replay_transform :: "bool \<Rightarrow> string \<Rightarrow> transform" where
  "replay_transform metadata now e = (case NoTransform e of
     (None, e, shared) \<Rightarrow> (None, e, shared)
   | (Some m, e, shared) \<Rightarrow> if metadata then AddDLQMetadata now e else (Some m, e, shared))"

record ReplayOptions =
  rp_Condition :: condition
  rp_Transform :: transform
  rp_MaxMessages :: int
  rp_DryRun :: bool
  rp_TargetTopic :: string
  rp_DeleteAfterReplay :: bool

record ReplayResult =
  rr_TotalEntries :: nat
  rr_MatchedEntries :: nat
  rr_ReplayedCount :: nat
  rr_FailedCount :: nat
  rr_SkippedCount :: nat
  rr_Errors :: nat

definition empty_result :: ReplayResult where
  "empty_result = \<lparr>rr_TotalEntries = 0, rr_MatchedEntries = 0, rr_ReplayedCount = 0, rr_FailedCount = 0, rr_SkippedCount = 0, rr_Errors = 0\<rparr>"

text \<open>The first loop: the positions of the entries to replay; \<open>n\<close> have been found before position \<open>i\<close>.\<close>

fun select_entries :: "condition \<Rightarrow> int \<Rightarrow> nat \<Rightarrow> nat \<Rightarrow> dead_letter list \<Rightarrow> nat list" where
  "select_entries cond max_n n i [] = []"
| "select_entries cond max_n n i (e # es) =
     (if cond e then (if max_n > 0 \<and> int (n + 1) \<ge> max_n then [i] else i # select_entries cond max_n (n + 1) (i + 1) es)
      else select_entries cond max_n n (i + 1) es)"

text \<open>The second loop.  The publisher gets a message, a topic and the state of the broker; it tells whether it
  succeeded and what has become of the message.\<close>

type_synonym 'b publisher = "Envelope \<Rightarrow> string \<Rightarrow> 'b \<Rightarrow> bool \<times> Envelope \<times> 'b"

definition replay_one :: "ReplayOptions \<Rightarrow> 'b publisher \<Rightarrow> dead_letter \<Rightarrow> ReplayResult \<Rightarrow> 'b \<Rightarrow> dead_letter list \<times> ReplayResult \<times> 'b" where
  "replay_one opts publish e r b = (case rp_Transform opts e of
     (None, e, _) \<Rightarrow> ([e], r\<lparr>rr_FailedCount := rr_FailedCount r + 1, rr_Errors := rr_Errors r + 1\<rparr>, b)
   | (Some m, e, shared) \<Rightarrow>
       let target = (if rp_TargetTopic opts \<noteq> '''' then rp_TargetTopic opts else dl_Topic e);
           (ok, m', b) = publish m target b;
           e = (if shared then e\<lparr>dl_msg := Some m'\<rparr> else e)
       in if \<not> ok then ([e], r\<lparr>rr_FailedCount := rr_FailedCount r + 1, rr_Errors := rr_Errors r + 1\<rparr>, b)
          else (if rp_DeleteAfterReplay opts then [] else [e], r\<lparr>rr_ReplayedCount := rr_ReplayedCount r + 1\<rparr>, b))"

fun replay_entries :: "ReplayOptions \<Rightarrow> 'b publisher \<Rightarrow> nat list \<Rightarrow> nat \<Rightarrow> dead_letter list \<Rightarrow> ReplayResult \<Rightarrow> 'b \<Rightarrow>
    dead_letter list \<times> ReplayResult \<times> 'b" where
  "replay_entries opts publish toReplay i [] r b = ([], r, b)"
| "replay_entries opts publish toReplay i (e # es) r b =
     (if toReplay \<noteq> [] \<and> hd toReplay = i
      then (let (kept, r, b) = replay_one opts publish e r b;
                (rest, r, b) = replay_entries opts publish (tl toReplay) (i + 1) es r b in (kept @ rest, r, b))
      else (let (rest, r, b) = replay_entries opts publish toReplay (i + 1) es r b in (e # rest, r, b)))"

definition rewriteTopicFile :: "bool \<Rightarrow> string \<Rightarrow> DLQ \<Rightarrow> DLQ" where
  "rewriteTopicFile ok topic d = (if \<not> dq_dir d then d
     else case dq_queues d topic of None \<Rightarrow> d
     | Some q \<Rightarrow> if q_messages q = [] then d else fold (persistEntry ok) (q_messages q) d)"

definition ReplayWithOptions :: "bool \<Rightarrow> string \<Rightarrow> ReplayOptions \<Rightarrow> 'b publisher \<Rightarrow> DLQ \<Rightarrow> 'b \<Rightarrow> ReplayResult option \<times> DLQ \<times> 'b" where
  "ReplayWithOptions ok topic opts publish d b =
     (if \<not> dq_enabled d then (None, d, b)
      else case dq_queues d topic of None \<Rightarrow> (Some empty_result, d, b) | Some q \<Rightarrow>
      if q_messages q = [] then (Some empty_result, d, b)
      else let toReplay = select_entries (rp_Condition opts) (rp_MaxMessages opts) 0 0 (q_messages q);
               r = empty_result\<lparr>rr_TotalEntries := length (q_messages q), rr_MatchedEntries := length toReplay\<rparr>
        in if rp_DryRun opts then (Some (r\<lparr>rr_SkippedCount := length toReplay\<rparr>), d, b)
           else let (remaining, r, b) = replay_entries opts publish toReplay 0 (q_messages q) r b;
                    d = d\<lparr>dq_queues := (dq_queues d)(topic \<mapsto> q\<lparr>q_messages := remaining\<rparr>)\<rparr>
             in (Some r, if rp_DeleteAfterReplay opts then rewriteTopicFile ok topic d else d, b))"

definition ReplayPreview :: "string \<Rightarrow> ReplayOptions \<Rightarrow> DLQ \<Rightarrow> dead_letter list option" where
  "ReplayPreview topic opts d = (if \<not> dq_enabled d then None
     else case dq_queues d topic of None \<Rightarrow> Some []
     | Some q \<Rightarrow> Some (map ((!) (q_messages q)) (select_entries (rp_Condition opts) (rp_MaxMessages opts) 0 0 (q_messages q))))"

section \<open>JSON of the entries\<close>

text \<open>\<open>encoding/base64\<close> with the standard alphabet.\<close>

definition b64_char :: "nat \<Rightarrow> char" where
  "b64_char n = (''ABCDEFGHIJKLMNOPQRSTUVWXYZabcdefghijklmnopqrstuvwxyz0123456789+/'') ! (n mod 64)"

fun base64 :: "nat list \<Rightarrow> string" where
  "base64 [] = ''''"
| "base64 [a] = [b64_char (a div 4), b64_char (a mod 4 * 16), CHR ''='', CHR ''='']"
| "base64 [a, b] = [b64_char (a div 4), b64_char (a mod 4 * 16 + b div 16), b64_char (b mod 16 * 4), CHR ''='']"
| "base64 (a # b # c # bs) = [b64_char (a div 4), b64_char (a mod 4 * 16 + b div 16), b64_char (b mod 16 * 4 + c div 64),
     b64_char c] @ base64 bs"

definition slice_json :: "bytes \<Rightarrow> json" where
  "slice_json bs = JStr (base64 (map unat bs))"

definition array_json :: "bytes \<Rightarrow> json" where
  "array_json bs = JArr (map (\<lambda>b. JNum (uint b)) bs)"

text \<open>A map is written with its keys sorted.  The envelope has no tags: its keys are the names of its fields.  An empty
  payload is written as one that is not nil.\<close>

definition headers_json :: "msg_headers \<Rightarrow> json" where
  "headers_json h = (case h of None \<Rightarrow> JNull | Some m \<Rightarrow> JObj (map (\<lambda>k. (k, slice_json (the (m k)))) (sorted_list_of_set (dom m))))"

definition envelope_json :: "Envelope \<Rightarrow> json" where
  "envelope_json m = JObj [(''MessageID'', array_json (MessageID m)), (''Timestamp'', JNum (sint (Timestamp m))),
     (''Sequence'', JNum (uint (Sequence m))), (''Topic'', JStr (Topic m)), (''PartitionID'', JNum (uint (PartitionID m))),
     (''RoutingKey'', JStr (RoutingKey m)), (''Headers'', headers_json (Headers m)), (''SchemaID'', JNum (uint (SchemaID m))),
     (''ContentType'', JStr (ContentType m)), (''Encoding'', JNum (uint (Encoding m))), (''Payload'', slice_json (Payload m)),
     (''Priority'', JNum (uint (Priority m))), (''TTL'', JNum (sint (TTL m))), (''DeliverAt'', JNum (sint (DeliverAt m))),
     (''DeliverCount'', JNum (uint (DeliverCount m))), (''MaxRetries'', JNum (uint (MaxRetries m))),
     (''TraceID'', array_json (TraceID m)), (''SpanID'', array_json (SpanID m)), (''SourceProto'', JNum (uint (SourceProto m)))]"

definition entry_json :: "dead_letter \<Rightarrow> json" where
  "entry_json e = JObj [(''id'', JNum (int (dl_ID e))),
     (''original_msg'', case dl_msg e of None \<Rightarrow> JNull | Some m \<Rightarrow> envelope_json m), (''topic'', JStr (dl_Topic e)),
     (''partition'', JNum (int (dl_Partition e))), (''reason'', JStr (dl_Reason e)), (''retries'', JNum (dl_Retries e)),
     (''failed_at'', JStr (dl_FailedAt e))]"

section \<open>Handlers\<close>

text \<open>\<open>None\<close> for the store is a broker without one.\<close>

definition handleDLQPeek :: "string \<Rightarrow> string \<Rightarrow> DLQ option \<Rightarrow> fetch_outcome" where
  "handleDLQPeek topic u dlq =
     (let limit = (case atoi (query_get ''limit'' u) of Some n \<Rightarrow> n | None \<Rightarrow> 0) in
      case dlq of None \<Rightarrow> http_error 503 ''DLQ not enabled''
      | Some d \<Rightarrow> let es = Peek topic limit d in writeJSON 200 (JObj [(''count'', JNum (int (length es))),
          (''entries'', JArr (map entry_json es)), (''topic'', JStr topic)]))"

definition handleDLQClear :: "string \<Rightarrow> DLQ option \<Rightarrow> fetch_outcome \<times> DLQ option" where
  "handleDLQClear topic dlq = (case dlq of None \<Rightarrow> (http_error 503 ''DLQ not enabled'', None)
     | Some d \<Rightarrow> (writeJSON 200 (JObj [(''status'', JStr ''cleared'')]), Some (Clear topic d)))"

record replay_request =
  rq_DryRun :: bool
  rq_MaxMessages :: int
  rq_TargetTopic :: string
  rq_DeleteAfterReplay :: bool
  rq_Condition :: "(string \<times> json) list option"
  rq_AddDLQMetadata :: bool

text \<open>A field is decoded to \<open>None\<close> when its value has another type: it keeps its zero value, the other fields are still
  decoded, and the whole is an error.\<close>

definition dec_bool :: "(string \<times> json) list \<Rightarrow> string \<Rightarrow> bool option" where
  "dec_bool kvs k = (case map_of kvs k of None \<Rightarrow> Some False | Some JNull \<Rightarrow> Some False | Some (JBool b) \<Rightarrow> Some b | _ \<Rightarrow> None)"

definition dec_int :: "(string \<times> json) list \<Rightarrow> string \<Rightarrow> int option" where
  "dec_int kvs k = (case map_of kvs k of None \<Rightarrow> Some 0 | Some JNull \<Rightarrow> Some 0
     | Some (JNum n) \<Rightarrow> if - (2 ^ 63) \<le> n \<and> n < 2 ^ 63 then Some n else None | _ \<Rightarrow> None)"

definition dec_map :: "(string \<times> json) list \<Rightarrow> string \<Rightarrow> (string \<times> json) list option option" where
  "dec_map kvs k = (case map_of kvs k of None \<Rightarrow> Some None | Some JNull \<Rightarrow> Some None | Some (JObj m) \<Rightarrow> Some (Some m) | _ \<Rightarrow> None)"

definition or_zero :: "'a \<Rightarrow> 'a option \<Rightarrow> 'a" where
  "or_zero z v = (case v of None \<Rightarrow> z | Some x \<Rightarrow> x)"

text \<open>The fields of the body, none for one that is empty or no object, and whether decoding went well or found nothing.\<close>

definition body_fields :: "init_obj \<Rightarrow> (string \<times> json) list \<times> bool" where
  "body_fields i = (case request_body i of Some (JObj kvs) \<Rightarrow> (kvs, True) | Some JNull \<Rightarrow> ([], True) | Some _ \<Rightarrow> ([], False)
     | None \<Rightarrow> ([], map_of i ''body'' \<in> {None, Some (Str '''')}))"

definition decode_replay :: "init_obj \<Rightarrow> replay_request" where
  "decode_replay i = (let (kvs, ok) = body_fields i;
        dry = dec_bool kvs ''dry_run''; n = dec_int kvs ''max_messages''; t = dec_string kvs ''target_topic'';
        del = dec_bool kvs ''delete_after_replay''; c = dec_map kvs ''condition''; m = dec_bool kvs ''add_dlq_metadata'';
        failed = (\<not> ok \<or> dry = None \<or> n = None \<or> t = None \<or> del = None \<or> c = None \<or> m = None)
      in \<lparr>rq_DryRun = (\<not> failed \<and> or_zero False dry), rq_MaxMessages = (if failed then 0 else or_zero 0 n),
          rq_TargetTopic = or_zero '''' t, rq_DeleteAfterReplay = (\<not> failed \<and> or_zero False del),
          rq_Condition = or_zero None c, rq_AddDLQMetadata = or_zero False m\<rparr>)"

text \<open>\<open>trunc\<close> is the integer part of a number that is not written as one.\<close>

definition parseCondition :: "(string \<Rightarrow> (string \<Rightarrow> bool) option) \<Rightarrow> (string \<Rightarrow> int) \<Rightarrow> (string \<times> json) list \<Rightarrow> condition" where
  "parseCondition regex trunc cond =
     (let str = (\<lambda>k. case map_of cond k of Some (JStr s) \<Rightarrow> s | _ \<Rightarrow> '''');
          conditions = [AllMessages] @
            guard (str ''reason'' \<noteq> '''') [ByReason (str ''reason'')] @
            (case map_of cond ''min_retries'' of
               Some (JNum n) \<Rightarrow> guard (n > 0) [ByRetryCount n]
             | Some (JFrac l) \<Rightarrow> guard (hd l \<noteq> CHR ''-'') [ByRetryCount (trunc l)]
             | _ \<Rightarrow> []) @
            guard (str ''reason_pattern'' \<noteq> '''') [ByReasonPattern regex (str ''reason_pattern'')] @
            guard (str ''payload_contains'' \<noteq> '''') [ByPayloadContains (str ''payload_contains'')]
      in if length conditions = 1 then hd conditions else CompositeAND conditions)"

text \<open>The publisher of the handler; the broker is its topic manager and the calls made so far, and the \<open>n\<close>-th
  publication happens in \<open>pe n\<close>.\<close>

type_synonym broker = "nat \<times> TopicManager \<times> broker_event list"

definition replay_publisher :: "(nat \<Rightarrow> publish_env) \<Rightarrow> string \<Rightarrow> broker publisher" where
  "replay_publisher pe topic msg target b = (case b of (n, tm, evs) \<Rightarrow>
     let target = (if target = '''' then topic else target);
         (res, msg, tm, evs') = Publish (pe n) (msg\<lparr>Topic := target\<rparr>) tm
     in (\<not> isl res, msg, (Suc n, tm, evs @ evs')))"

definition replay_options_of :: "(string \<Rightarrow> (string \<Rightarrow> bool) option) \<Rightarrow> (string \<Rightarrow> int) \<Rightarrow> string \<Rightarrow> replay_request \<Rightarrow> ReplayOptions" where
  "replay_options_of regex trunc now req = \<lparr>
     rp_Condition = (case rq_Condition req of None \<Rightarrow> AllMessages | Some c \<Rightarrow> parseCondition regex trunc c),
     rp_Transform = replay_transform (rq_AddDLQMetadata req) now, rp_MaxMessages = rq_MaxMessages req, rp_DryRun = rq_DryRun req,
     rp_TargetTopic = rq_TargetTopic req, rp_DeleteAfterReplay = rq_DeleteAfterReplay req\<rparr>"

definition handleDLQReplay :: "(string \<Rightarrow> (string \<Rightarrow> bool) option) \<Rightarrow> (string \<Rightarrow> int) \<Rightarrow> bool \<Rightarrow> string \<Rightarrow> (nat \<Rightarrow> publish_env) \<Rightarrow>
    string \<Rightarrow> init_obj \<Rightarrow> DLQ option \<Rightarrow> broker \<Rightarrow> fetch_outcome \<times> DLQ option \<times> broker" where
  "handleDLQReplay regex trunc ok now pe topic i dlq b = (case dlq of None \<Rightarrow> (http_error 503 ''DLQ not enabled'', None, b)
     | Some d \<Rightarrow> let req = decode_replay i in
         if rq_TargetTopic req \<noteq> '''' \<and> GetTopic (fst (snd b)) (rq_TargetTopic req) = None
         then (writeError 400 ''target_topic does not exist'', Some d, b)
         else (case ReplayWithOptions ok topic (replay_options_of regex trunc now req) (replay_publisher pe topic) d b of
             (None, d, b) \<Rightarrow> (writeError 500 ''replay failed: DLQ is not enabled'', Some d, b)
           | (Some r, d, b) \<Rightarrow> (writeJSON 200 (JObj [(''dry_run'', JBool (rq_DryRun req)), (''errors'', JNum (int (rr_Errors r))),
               (''failed'', JNum (int (rr_FailedCount r))), (''matched'', JNum (int (rr_MatchedEntries r))),
               (''replayed'', JNum (int (rr_ReplayedCount r))), (''skipped'', JNum (int (rr_SkippedCount r))),
               (''topic'', JStr topic), (''total'', JNum (int (rr_TotalEntries r)))]), Some d, b)))"

definition handleDLQPreview :: "(string \<Rightarrow> (string \<Rightarrow> bool) option) \<Rightarrow> (string \<Rightarrow> int) \<Rightarrow> string \<Rightarrow> init_obj \<Rightarrow> DLQ option \<Rightarrow> fetch_outcome" where
  "handleDLQPreview regex trunc topic i dlq = (case dlq of None \<Rightarrow> http_error 503 ''DLQ not enabled''
     | Some d \<Rightarrow> let (kvs, ok) = body_fields i; n = dec_int kvs ''max_messages''; c = dec_map kvs ''condition'';
           failed = (\<not> ok \<or> n = None \<or> c = None);
           req = \<lparr>rq_DryRun = False, rq_MaxMessages = (if failed then 100 else or_zero 0 n), rq_TargetTopic = '''',
             rq_DeleteAfterReplay = False, rq_Condition = or_zero None c, rq_AddDLQMetadata = False\<rparr>
         in (case ReplayPreview topic (replay_options_of regex trunc '''' req) d of
             None \<Rightarrow> writeError 500 ''preview failed: DLQ is not enabled''
           | Some es \<Rightarrow> writeJSON 200 (JObj [(''count'', JNum (int (length es))),
               (''entries'', if es = [] then JNull else JArr (map entry_json es)), (''topic'', JStr topic)])))"

section \<open>Lemmas\<close>

text \<open>The reference for the two passes: one pass that replays what matches until enough has been replayed.\<close>

fun replay_spec :: "ReplayOptions \<Rightarrow> 'b publisher \<Rightarrow> nat \<Rightarrow> dead_letter list \<Rightarrow> ReplayResult \<Rightarrow> 'b \<Rightarrow> dead_letter list \<times> ReplayResult \<times> 'b" where
  "replay_spec opts publish n [] r b = ([], r, b)"
| "replay_spec opts publish n (e # es) r b =
     (if rp_Condition opts e \<and> (rp_MaxMessages opts > 0 \<longrightarrow> int n < rp_MaxMessages opts)
      then (let (ks, r, b) = replay_one opts publish e r b; (rest, r, b) = replay_spec opts publish (n + 1) es r b in (ks @ rest, r, b))
      else (let (rest, r, b) = replay_spec opts publish n es r b in (e # rest, r, b)))"

lemma replay_spec_full:
  "rp_MaxMessages opts > 0 \<Longrightarrow> int n \<ge> rp_MaxMessages opts \<Longrightarrow> replay_spec opts publish n es r b = (es, r, b)"
  by (induction es) auto

lemma replay_entries_none: "replay_entries opts publish [] i es r b = (es, r, b)"
  by (induction es arbitrary: i) auto

lemma select_entries_ge: "j \<in> set (select_entries c mx n i es) \<Longrightarrow> i \<le> j"
  by (induction c mx n i es arbitrary: j rule: select_entries.induct) (fastforce split: if_splits)+

lemma select_later: "select_entries c mx n (Suc i) es \<noteq> [] \<Longrightarrow> hd (select_entries c mx n (Suc i) es) \<noteq> i"
  using select_entries_ge [OF hd_in_set] by (metis not_less_eq_eq order_refl)

lemma replay_entries_spec:
  "(rp_MaxMessages opts > 0 \<longrightarrow> int n < rp_MaxMessages opts) \<Longrightarrow>
   replay_entries opts publish (select_entries (rp_Condition opts) (rp_MaxMessages opts) n i es) i es r b =
   replay_spec opts publish n es r b"
proof (induction es arbitrary: n i r b)
  case Nil
  show ?case by simp
next
  case (Cons e es)
  show ?case
  proof (cases "rp_Condition opts e \<and> rp_MaxMessages opts > 0 \<and> int (n + 1) \<ge> rp_MaxMessages opts")
    case True
    then show ?thesis using Cons.prems replay_spec_full [of opts "n + 1" publish es]
      by (simp add: replay_entries_none split: prod.splits)
  next
    case False
    then show ?thesis
    proof (cases "rp_Condition opts e")
      case c: True
      have "rp_MaxMessages opts > 0 \<longrightarrow> int (n + 1) < rp_MaxMessages opts" using False c by auto
      note IH = Cons.IH [OF this, of "i + 1"]
      show ?thesis using c False Cons.prems IH by (auto split: prod.splits)
    next
      case c: False
      show ?thesis using c Cons.prems Cons.IH [OF Cons.prems, of "i + 1"]
        select_later [of "rp_Condition opts" "rp_MaxMessages opts" n i es] by (auto split: prod.splits)
    qed
  qed
qed

lemma select_entries_map:
  "(mx > 0 \<longrightarrow> int n < mx) \<Longrightarrow> map (\<lambda>j. es ! (j - i)) (select_entries c mx n i es) =
    (if mx > 0 then take (nat mx - n) (filter c es) else filter c es)"
proof (induction es arbitrary: n i)
  case Nil
  show ?case by simp
next
  case (Cons e es)
  have later: "map (\<lambda>j. (e # es) ! (j - i)) (select_entries c mx m (Suc i) es) = map (\<lambda>j. es ! (j - Suc i)) (select_entries c mx m (Suc i) es)" for m
    using select_entries_ge [of _ c mx m "Suc i" es] by (intro map_cong refl) (fastforce simp: nth_Cons' dest: leD)
  show ?case
  proof (cases "c e")
    case False
    with later [of n] Cons.IH [OF Cons.prems, of "Suc i"] show ?thesis by (simp del: map_eq_conv)
  next
    case c: True
    show ?thesis
    proof (cases "mx > 0 \<and> int (n + 1) \<ge> mx")
      case True
      then have "nat mx - n = Suc 0" using Cons.prems by linarith
      with True c show ?thesis by simp
    next
      case False
      then have n: "mx > 0 \<longrightarrow> int (n + 1) < mx" by auto
      have "mx > 0 \<Longrightarrow> nat mx - n = Suc (nat mx - Suc n)" using n by linarith
      with False c later [of "Suc n"] Cons.IH [OF n, of "Suc i"] show ?thesis by (simp del: map_eq_conv)
    qed
  qed
qed

definition selected :: "ReplayOptions \<Rightarrow> dead_letter list \<Rightarrow> dead_letter list" where
  "selected opts es = (let ms = filter (rp_Condition opts) es in if rp_MaxMessages opts > 0 then take (nat (rp_MaxMessages opts)) ms else ms)"

lemma select_entries_selected:
  "map ((!) es) (select_entries (rp_Condition opts) (rp_MaxMessages opts) 0 0 es) = selected opts es"
  using select_entries_map [of "rp_MaxMessages opts" 0 es 0 "rp_Condition opts"] by (simp add: selected_def)

lemma length_select: "length (select_entries (rp_Condition opts) (rp_MaxMessages opts) 0 0 es) = length (selected opts es)"
  by (simp flip: select_entries_selected)

text \<open>\<open>counted m k r r'\<close>: of \<open>m\<close> entries replayed, \<open>k\<close> were published.\<close>

definition counted :: "nat \<Rightarrow> nat \<Rightarrow> ReplayResult \<Rightarrow> ReplayResult \<Rightarrow> bool" where
  "counted m k r r' \<longleftrightarrow> k \<le> m \<and> r' = r\<lparr>rr_ReplayedCount := rr_ReplayedCount r + k, rr_FailedCount := rr_FailedCount r + (m - k),
     rr_Errors := rr_Errors r + (m - k)\<rparr>"

lemma counted_trans: "counted m k r r' \<Longrightarrow> counted m' k' r' r'' \<Longrightarrow> counted (m + m') (k + k') r r''"
  by (auto simp: counted_def)

lemma replay_one_counted:
  assumes "replay_one opts publish e r b = (ks, r', b')"
  shows "\<exists>k. counted 1 k r r' \<and> length ks + (if rp_DeleteAfterReplay opts then k else 0) = 1"
proof -
  have "counted 1 0 r r' \<and> length ks = 1 \<or> counted 1 1 r r' \<and> length ks = (if rp_DeleteAfterReplay opts then 0 else 1)"
    using assms by (auto simp: replay_one_def counted_def Let_def split: prod.splits option.splits if_splits)
  then show ?thesis by auto
qed

lemma replay_spec_counted:
  assumes "rp_MaxMessages opts > 0 \<longrightarrow> int n < rp_MaxMessages opts" and "replay_spec opts publish n es r b = (ks, r', b')"
  shows "\<exists>k. counted (length (select_entries (rp_Condition opts) (rp_MaxMessages opts) n i es)) k r r' \<and>
    length ks + (if rp_DeleteAfterReplay opts then k else 0) = length es"
  using assms
proof (induction es arbitrary: n i r b ks)
  case Nil
  then show ?case by (auto simp: counted_def intro: exI [of _ 0])
next
  case (Cons e es)
  show ?case
  proof (cases "rp_Condition opts e")
    case c: True
    obtain k1 r1 b1 where one: "replay_one opts publish e r b = (k1, r1, b1)" by (metis prod_cases3)
    obtain k2 r2 b2 where rest: "replay_spec opts publish (n + 1) es r1 b1 = (k2, r2, b2)" by (metis prod_cases3)
    have res: "ks = k1 @ k2" "r' = r2" "b' = b2" using Cons.prems c one rest by auto
    obtain k where k: "counted 1 k r r1" "length k1 + (if rp_DeleteAfterReplay opts then k else 0) = 1"
      using replay_one_counted [OF one] by blast
    show ?thesis
    proof (cases "rp_MaxMessages opts > 0 \<and> int (n + 1) \<ge> rp_MaxMessages opts")
      case True
      then have "k2 = es" "r2 = r1" using replay_spec_full [of opts "n + 1" publish es r1 b1] rest by auto
      with True k res c show ?thesis by (intro exI [of _ k]) auto
    next
      case False
      then have "rp_MaxMessages opts > 0 \<longrightarrow> int (n + 1) < rp_MaxMessages opts" by auto
      from Cons.IH [OF this, of r1 b1 k2 "i + 1"] rest res obtain k' where
        "counted (length (select_entries (rp_Condition opts) (rp_MaxMessages opts) (n + 1) (i + 1) es)) k' r1 r'"
        "length k2 + (if rp_DeleteAfterReplay opts then k' else 0) = length es" by auto
      with k res c False show ?thesis
        using counted_trans [OF k(1)] by (intro exI [of _ "k + k'"]) (auto split: if_splits)
    qed
  next
    case c: False
    obtain k2 r2 b2 where rest: "replay_spec opts publish n es r b = (k2, r2, b2)" by (metis prod_cases3)
    have res: "ks = e # k2" "r' = r2" "b' = b2" using Cons.prems c rest by auto
    from Cons.IH [OF Cons.prems(1), of r b k2 "i + 1"] rest res c show ?thesis by auto
  qed
qed

lemma replay_one_result:
  "replay_one opts publish e r b = (ks, r', b') \<Longrightarrow> \<exists>r2'. replay_one opts publish e r2 b = (ks, r2', b')"
  by (auto simp: replay_one_def Let_def split: prod.splits option.splits if_splits)

lemma replay_spec_result:
  "replay_spec opts publish n es r b = (ks, r', b') \<Longrightarrow> \<exists>r2'. replay_spec opts publish n es r2 b = (ks, r2', b')"
proof (induction es arbitrary: n r b ks r2)
  case (Cons e es)
  show ?case
  proof (cases "rp_Condition opts e \<and> (rp_MaxMessages opts > 0 \<longrightarrow> int n < rp_MaxMessages opts)")
    case True
    obtain k1 r1 b1 where one: "replay_one opts publish e r b = (k1, r1, b1)" by (metis prod_cases3)
    obtain k2 rx bx where rest: "replay_spec opts publish (n + 1) es r1 b1 = (k2, rx, bx)" by (metis prod_cases3)
    obtain r2' where one': "replay_one opts publish e r2 b = (k1, r2', b1)" using replay_one_result [OF one] by blast
    from Cons.IH [of "n + 1" r1 b1 k2 r2'] rest Cons.prems True one one' show ?thesis by auto
  next
    case False
    obtain k2 rx bx where rest: "replay_spec opts publish n es r b = (k2, rx, bx)" by (metis prod_cases3)
    from Cons.IH [of n r b k2 r2] rest Cons.prems False show ?thesis by auto
  qed
qed simp

lemma persistEntry_queues [simp]: "dq_queues (persistEntry ok e d) = dq_queues d"
  by (simp add: persistEntry_def Let_def)

lemma fold_persistEntry_queues [simp]: "dq_queues (fold (persistEntry ok) es d) = dq_queues d"
  by (induction es arbitrary: d) simp_all

lemma rewriteTopicFile_queues [simp]: "dq_queues (rewriteTopicFile ok topic d) = dq_queues d"
  by (simp add: rewriteTopicFile_def split: option.split)

lemma ReplayWithOptions_run:
  assumes "dq_enabled d" and "dq_queues d topic = Some q" and "q_messages q \<noteq> []" and "\<not> rp_DryRun opts"
    and "replay_spec opts publish 0 (q_messages q)
      (empty_result\<lparr>rr_TotalEntries := length (q_messages q), rr_MatchedEntries := length (selected opts (q_messages q))\<rparr>) b = (ks, r, b')"
  shows "ReplayWithOptions ok topic opts publish d b =
    (Some r, (if rp_DeleteAfterReplay opts then rewriteTopicFile ok topic else id) (d\<lparr>dq_queues := (dq_queues d)(topic \<mapsto> q\<lparr>q_messages := ks\<rparr>)\<rparr>), b')"
  using assms by (simp add: ReplayWithOptions_def length_select replay_entries_spec Let_def)

text \<open>C13: The two passes of a replay, first collecting the entries to replay and then walking the queue with an index
  into them, do what one pass does that replays what matches until enough has been replayed; a preview shows the entries it
  would replay.  Every matched entry is either published or counted as failed with an error, an entry leaves the queue only
  if it was published and deletion was asked for, and a dry run changes nothing.\<close>

theorem replay_is_one_pass:
  assumes "dq_enabled d" and "dq_queues d topic = Some q" and "ReplayWithOptions ok topic opts publish d b = (Some r, d', b')"
  shows "ReplayPreview topic opts d = Some (selected opts (q_messages q)) \<and>
    rr_TotalEntries r = length (q_messages q) \<and> rr_MatchedEntries r = length (selected opts (q_messages q)) \<and>
    rr_MatchedEntries r = rr_ReplayedCount r + rr_FailedCount r + rr_SkippedCount r \<and> rr_Errors r = rr_FailedCount r \<and>
    dlq_Size topic d' + (if rp_DeleteAfterReplay opts then rr_ReplayedCount r else 0) = dlq_Size topic d \<and>
    (if rp_DryRun opts then d' = d \<and> b' = b
     else Peek topic 0 d' = fst (replay_spec opts publish 0 (q_messages q) empty_result b) \<and>
       b' = snd (snd (replay_spec opts publish 0 (q_messages q) empty_result b)))"
proof -
  consider "q_messages q = []" | "q_messages q \<noteq> []" "rp_DryRun opts" | "q_messages q \<noteq> []" "\<not> rp_DryRun opts" by blast
  then show ?thesis
  proof cases
    case 1
    then have "r = empty_result" "d' = d" "b' = b" using assms by (simp_all add: ReplayWithOptions_def)
    with 1 show ?thesis using assms(1,2)
      by (simp add: ReplayPreview_def Peek_def dlq_Size_def selected_def empty_result_def)
  next
    case 2
    then have "r = empty_result\<lparr>rr_TotalEntries := length (q_messages q), rr_MatchedEntries := length (selected opts (q_messages q)),
        rr_SkippedCount := length (selected opts (q_messages q))\<rparr>" "d' = d" "b' = b"
      using assms by (simp_all add: ReplayWithOptions_def length_select)
    with 2 show ?thesis using assms(1,2)
      by (simp add: ReplayPreview_def select_entries_selected empty_result_def)
  next
    case 3
    let ?r = "empty_result\<lparr>rr_TotalEntries := length (q_messages q), rr_MatchedEntries := length (selected opts (q_messages q))\<rparr>"
    obtain ks rx bx where run: "replay_spec opts publish 0 (q_messages q) ?r b = (ks, rx, bx)" by (metis prod_cases3)
    have r: "r = rx" "b' = bx" and q: "dq_queues d' topic = Some (q\<lparr>q_messages := ks\<rparr>)"
      using ReplayWithOptions_run [OF assms(1,2) 3 run, of ok] assms(3) by auto
    obtain r2 where "replay_spec opts publish 0 (q_messages q) empty_result b = (ks, r2, bx)"
      using replay_spec_result [OF run] by blast
    moreover obtain k where "counted (length (selected opts (q_messages q))) k ?r rx"
      "length ks + (if rp_DeleteAfterReplay opts then k else 0) = length (q_messages q)"
      using replay_spec_counted [OF _ run, of 0] by (auto simp: length_select)
    ultimately show ?thesis using assms(1,2) 3 r q
      by (auto simp: ReplayPreview_def select_entries_selected Peek_def dlq_Size_def counted_def empty_result_def)
  qed
qed
section \<open>The files\<close>

lemma fold_max: "fold (\<lambda>e off. if dl_ID e > off then dl_ID e else off) es m = fold max (map dl_ID es) m"
proof -
  have "(\<lambda>e off. if dl_ID e > off then dl_ID e else off) = max \<circ> dl_ID" by (auto simp: fun_eq_iff max_def)
  then have "fold (\<lambda>e off. if dl_ID e > off then dl_ID e else off) es = fold (max \<circ> dl_ID) es" by (rule arg_cong)
  then show ?thesis by (metis fold_map)
qed


lemma loadTopic_simps [simp]: "dq_files (loadTopic line_len t d) = dq_files d"
  by (simp add: loadTopic_def Let_def split: option.split)

definition loaded :: "(dead_letter \<Rightarrow> nat) \<Rightarrow> string \<Rightarrow> DLQ \<Rightarrow> deadQueue option" where
  "loaded line_len t d = (case dq_files d (topicPath t) of None \<Rightarrow> None
     | Some ls \<Rightarrow> let es = scanned line_len ls in if es = [] then None
         else Some \<lparr>q_messages = es, q_offset = fold max (map dl_ID es) 0\<rparr>)"

lemma loadTopic_queues:
  "dq_queues (loadTopic line_len n d) t = (if t = n \<and> loaded line_len n d \<noteq> None then loaded line_len n d else dq_queues d t)"
  by (simp add: loadTopic_def loaded_def Let_def fold_max split: option.split)

lemma loadAll_queues:
  "dq_queues (loadAll line_len names d) t =
     (if t \<in> set names \<and> dlq_validateTopicName t \<and> loaded line_len t d \<noteq> None then loaded line_len t d else dq_queues d t)"
proof -
  let ?f = "\<lambda>n d. if dlq_validateTopicName n then loadTopic line_len n d else d"
  have same: "loaded line_len t (?f n d) = loaded line_len t d" for n d by (simp add: loaded_def)
  have "dq_queues (fold ?f names d) t =
     (if t \<in> set names \<and> dlq_validateTopicName t \<and> loaded line_len t d \<noteq> None then loaded line_len t d else dq_queues d t)"
  proof (induction names arbitrary: d)
    case (Cons n names)
    show ?case
      using Cons [of "?f n d"] same [of n d] loadTopic_queues [of line_len n d t] by (cases "t = n") (auto split: if_splits)
  qed simp
  then show ?thesis by (simp add: loadAll_def)
qed

text \<open>The store that a restart on the same directory makes.\<close>

definition restarted :: "(dead_letter \<Rightarrow> nat) \<Rightarrow> string list \<Rightarrow> DLQ \<Rightarrow> DLQ" where
  "restarted line_len names d = NewDLQ line_len names (dq_enabled d) (dq_prefix d) (dq_maxRetries d) (dq_dir d) (dq_files d)"

lemma restarted_queues:
  "dq_dir d \<Longrightarrow> dq_queues (restarted line_len names d) t = (if t \<in> set names \<and> dlq_validateTopicName t then loaded line_len t d else None)"
  by (simp add: restarted_def NewDLQ_def loadAll_queues loaded_def)

lemma topicPath_plain: "CHR ''/'' \<notin> set t \<Longrightarrow> topicPath t = [t @ ''.jsonl'']"
proof -
  assume "CHR ''/'' \<notin> set t"
  then have "split_on CHR ''/'' (t @ ''.jsonl'') = [t @ ''.jsonl'']" by (intro split_on_none) auto
  moreover have "t @ ''.jsonl'' \<noteq> ''.''" "t @ ''.jsonl'' \<noteq> ''..''" by (auto simp: append_eq_Cons_conv)
  ultimately show ?thesis by (simp add: topicPath_def)
qed

lemma valid_path: "dlq_validateTopicName t \<Longrightarrow> topicPath t = [t @ ''.jsonl'']"
  by (rule topicPath_plain) (auto simp: dlq_validateTopicName_def str_includes_iff in_set_conv_decomp)

text \<open>Clearing does not check the name: one with separators removes the file of another topic, and leaves its queue.\<close>

lemma clear_reaches_other_files:
  assumes "dq_dir d" and "CHR ''/'' \<notin> set t"
  shows "dq_files (Clear (''x/../'' @ t) d) (topicPath t) = None \<and> dq_queues (Clear (''x/../'' @ t) d) t = dq_queues d t"
proof -
  have "split_on CHR ''/'' (t @ ''.jsonl'') = [t @ ''.jsonl'']" using assms(2) by (intro split_on_none) auto
  then have "topicPath (''x/../'' @ t) = topicPath t" by (simp add: topicPath_def)
  moreover have "t \<noteq> ''x/../'' @ t" by simp
  ultimately show ?thesis using assms(1) by (simp add: Clear_def Let_def)
qed





definition pushes :: "(string \<times> Envelope \<times> string \<times> nat \<times> string \<times> int) list \<Rightarrow> DLQ \<Rightarrow> DLQ" where
  "pushes calls d = fold (\<lambda>(now, msg, topic, p, reason, n). Push True now msg topic p reason n) calls d"




section \<open>Deleting\<close>

text \<open>No operation but clearing a queue takes a line out of its file.\<close>

definition grows :: "string \<Rightarrow> dead_letter list \<Rightarrow> DLQ \<Rightarrow> bool" where
  "grows t ls d \<longleftrightarrow> dq_dir d \<and> (\<exists>es. dq_files d (topicPath t) = Some (ls @ es))"

lemma persistEntry_grows: "grows t ls d \<Longrightarrow> grows t ls (persistEntry ok e d)"
  by (auto simp: grows_def persistEntry_def Let_def)

lemma fold_persistEntry_grows: "grows t ls d \<Longrightarrow> grows t ls (fold (persistEntry ok) es d)"
  by (induction es arbitrary: d) (auto simp: persistEntry_grows)

lemma rewriteTopicFile_grows: "grows t ls d \<Longrightarrow> grows t ls (rewriteTopicFile ok topic d)"
  by (simp add: rewriteTopicFile_def fold_persistEntry_grows split: option.split)

lemma grows_queues: "grows t ls (d\<lparr>dq_queues := qs\<rparr>) = grows t ls d"
  by (simp add: grows_def)

lemma ReplayWithOptions_grows:
  assumes "grows t ls d" and "ReplayWithOptions ok topic opts publish d b = (r, d', b')"
  shows "grows t ls d'"
proof -
  have "d' = d \<or> (\<exists>qs. d' = d\<lparr>dq_queues := qs\<rparr> \<or> d' = rewriteTopicFile ok topic (d\<lparr>dq_queues := qs\<rparr>))"
    using assms(2) by (auto simp: ReplayWithOptions_def Let_def split: if_splits option.splits prod.splits)
  with assms(1) show ?thesis by (auto simp: rewriteTopicFile_grows grows_queues)
qed

lemma Pop_grows: "grows t ls d \<Longrightarrow> Pop topic d = (e, d') \<Longrightarrow> grows t ls d'"
  by (auto simp: Pop_def grows_queues split: option.splits list.splits)

text \<open>C16: Deleting after replay, and taking an entry out of a queue, last until the next restart only: every entry that was
  in the file of a topic is in its queue again, whether it was replayed or not, and is published once more by the next replay.
  The rewriting of the file appends the entries that remain, and does nothing when none does.\<close>

theorem deleted_entries_return:
  assumes "dq_dir d" and "dq_files d (topicPath topic) = Some ls" and "ls \<noteq> []" and "\<forall>e\<in>set ls. line_len e < 65536"
    and "dlq_validateTopicName topic" and "topic \<in> set names"
    and "(\<exists>e. Pop topic d = (e, d')) \<or> (\<exists>ok opts publish r b b'. ReplayWithOptions ok topic opts publish d (b :: broker) = (r, d', b'))"
  shows "\<exists>es. Peek topic 0 (restarted line_len names d') = ls @ es \<and> dlq_Size topic (restarted line_len names d') = length ls + length es"
proof -
  have "grows topic ls d" using assms(1,2) by (simp add: grows_def)
  then have "grows topic ls d'" using assms(7) by (elim disjE exE) (erule (1) Pop_grows ReplayWithOptions_grows)+
  then obtain es where g: "dq_dir d'" "dq_files d' (topicPath topic) = Some (ls @ es)" by (auto simp: grows_def)
  have "scanned line_len (ls @ es) = ls @ scanned line_len es" using assms(4) by (simp add: scanned_def takeWhile_append2)
  then show ?thesis using g assms(3,5,6)
    by (intro exI [of _ "scanned line_len es"]) (simp add: Peek_def dlq_Size_def restarted_queues loaded_def Let_def)
qed

section \<open>The requests of the page\<close>

lemma sent_fields:
  "dec_bool (replay_options f) ''dry_run'' = Some (dryRun f)" "dec_bool (replay_options f) ''delete_after_replay'' = Some (deleteAfter f)"
  "dec_bool (replay_options f) ''add_dlq_metadata'' = Some False" "dec_int (replay_options f) ''max_messages'' = Some 0"
  "dec_string (replay_options f) ''target_topic'' = Some (targetTopic f)" "dec_map (replay_options f) ''condition'' = Some None"
  by (simp_all add: replay_options_def guard_def dec_bool_def dec_int_def dec_string_def dec_map_def)

lemma sent_replay:
  "decode_replay (fetch_options st (Some (call_init (replayDLQ topic (replay_options f))))) =
    \<lparr>rq_DryRun = dryRun f, rq_MaxMessages = 0, rq_TargetTopic = targetTopic f, rq_DeleteAfterReplay = deleteAfter f,
     rq_Condition = None, rq_AddDLQMetadata = False\<rparr>"
proof -
  let ?v = "JObj (replay_options f)"
  have "map_of (fetch_options st (Some (call_init (replayDLQ topic (replay_options f))))) ''body'' = Some (Str (JSON_stringify ?v))"
    by (subst verb_sent_other, rule typed_verb_calls, simp) (simp add: replayDLQ_def api_post_def json_body_def)
  moreover have "JSON_parse (JSON_stringify ?v) = Some ?v" by (rule JSON_parse_stringify) (simp add: replay_options_def guard_def)
  ultimately have "request_body (fetch_options st (Some (call_init (replayDLQ topic (replay_options f))))) = Some ?v"
    by (simp only: request_body_def option.case init_val.case)
  then have "body_fields (fetch_options st (Some (call_init (replayDLQ topic (replay_options f))))) = (replay_options f, True)"
    by (simp add: body_fields_def)
  then show ?thesis by (simp add: decode_replay_def sent_fields or_zero_def) blast
qed

text \<open>What the page asks for.\<close>

definition page_options :: "ReplayFormValues \<Rightarrow> ReplayOptions" where
  "page_options f = \<lparr>rp_Condition = AllMessages, rp_Transform = NoTransform, rp_MaxMessages = 0, rp_DryRun = dryRun f,
     rp_TargetTopic = targetTopic f, rp_DeleteAfterReplay = deleteAfter f\<rparr>"

lemma page_fields:
  "rp_Condition (page_options f) e" "rp_MaxMessages (page_options f) = 0" "rp_DryRun (page_options f) = dryRun f"
  "rp_DeleteAfterReplay (page_options f) = deleteAfter f"
  by (simp_all add: page_options_def AllMessages_def)

lemma replay_transform_plain: "replay_transform False now = NoTransform"
  by (rule ext) (simp add: replay_transform_def split: prod.split option.split)

definition replay_answer :: "string \<Rightarrow> bool \<Rightarrow> ReplayResult \<Rightarrow> json" where
  "replay_answer topic dry r = JObj [(''dry_run'', JBool dry), (''errors'', JNum (int (rr_Errors r))),
     (''failed'', JNum (int (rr_FailedCount r))), (''matched'', JNum (int (rr_MatchedEntries r))),
     (''replayed'', JNum (int (rr_ReplayedCount r))), (''skipped'', JNum (int (rr_SkippedCount r))),
     (''topic'', JStr topic), (''total'', JNum (int (rr_TotalEntries r)))]"

definition replay_server :: "(string \<Rightarrow> (string \<Rightarrow> bool) option) \<Rightarrow> (string \<Rightarrow> int) \<Rightarrow> bool \<Rightarrow> string \<Rightarrow> (nat \<Rightarrow> publish_env) \<Rightarrow> DLQ \<Rightarrow> broker \<Rightarrow>
    string \<Rightarrow> string \<Rightarrow> string list \<Rightarrow> string \<Rightarrow> init_obj \<Rightarrow> fetch_outcome" where
  "replay_server regex trunc ok now pe d b m p vals u i = fst (handleDLQReplay regex trunc ok now pe (hd vals) i (Some d) b)"

lemma replay_served:
  assumes "plain_seg topic" and "targetTopic f = '''' \<or> GetTopic (fst (snd b)) (targetTopic f) \<noteq> None"
    and "ReplayWithOptions ok topic (page_options f) (replay_publisher pe topic) d b = (Some r, d', b')"
  shows "perform st (serve (replay_server regex trunc ok now pe d b)) (replayDLQ topic (replay_options f)) = Inr (replay_answer topic (dryRun f) r)"
    "handleDLQReplay regex trunc ok now pe topic (fetch_options st (Some (call_init (replayDLQ topic (replay_options f))))) (Some d) b =
      (writeJSON 200 (replay_answer topic (dryRun f) r), Some d', b')"
proof -
  show h: "handleDLQReplay regex trunc ok now pe topic (fetch_options st (Some (call_init (replayDLQ topic (replay_options f))))) (Some d) b =
      (writeJSON 200 (replay_answer topic (dryRun f) r), Some d', b')"
    using assms(2,3) by (auto simp: handleDLQReplay_def sent_replay replay_options_of_def replay_transform_plain page_options_def replay_answer_def)
  show "perform st (serve (replay_server regex trunc ok now pe d b)) (replayDLQ topic (replay_options f)) = Inr (replay_answer topic (dryRun f) r)"
    using perform_serve [OF _ route_replayDLQ [OF assms(1)], where handle = "replay_server regex trunc ok now pe d b"] h
    by (simp add: replay_server_def writeJSON_def res_ok_def)
qed

lemma replay_answer_fields [simp]:
  "field (replay_answer t dry r) ''dry_run'' as_bool = Some dry" "field (replay_answer t dry r) ''replayed'' as_num = Some (int (rr_ReplayedCount r))"
  "field (replay_answer t dry r) ''skipped'' as_num = Some (int (rr_SkippedCount r))" "field (replay_answer t dry r) ''failed'' as_num = Some (int (rr_FailedCount r))"
  by (simp_all add: replay_answer_def field_def)

lemma selected_page: "selected (page_options f) es = es"
  by (simp add: selected_def page_options_def AllMessages_def)

lemma dry_run_result:
  assumes "dq_enabled d" and "rp_DryRun opts" and "selected opts = (\<lambda>es. es)"
  shows "\<exists>r. ReplayWithOptions ok topic opts publish d b = (Some r, d, b) \<and> rr_ReplayedCount r = 0 \<and> rr_SkippedCount r = dlq_Size topic d"
proof (cases "dq_queues d topic")
  case (Some q)
  then show ?thesis using assms
    by (cases "q_messages q = []") (simp_all add: ReplayWithOptions_def length_select empty_result_def dlq_Size_def)
qed (use assms in \<open>simp add: ReplayWithOptions_def empty_result_def dlq_Size_def\<close>)

text \<open>A dry run from the page changes nothing and finds every entry of the topic, but the server counts them as
  skipped and the page shows the number replayed: the message always says that 0 messages would be replayed.\<close>

theorem dry_run_shows_zero:
  assumes "plain_seg topic" and "dq_enabled d" and "selectedTopic s = Some topic" and "dryRun (replayForm s)"
    and "targetTopic (replayForm s) = '''' \<or> GetTopic (fst (snd b)) (targetTopic (replayForm s)) \<noteq> None"
  shows "\<exists>v. perform st (serve (replay_server regex trunc ok now pe d b)) (replay_mutationFn s (replayForm s)) = Inr v \<and>
    field v ''skipped'' as_num = Some (int (dlq_Size topic d)) \<and>
    snd (handleDLQReplay regex trunc ok now pe topic (fetch_options st (Some (call_init (replay_mutationFn s (replayForm s))))) (Some d) b) = (Some d, b) \<and>
    (\<forall>dry n. field v ''dry_run'' as_bool = Some dry \<and> field v ''replayed'' as_num = Some n \<longrightarrow>
      Toast ToastInfo ''Dry run: 0 messages would be replayed'' \<in> set (snd (replay_onSuccess s dry n s)))"
proof -
  let ?f = "replayForm s"
  obtain r where run: "ReplayWithOptions ok topic (page_options ?f) (replay_publisher pe topic) d b = (Some r, d, b)"
    and r: "rr_ReplayedCount r = 0" "rr_SkippedCount r = dlq_Size topic d"
    using dry_run_result [OF assms(2), of "page_options ?f" ok topic "replay_publisher pe topic" b] assms(4) selected_page [of ?f]
    by (auto simp: fun_eq_iff page_options_def)
  have "show_int 0 = ''0''" by code_simp
  with replay_served [OF assms(1,5) run, where st = st and regex = regex and trunc = trunc and now = now] r assms(3,4) show ?thesis
    by (intro exI [of _ "replay_answer topic True r"]) (simp add: replay_mutationFn_def tpl_def replay_onSuccess_def)
qed

lemma extractProducerInfo_topic [simp]: "extractProducerInfo (m\<lparr>Topic := t\<rparr>) = extractProducerInfo m"
  unfolding extractProducerInfo_def by (simp split: option.split)

definition seen_by :: "publish_env \<Rightarrow> Envelope \<Rightarrow> bool" where
  "seen_by pe m \<longleftrightarrow> is_duplicate pe m \<and> (pe_maxMessageSize pe > 0 \<longrightarrow> int (length (Payload m)) \<le> pe_maxMessageSize pe)"

definition already_seen :: "(nat \<Rightarrow> publish_env) \<Rightarrow> dead_letter \<Rightarrow> bool" where
  "already_seen pe e \<longleftrightarrow> (case dl_msg e of None \<Rightarrow> False | Some m \<Rightarrow> \<forall>k. seen_by (pe k) m)"

lemma Publish_duplicate:
  assumes "seen_by pe m" and "GetTopic tm t \<noteq> None"
  shows "Publish pe (m\<lparr>Topic := t\<rparr>) tm = (Inr 0, m\<lparr>Topic := t\<rparr>, tm, [])"
proof -
  obtain cfg where "GetTopic tm t = Some cfg" using assms(2) by blast
  moreover have "is_duplicate pe (m\<lparr>Topic := t\<rparr>) = is_duplicate pe m" unfolding is_duplicate_def by (simp split: option.split)
  ultimately show ?thesis using assms(1) by (auto simp: Publish_def seen_by_def)
qed

text \<open>C15: Replaying with deletion loses what the broker has seen before: a message that the deduplication recognises by its
  producer and sequence is acknowledged without being stored, so the replay counts it as replayed and takes it out of the
  queue; nothing is published.\<close>

theorem replay_loses_duplicates:
  assumes "plain_seg topic" and "dq_enabled d" and "dq_queues d topic = Some q" and "q_messages q \<noteq> []"
    and "\<forall>e\<in>set (q_messages q). dl_Topic e = topic \<and> already_seen pe e"
    and "GetTopic tm topic \<noteq> None"
  shows "\<exists>d' k v. perform st (serve (replay_server regex trunc ok now pe d (n, tm, evs))) (replayDLQ topic (replay_options \<lparr>targetTopic = '''', dryRun = False, deleteAfter = True\<rparr>)) = Inr v \<and>
    field v ''replayed'' as_num = Some (int (length (q_messages q))) \<and> field v ''failed'' as_num = Some 0 \<and>
    snd (handleDLQReplay regex trunc ok now pe topic
      (fetch_options st (Some (call_init (replayDLQ topic (replay_options \<lparr>targetTopic = '''', dryRun = False, deleteAfter = True\<rparr>))))) (Some d) (n, tm, evs)) =
      (Some d', k, tm, evs) \<and> dlq_Size topic d' = 0"
proof -
  let ?f = "\<lparr>targetTopic = '''', dryRun = False, deleteAfter = True\<rparr>" and ?p = "replay_publisher pe topic"
  have one: "replay_one (page_options ?f) ?p e r (k, tm, evs) = ([], r\<lparr>rr_ReplayedCount := rr_ReplayedCount r + 1\<rparr>, (Suc k, tm, evs))"
    if "e \<in> set (q_messages q)" for e r k
  proof -
    have e: "dl_Topic e = topic" "already_seen pe e" using assms(5) that by simp_all
    then obtain m where m: "dl_msg e = Some m" "seen_by (pe k) m" by (auto simp: already_seen_def split: option.splits)
    from Publish_duplicate [OF this(2) assms(6)] m(1) e(1) show ?thesis
      by (simp add: replay_one_def page_options_def NoTransform_def replay_publisher_def)
  qed
  have all: "set es \<subseteq> set (q_messages q) \<Longrightarrow> replay_spec (page_options ?f) ?p j es r (k, tm, evs) =
    ([], r\<lparr>rr_ReplayedCount := rr_ReplayedCount r + length es\<rparr>, (k + length es, tm, evs))" for j es r k
    by (induction es arbitrary: j r k) (simp_all add: one page_fields)
  have nd: "\<not> rp_DryRun (page_options ?f)" by (simp add: page_options_def)
  note run = ReplayWithOptions_run [OF assms(2-4) nd all [of _ 0], OF order_refl, of ok]
  let ?r = "empty_result\<lparr>rr_TotalEntries := length (q_messages q), rr_MatchedEntries := length (selected (page_options ?f) (q_messages q)),
    rr_ReplayedCount := length (q_messages q)\<rparr>"
  let ?d = "(if rp_DeleteAfterReplay (page_options ?f) then rewriteTopicFile ok topic else id)
    (d\<lparr>dq_queues := (dq_queues d)(topic \<mapsto> q\<lparr>q_messages := []\<rparr>)\<rparr>)"
  have r: "rr_ReplayedCount ?r = length (q_messages q)" "rr_FailedCount ?r = 0" by (simp_all add: empty_result_def)
  have "ReplayWithOptions ok topic (page_options ?f) ?p d (n, tm, evs) = (Some ?r, ?d, (n + length (q_messages q), tm, evs))"
    using run by (simp add: empty_result_def)
  moreover have "dlq_Size topic ?d = 0" by (simp add: dlq_Size_def)
  ultimately obtain d' where d': "ReplayWithOptions ok topic (page_options ?f) ?p d (n, tm, evs) = (Some ?r, d', (n + length (q_messages q), tm, evs))"
    "dlq_Size topic d' = 0" by blast
  have "targetTopic ?f = '''' \<or> GetTopic (fst (snd (n, tm, evs))) (targetTopic ?f) \<noteq> None" by simp
  note served = replay_served [OF assms(1) this d'(1), where st = st and regex = regex and trunc = trunc and now = now]
  show ?thesis
    by (rule exI [of _ d'], rule exI [of _ "n + length (q_messages q)"], rule exI [of _ "replay_answer topic (dryRun ?f) ?r"])
      (simp only: served replay_answer_fields r d'(2) snd_conv simp_thms int_ops(1))
qed

text \<open>The entries as the page gets them.\<close>

lemma dropWhile_plain: "plain_seg s \<Longrightarrow> dropWhile (\<lambda>c. c \<noteq> CHR ''?'') (s @ t) = dropWhile (\<lambda>c. c \<noteq> CHR ''?'') t"
  by (intro dropWhile_append2) (auto simp: plain_seg_def)

lemma digits_plain:
  assumes "c \<in> {CHR ''?'', CHR ''#'', CHR ''&'', CHR ''=''}"
  shows "c \<notin> set (show_nat n)"
  using show_nat_digits [of n] assms by auto

lemma query_limit:
  assumes "plain_seg topic"
  shows "query_get ''limit'' (fetch_url (call_path (getDLQ topic l))) = show_nat l"
proof -
  have "takeWhile (\<lambda>c. c \<noteq> CHR ''#'') (show_nat l) = show_nat l"
    using digits_plain [of "CHR ''#''" l] by (intro takeWhile_eq_all_conv [THEN iffD2]) auto
  then have "query_part (fetch_url (call_path (getDLQ topic l))) = ''limit='' @ show_nat l"
    by (simp add: query_part_def fetch_url_def getDLQ_def api_get_def dropWhile_plain [OF assms])
  moreover have "split_on CHR ''&'' (''limit='' @ show_nat l) = [''limit='' @ show_nat l]"
    by (rule split_on_none) (use digits_plain [of "CHR ''&''" l] in auto)
  ultimately show ?thesis by (simp add: query_get_def)
qed

lemma atoi_show_nat: "atoi (show_nat n) = Some (int n)"
  using show_nat_is_digit [of n] by (simp add: atoi_def read_nat_show_nat)

definition dlq_peek_server :: "DLQ option \<Rightarrow> string \<Rightarrow> string \<Rightarrow> string list \<Rightarrow> string \<Rightarrow> init_obj \<Rightarrow> fetch_outcome" where
  "dlq_peek_server dlq m p vals u i = handleDLQPeek (hd vals) u dlq"

lemma peek_served:
  assumes "plain_seg topic"
  shows "perform st (serve (dlq_peek_server (Some d))) (getDLQ topic l) =
    Inr (JObj [(''count'', JNum (int (length (Peek topic (int l) d)))), (''entries'', JArr (map entry_json (Peek topic (int l) d))), (''topic'', JStr topic)])"
  using perform_serve [OF _ route_getDLQ [OF assms], where handle = "dlq_peek_server (Some d)"] query_limit [OF assms, of l]
  by (simp add: dlq_peek_server_def handleDLQPeek_def atoi_show_nat writeJSON_def res_ok_def Let_def)

lemma entry_undeclared: "decode_DLQEntry (entry_json e) = None"
  by (simp add: decode_DLQEntry_def entry_json_def envelope_json_def field_def decode_OriginalMsg_def split: option.split)

text \<open>The dead letter page gets the first 50 entries of the selected topic, in order, but never in the shape it
  declares: the message of an entry is null or an object whose fields have the names of the Go structure, so none of the
  identifier, topic and body the page shows is there.\<close>

theorem dlq_entries_undeclared:
  assumes "plain_seg topic" and "dq_queues d topic = Some q" and "selectedTopic s = Some topic"
  shows "\<exists>vs. entries_queryFn st (serve (dlq_peek_server (Some d))) s = Some (JArr vs) \<and> length vs = min 50 (dlq_Size topic d) \<and>
    (\<forall>i < length vs. field (vs ! i) ''id'' as_num = Some (int (dl_ID (q_messages q ! i))) \<and> decode_DLQEntry (vs ! i) = None \<and>
      (\<forall>v \<in> {''id'', ''topic'', ''body''}. field (vs ! i) ''original_msg'' (\<lambda>m. field m v Some) = None))"
proof -
  have p: "Peek topic 50 d = take 50 (q_messages q)" using assms(2) by (simp add: Peek_def min_def)
  have "tpl (selectedTopic s) = topic" "truthy_str (selectedTopic s)"
    using assms(1,3) by (simp_all add: tpl_def truthy_str_def plain_seg_def)
  then have "entries_queryFn st (serve (dlq_peek_server (Some d))) s = Some (JArr (map entry_json (take 50 (q_messages q))))"
    using peek_served [OF assms(1), of st d 50] p by (simp add: entries_queryFn_def peekDLQ_def listed_def)
  moreover have "field (entry_json e) ''id'' as_num = Some (int (dl_ID e))" for e
    by (simp add: entry_json_def field_def)
  moreover have "\<forall>v \<in> {''id'', ''topic'', ''body''}. field (entry_json e) ''original_msg'' (\<lambda>m. field m v Some) = None" for e
    by (cases "dl_msg e") (simp_all add: entry_json_def envelope_json_def field_def)
  ultimately show ?thesis
    using assms(2) entry_undeclared by (intro exI [of _ "map entry_json (take 50 (q_messages q))"]) (simp add: dlq_Size_def min.commute)
qed

text \<open>Names with a dot, which the broker accepts for topics, are refused here.\<close>

lemma dotted_never_stored: "CHR ''.'' \<in> set topic \<Longrightarrow> Push ok now msg topic p reason n d = d"
  by (auto simp: Push_def dlq_validateTopicName_def dlq_name_char_def list_all_iff)

section \<open>Witnesses\<close>

definition dlq_empty :: DLQ where
  "dlq_empty = NewDLQ (\<lambda>_. 0) [] True '''' 0 True (\<lambda>_. None)"

definition dead_ex :: dead_letter where
  "dead_ex = \<lparr>dl_ID = 1, dl_msg = Some env_ex, dl_Topic = ''orders'', dl_Partition = 0, dl_Reason = ''expired'', dl_Retries = 3,
     dl_FailedAt = ''2024-01-02T03:04:05.5Z''\<rparr>"

definition dlq_ex :: DLQ where
  "dlq_ex = pushes [(''2024-01-02T03:04:05.5Z'', env_ex, ''orders'', 0, ''expired'', 3)] dlq_empty"


lemma orders_valid: "dlq_validateTopicName ''orders''" "plain_seg ''orders''"
  by code_simp+

lemma dlq_ex_facts:
  "dq_enabled dlq_ex" "dq_dir dlq_ex" "dq_queues dlq_ex = [''orders'' \<mapsto> \<lparr>q_messages = [dead_ex], q_offset = 1\<rparr>]"
  "dq_files dlq_ex = [[''orders.jsonl''] \<mapsto> [dead_ex]]"
  using orders_valid(1) valid_path [OF orders_valid(1)]
  by (simp_all add: dlq_ex_def pushes_def Push_def persistEntry_def dlq_empty_def NewDLQ_def loadAll_def dead_ex_def Let_def)

theorem replay_is_one_pass_witness:
  "\<exists>r d'. ReplayWithOptions True ''orders'' (page_options \<lparr>targetTopic = '''', dryRun = False, deleteAfter = True\<rparr>) (\<lambda>m t b. (True, m, b)) dlq_ex () =
     (Some r, d', ()) \<and> rr_ReplayedCount r = 1 \<and> Peek ''orders'' 0 d' = []"
proof -
  let ?o = "page_options \<lparr>targetTopic = '''', dryRun = False, deleteAfter = True\<rparr>" and ?p = "\<lambda>m t b. (True, m, b :: unit)"
  have q: "dq_queues dlq_ex ''orders'' = Some \<lparr>q_messages = [dead_ex], q_offset = 1\<rparr>" by (simp add: dlq_ex_facts)
  obtain r d' where run: "ReplayWithOptions True ''orders'' ?o ?p dlq_ex () = (r, d', ())"
    by (cases "ReplayWithOptions True ''orders'' ?o ?p dlq_ex ()") auto
  then obtain r' where r: "r = Some r'" using dlq_ex_facts(1) by (cases r) (auto simp: ReplayWithOptions_def Let_def split: option.splits if_splits prod.splits)
  have "replay_spec ?o ?p 0 [dead_ex] empty_result () = ([], empty_result\<lparr>rr_ReplayedCount := 1\<rparr>, ())"
    by (simp add: replay_one_def page_options_def NoTransform_def AllMessages_def dead_ex_def empty_result_def)
  with replay_is_one_pass [OF dlq_ex_facts(1) q run [unfolded r]] run r show ?thesis
    by (auto simp: page_fields dlq_Size_def q Peek_def selected_page split: option.splits if_splits)
qed


theorem deleted_entries_return_witness:
  "\<exists>d'. Pop ''orders'' dlq_ex = (Some dead_ex, d') \<and> dlq_Size ''orders'' d' = 0 \<and> dlq_Size ''orders'' (restarted (\<lambda>_. 100) [''orders''] d') \<noteq> 0"
proof -
  obtain d' where p: "Pop ''orders'' dlq_ex = (Some dead_ex, d')" "dlq_Size ''orders'' d' = 0"
    by (auto simp: Pop_def dlq_ex_facts dlq_Size_def)
  have "dq_files dlq_ex (topicPath ''orders'') = Some [dead_ex]" by (simp add: dlq_ex_facts valid_path [OF orders_valid(1)])
  from deleted_entries_return [OF dlq_ex_facts(2) this, of "\<lambda>_. 100" "[''orders'']" d'] orders_valid(1) p show ?thesis by auto
qed

theorem dry_run_shows_zero_witness:
  "\<exists>v. perform (useAuthStore fresh_storage) (serve (replay_server (\<lambda>_. None) (\<lambda>_. 0) True '''' (\<lambda>_. publish_env_ex) dlq_ex (0, tm_orders, [])))
     (replay_mutationFn (dlq_init\<lparr>selectedTopic := Some ''orders'', replayForm := \<lparr>targetTopic = '''', dryRun = True, deleteAfter = False\<rparr>\<rparr>)
       \<lparr>targetTopic = '''', dryRun = True, deleteAfter = False\<rparr>) = Inr v \<and> field v ''skipped'' as_num = Some 1"
  using dry_run_shows_zero [OF orders_valid(2) dlq_ex_facts(1),
      of "dlq_init\<lparr>selectedTopic := Some ''orders'', replayForm := \<lparr>targetTopic = '''', dryRun = True, deleteAfter = False\<rparr>\<rparr>" "(0, tm_orders, [])"
        "useAuthStore fresh_storage" "\<lambda>_. None" "\<lambda>_. 0" True "''''" "\<lambda>_. publish_env_ex"]
  by (auto simp: dlq_Size_def dlq_ex_facts)

definition seen_env :: Envelope where
  "seen_env = env_ex\<lparr>Headers := Some [''x-chimera-producer-id'' \<mapsto> [112], ''x-chimera-producer-seq'' \<mapsto> [49]]\<rparr>"

definition dlq_seen :: DLQ where
  "dlq_seen = dlq_ex\<lparr>dq_queues := [''orders'' \<mapsto> \<lparr>q_messages = [dead_ex\<lparr>dl_msg := Some seen_env\<rparr>], q_offset = 1\<rparr>]\<rparr>"

theorem replay_loses_duplicates_witness:
  "\<exists>d' k v. perform (useAuthStore fresh_storage) (serve (replay_server (\<lambda>_. None) (\<lambda>_. 0) True '''' (\<lambda>_. publish_env_ex\<lparr>pe_deduper := Some (\<lambda>_ _. True)\<rparr>) dlq_seen
       (0, tm_orders, []))) (replayDLQ ''orders'' (replay_options \<lparr>targetTopic = '''', dryRun = False, deleteAfter = True\<rparr>)) = Inr v \<and>
     field v ''replayed'' as_num = Some 1 \<and> dlq_Size ''orders'' d' = 0 \<and>
     snd (handleDLQReplay (\<lambda>_. None) (\<lambda>_. 0) True '''' (\<lambda>_. publish_env_ex\<lparr>pe_deduper := Some (\<lambda>_ _. True)\<rparr>) ''orders''
      (fetch_options (useAuthStore fresh_storage) (Some (call_init (replayDLQ ''orders'' (replay_options \<lparr>targetTopic = '''', dryRun = False, deleteAfter = True\<rparr>)))))
      (Some dlq_seen) (0, tm_orders, [])) = (Some d', k, tm_orders, [])"
proof -
  let ?pe = "\<lambda>_ :: nat. publish_env_ex\<lparr>pe_deduper := Some (\<lambda>_ _. True)\<rparr>"
  have "bytes_str [49] = ''1''" "list_all is_digit ''1''" "read_nat ''1'' = 1" by code_simp+
  then have "parse_uint 64 [49] = Some 1" by (simp add: parse_uint_def)
  then have "extractProducerInfo seen_env = Some (bytes_str [112], 1)"
    by (simp add: extractProducerInfo_def seen_env_def hdr_map_def)
  then have "seen_by (?pe 0) seen_env" by (simp add: seen_by_def is_duplicate_def publish_env_ex_def)
  then have "already_seen ?pe (dead_ex\<lparr>dl_msg := Some seen_env\<rparr>)" by (simp add: already_seen_def)
  then have a: "\<forall>e\<in>set (q_messages \<lparr>q_messages = [dead_ex\<lparr>dl_msg := Some seen_env\<rparr>], q_offset = 1\<rparr>). dl_Topic e = ''orders'' \<and> already_seen ?pe e"
    by (simp add: dead_ex_def)
  have "dq_enabled dlq_seen" "dq_queues dlq_seen ''orders'' = Some \<lparr>q_messages = [dead_ex\<lparr>dl_msg := Some seen_env\<rparr>], q_offset = 1\<rparr>"
    by (simp_all add: dlq_seen_def dlq_ex_facts)
  from replay_loses_duplicates [OF orders_valid(2) this _ a, of tm_orders "useAuthStore fresh_storage" "\<lambda>_. None" "\<lambda>_. 0" True "''''" 0 "[]"]
  show ?thesis by (auto simp: tm_orders_def GetTopic_def)
qed

theorem dlq_entries_undeclared_witness:
  "\<exists>v. entries_queryFn (useAuthStore fresh_storage) (serve (dlq_peek_server (Some dlq_ex))) (dlq_init\<lparr>selectedTopic := Some ''orders''\<rparr>) = Some (JArr [v]) \<and>
     decode_DLQEntry v = None"
proof -
  have q: "dq_queues dlq_ex ''orders'' = Some \<lparr>q_messages = [dead_ex], q_offset = 1\<rparr>" by (simp add: dlq_ex_facts)
  from dlq_entries_undeclared [OF orders_valid(2) q, of "dlq_init\<lparr>selectedTopic := Some ''orders''\<rparr>" "useAuthStore fresh_storage"]
  show ?thesis by (auto simp: dlq_Size_def q length_Suc_conv)
qed

end
