(* ===== verification/Exchanges.thy ===== *)
theory Exchanges
  imports Broker_Publish
begin

text \<open>
  \<^verbatim>\<open>internal/engine/exchange\<close> and the handlers of the admin server for it: exchanges route a message to the destinations of
  their bindings.  A registry holds the exchanges by name; the bodies of requests are arguments, decoded.
  The iteration over a Go map looks for one entry or checks all, so that its order does not matter.
\<close>

section \<open>Exchanges\<close>

datatype ExchangeType = TypeDirect | TypeTopic | TypeFanout | TypeHeaders

record Binding =
  bd_Key :: string
  bd_Destination :: string
  bd_Arguments :: "(string \<times> string) list"

record Exchange =
  ex_name :: string
  ex_type :: ExchangeType
  ex_bindings :: "Binding list"
  ex_durable :: bool

definition NewExchange :: "string \<Rightarrow> ExchangeType \<Rightarrow> bool \<Rightarrow> Exchange" where
  "NewExchange name xtype durable = \<lparr>ex_name = name, ex_type = xtype, ex_bindings = [], ex_durable = durable\<rparr>"

definition ex_Bind :: "string \<Rightarrow> string \<Rightarrow> (string \<times> string) list \<Rightarrow> Exchange \<Rightarrow> Exchange" where
  "ex_Bind key destination args e =
     e\<lparr>ex_bindings := ex_bindings e @ [\<lparr>bd_Key = key, bd_Destination = destination, bd_Arguments = args\<rparr>]\<rparr>"

fun unbind_first :: "string \<Rightarrow> string \<Rightarrow> Binding list \<Rightarrow> Binding list" where
  "unbind_first key destination [] = []"
| "unbind_first key destination (b # bs) =
     (if bd_Key b = key \<and> bd_Destination b = destination then bs else b # unbind_first key destination bs)"

definition ex_Unbind :: "string \<Rightarrow> string \<Rightarrow> Exchange \<Rightarrow> Exchange" where
  "ex_Unbind key destination e = e\<lparr>ex_bindings := unbind_first key destination (ex_bindings e)\<rparr>"

text \<open>The pattern is followed by two indices; \<open>#\<close> tries every position from the current one to the end.\<close>

function matchParts :: "string list \<Rightarrow> string list \<Rightarrow> nat \<Rightarrow> nat \<Rightarrow> bool" where
  "matchParts pattern key pidx ki =
     (if pidx < length pattern \<and> ki < length key
      then if pattern ! pidx = ''#'' then list_ex (\<lambda>k. matchParts pattern key (pidx + 1) k) [ki..<length key + 1]
           else if pattern ! pidx = ''*'' then matchParts pattern key (pidx + 1) (ki + 1)
           else if pattern ! pidx \<noteq> key ! ki then False
           else matchParts pattern key (pidx + 1) (ki + 1)
      else pidx + length (takeWhile (\<lambda>p. p = ''#'') (drop pidx pattern)) = length pattern \<and> ki = length key)"
  by pat_completeness auto
termination by (relation "measure (\<lambda>(pattern, key, pidx, ki). length pattern - pidx)") auto

declare matchParts.simps [simp del]

definition topicMatch :: "string \<Rightarrow> string \<Rightarrow> bool" where
  "topicMatch pattern key \<longleftrightarrow> (if pattern = ''#'' then True else if pattern = key then True
     else matchParts (split_on CHR ''.'' pattern) (split_on CHR ''.'' key) 0 0)"

definition headersMatch :: "(string \<times> string) list \<Rightarrow> (string \<times> string) list \<Rightarrow> bool" where
  "headersMatch bindingArgs msgHeaders \<longleftrightarrow>
     (if bindingArgs = [] then True else if msgHeaders = [] then False
      else let matchMode = (case map_of bindingArgs ''x-match'' of Some v \<Rightarrow> v | None \<Rightarrow> ''all'')
        in if matchMode = ''any''
           then list_ex (\<lambda>(k, v). k \<noteq> ''x-match'' \<and> map_of msgHeaders k = Some v) bindingArgs
           else list_all (\<lambda>(k, v). k = ''x-match'' \<or> map_of msgHeaders k = Some v) bindingArgs)"




definition ExchangeTypeFromString :: "string \<Rightarrow> ExchangeType" where
  "ExchangeTypeFromString s = (let s = toLowerCase s in
     if s = ''direct'' then TypeDirect else if s = ''topic'' then TypeTopic else if s = ''fanout'' then TypeFanout
     else if s = ''headers'' then TypeHeaders else TypeDirect)"

fun exchange_type_str :: "ExchangeType \<Rightarrow> string" where
  "exchange_type_str TypeDirect = ''direct''"
| "exchange_type_str TypeTopic = ''topic''"
| "exchange_type_str TypeFanout = ''fanout''"
| "exchange_type_str TypeHeaders = ''headers''"

section \<open>The registry\<close>

type_synonym Registry = "string \<Rightarrow> Exchange option"

datatype registry_error = DeclaredAs ExchangeType | NotFound

definition Declare :: "string \<Rightarrow> ExchangeType \<Rightarrow> bool \<Rightarrow> Registry \<Rightarrow> (registry_error + Exchange) \<times> Registry" where
  "Declare name xtype durable r = (case r name of
     Some ex \<Rightarrow> if ex_type ex \<noteq> xtype then (Inl (DeclaredAs (ex_type ex)), r) else (Inr ex, r)
   | None \<Rightarrow> let ex = NewExchange name xtype durable in (Inr ex, r(name \<mapsto> ex)))"

definition reg_Delete :: "string \<Rightarrow> Registry \<Rightarrow> registry_error option \<times> Registry" where
  "reg_Delete name r = (if r name = None then (Some NotFound, r) else (None, r(name := None)))"


definition reg_Bind :: "string \<Rightarrow> string \<Rightarrow> string \<Rightarrow> (string \<times> string) list \<Rightarrow> Registry \<Rightarrow> registry_error option \<times> Registry" where
  "reg_Bind name key destination args r = (case r name of None \<Rightarrow> (Some NotFound, r)
     | Some ex \<Rightarrow> (None, r(name \<mapsto> ex_Bind key destination args ex)))"

definition reg_Unbind :: "string \<Rightarrow> string \<Rightarrow> string \<Rightarrow> Registry \<Rightarrow> registry_error option \<times> Registry" where
  "reg_Unbind name key destination r = (case r name of None \<Rightarrow> (Some NotFound, r)
     | Some ex \<Rightarrow> (None, r(name \<mapsto> ex_Unbind key destination ex)))"

section \<open>Handlers\<close>

text \<open>The message of an error ends up in the answer, as \<open>err_text\<close>; the request is \<open>None\<close> when the body cannot be decoded.\<close>

record exchange_request =
  xr_Name :: string
  xr_Type :: string
  xr_Durable :: bool

definition handleCreateExchange :: "(registry_error \<Rightarrow> string) \<Rightarrow> exchange_request option \<Rightarrow> Registry \<Rightarrow> fetch_outcome \<times> Registry" where
  "handleCreateExchange err_text ro r = (case ro of None \<Rightarrow> (writeError 400 ''invalid request body'', r)
     | Some req \<Rightarrow>
        if xr_Name req = '''' \<or> length (xr_Name req) > 255 then (writeError 400 ''invalid exchange name'', r)
        else (case Declare (xr_Name req) (ExchangeTypeFromString (xr_Type req)) (xr_Durable req) r of
            (Inl err, r) \<Rightarrow> (writeError 409 (err_text err), r)
          | (Inr ex, r) \<Rightarrow> (writeJSON 201 (JObj [(''durable'', JBool (xr_Durable req)), (''name'', JStr (ex_name ex)),
              (''type'', JStr (exchange_type_str (ex_type ex)))]), r)))"

definition handleDeleteExchange :: "(registry_error \<Rightarrow> string) \<Rightarrow> string \<Rightarrow> Registry \<Rightarrow> fetch_outcome \<times> Registry" where
  "handleDeleteExchange err_text name r = (case reg_Delete name r of
     (Some err, r) \<Rightarrow> (writeError 404 (err_text err), r) | (None, r) \<Rightarrow> (writeJSON 200 (JObj [(''status'', JStr ''deleted'')]), r))"

definition handleBindExchange :: "(registry_error \<Rightarrow> string) \<Rightarrow> string \<Rightarrow> Binding option \<Rightarrow> Registry \<Rightarrow> fetch_outcome \<times> Registry" where
  "handleBindExchange err_text name ro r = (case ro of None \<Rightarrow> (writeError 400 ''invalid request body'', r)
     | Some b \<Rightarrow> if bd_Destination b = '''' then (writeError 400 ''destination is required'', r)
        else (case reg_Bind name (bd_Key b) (bd_Destination b) (bd_Arguments b) r of
            (Some err, r) \<Rightarrow> (writeError 404 (err_text err), r)
          | (None, r) \<Rightarrow> (writeJSON 200 (JObj [(''status'', JStr ''bound'')]), r)))"

definition handleUnbindExchange :: "(registry_error \<Rightarrow> string) \<Rightarrow> string \<Rightarrow> (string \<times> string) option \<Rightarrow> Registry \<Rightarrow> fetch_outcome \<times> Registry" where
  "handleUnbindExchange err_text name ro r = (case ro of None \<Rightarrow> (writeError 400 ''invalid request body'', r)
     | Some (key, destination) \<Rightarrow> (case reg_Unbind name key destination r of
            (Some err, r) \<Rightarrow> (writeError 404 (err_text err), r)
          | (None, r) \<Rightarrow> (writeJSON 200 (JObj [(''status'', JStr ''unbound'')]), r)))"




section \<open>Topic patterns\<close>

text \<open>The reference: words match themselves, \<open>*\<close> one word, \<open>#\<close> any number of words.\<close>

inductive words_match :: "string list \<Rightarrow> string list \<Rightarrow> bool" where
  finish: "words_match [] []"
| skip: "words_match ps ws \<Longrightarrow> words_match (''#'' # ps) ws"
| more: "words_match (''#'' # ps) ws \<Longrightarrow> words_match (''#'' # ps) (w # ws)"
| one: "words_match ps ws \<Longrightarrow> words_match (''*'' # ps) (w # ws)"
| word: "words_match ps ws \<Longrightarrow> words_match (w # ps) (w # ws)"

inductive_simps words_match_simps: "words_match [] ws" "words_match (p # ps) []" "words_match (p # ps) (w # ws)"

lemma words_match_hash: "words_match (''#'' # ps) ws \<longleftrightarrow> (\<exists>k \<le> length ws. words_match ps (drop k ws))"
proof
  assume "words_match (''#'' # ps) ws"
  then show "\<exists>k \<le> length ws. words_match ps (drop k ws)"
  proof (induction "''#'' # ps" ws rule: words_match.induct)
    case (skip ws)
    then show ?case by (intro exI [of _ 0]) simp
  next
    case (more ws w)
    then obtain k where "k \<le> length ws" "words_match ps (drop k ws)" by blast
    then show ?case by (intro exI [of _ "Suc k"]) simp
  next
    case (word ws)
    then show ?case by (intro exI [of _ 1]) simp
  qed blast+
next
  assume "\<exists>k \<le> length ws. words_match ps (drop k ws)"
  then obtain k where "k \<le> length ws" "words_match ps (drop k ws)" by blast
  then show "words_match (''#'' # ps) ws"
  proof (induction k arbitrary: ws)
    case 0
    then show ?case by (simp add: words_match.skip)
  next
    case (Suc k)
    then show ?case by (cases ws) (auto intro: words_match.more)
  qed
qed

lemma words_match_empty: "words_match ps [] \<longleftrightarrow> list_all (\<lambda>p. p = ''#'') ps"
  by (induction ps) (auto simp: words_match_simps)

lemma drop_range: "(\<exists>k\<in>{i..n}. P (drop k xs)) \<longleftrightarrow> (\<exists>j \<le> n - i. P (drop j (drop i xs)))" if "i \<le> n" for i n :: nat
proof
  assume "\<exists>k\<in>{i..n}. P (drop k xs)"
  then obtain k where "i \<le> k" "k \<le> n" "P (drop k xs)" by auto
  then show "\<exists>j \<le> n - i. P (drop j (drop i xs))" by (intro exI [of _ "k - i"]) simp
next
  assume "\<exists>j \<le> n - i. P (drop j (drop i xs))"
  then obtain j where "j \<le> n - i" "P (drop (j + i) xs)" by auto
  then show "\<exists>k\<in>{i..n}. P (drop k xs)" using that by (intro bexI [of _ "j + i"]) auto
qed

lemma matchParts_iff:
  "pidx \<le> length pattern \<Longrightarrow> ki \<le> length key \<Longrightarrow> matchParts pattern key pidx ki \<longleftrightarrow> words_match (drop pidx pattern) (drop ki key)"
proof (induction pattern key pidx ki rule: matchParts.induct)
  case (1 pattern key pidx ki)
  show ?case
  proof (cases "pidx < length pattern \<and> ki < length key")
    case True
    then have d: "drop pidx pattern = pattern ! pidx # drop (pidx + 1) pattern" "drop ki key = key ! ki # drop (ki + 1) key"
      by (simp_all add: Cons_nth_drop_Suc)
    show ?thesis
    proof (cases "pattern ! pidx = ''#''")
      case hash: True
      have "matchParts pattern key pidx ki \<longleftrightarrow> (\<exists>k\<in>{ki..length key}. words_match (drop (pidx + 1) pattern) (drop k key))"
        using 1(1) [OF True hash] True hash 1(4)
        by (subst matchParts.simps) (auto simp: list_ex_iff atLeastLessThanSuc_atLeastAtMost simp del: upt_Suc)
      also have "\<dots> \<longleftrightarrow> (\<exists>j \<le> length key - ki. words_match (drop (pidx + 1) pattern) (drop j (drop ki key)))"
        using 1(5) by (rule drop_range)
      also have "\<dots> \<longleftrightarrow> words_match (drop pidx pattern) (drop ki key)"
        using d(1) hash by (simp add: words_match_hash)
      finally show ?thesis .
    next
      case False
      then show ?thesis using 1 True d by (subst matchParts.simps) (auto simp: words_match_simps)
    qed
  next
    case False
    then have m: "matchParts pattern key pidx ki \<longleftrightarrow>
        pidx + length (takeWhile (\<lambda>p. p = ''#'') (drop pidx pattern)) = length pattern \<and> ki = length key"
      by (subst matchParts.simps) (simp only: False if_False)
    show ?thesis
    proof (cases "ki = length key")
      case True
      have "pidx + length (takeWhile (\<lambda>p. p = ''#'') (drop pidx pattern)) = length pattern \<longleftrightarrow>
          length (takeWhile (\<lambda>p. p = ''#'') (drop pidx pattern)) = length (drop pidx pattern)"
        using 1(4) by auto
      also have "\<dots> \<longleftrightarrow> list_all (\<lambda>p. p = ''#'') (drop pidx pattern)"
        by (metis list_all_iff takeWhile_eq_all_conv takeWhile_eq_take take_all_iff order_refl)
      finally show ?thesis using m True by (simp add: words_match_empty)
    next
      case k: False
      then have "drop pidx pattern = []" "drop ki key \<noteq> []" using False 1(4,5) by auto
      then show ?thesis using m k by (cases "drop ki key") (simp_all add: words_match_simps)
    qed
  qed
qed

lemma words_match_refl: "words_match ws ws"
  by (induction ws) (auto intro: words_match.intros)

lemma words_match_all: "words_match [''#''] ws"
  by (induction ws) (auto intro: words_match.intros)

text \<open>C27: A binding key matches a routing key exactly when its words do: a star stands for one word, a hash for any number
  of words, and every other word for itself; the two shortcuts of the code change nothing.\<close>

theorem topic_match_exact:
  "topicMatch pattern key \<longleftrightarrow> words_match (split_on CHR ''.'' pattern) (split_on CHR ''.'' key)"
  using matchParts_iff [of 0 "split_on CHR ''.'' pattern" 0 "split_on CHR ''.'' key"]
  by (simp add: topicMatch_def words_match_refl words_match_all)

text \<open>Arguments without a matching mode, or with another one than \<open>any\<close>, must all be among the headers.\<close>

lemma headers_match_all:
  "distinct (map fst args) \<Longrightarrow> map_of args ''x-match'' \<noteq> Some ''any'' \<Longrightarrow> headers \<noteq> [] \<Longrightarrow>
   headersMatch args headers \<longleftrightarrow> (\<forall>k v. map_of args k = Some v \<and> k \<noteq> ''x-match'' \<longrightarrow> map_of headers k = Some v)"
  by (auto simp: headersMatch_def list_all_iff Let_def split: option.splits)

section \<open>Publishing\<close>











end
