(* ===== verification/Dedup.thy ===== *)
theory Dedup
  imports Broker_Publish "HOL-Library.AList"
begin

text \<open>
  \<^verbatim>\<open>internal/idempotent/deduper.go\<close>: the sequence numbers seen of each producer, and publications with them.  Maps are
  association lists; the order in which Go visits a map is an argument.  Times are in nanoseconds.
\<close>

section \<open>The deduper\<close>

definition MaxProducers :: nat where "MaxProducers = 100000"
definition ProducerTTL :: int where "ProducerTTL = 24 * 3600 * 10 ^ 9"

record dedupWindow =
  dw_seen :: "(string \<times> int) list"
  dw_lastSeq :: "64 word"
  dw_lastActivity :: int

record Deduper =
  dd_windows :: "(string \<times> dedupWindow) list"
  dd_windowSize :: int
  dd_maxEntries :: int
  dd_enabled :: bool

record visits_order =
  vo_seen :: "(string \<times> int) list \<Rightarrow> (string \<times> int) list"
  vo_windows :: "(string \<times> dedupWindow) list \<Rightarrow> (string \<times> dedupWindow) list"

definition NewDeduper :: "bool \<Rightarrow> int \<Rightarrow> int \<Rightarrow> Deduper" where
  "NewDeduper enabled windowSize maxEntries = \<lparr>dd_windows = [], dd_windowSize = (if windowSize \<le> 0 then 5 * 60 * 10 ^ 9 else windowSize),
     dd_maxEntries = (if maxEntries \<le> 0 then 10000 else maxEntries), dd_enabled = enabled\<rparr>"

definition evictExpired :: "int \<Rightarrow> int \<Rightarrow> dedupWindow \<Rightarrow> dedupWindow" where
  "evictExpired wsize now w = w\<lparr>dw_seen := filter (\<lambda>(k, t). \<not> now - t \<ge> wsize) (dw_seen w)\<rparr>"

text \<open>The loop takes an entry only when it is older than all it has visited before; the clock, which the source reads again
  here, is taken to stand still during a check.\<close>

fun pick_oldest :: "nat \<Rightarrow> int \<Rightarrow> string list \<Rightarrow> (string \<times> int) list \<Rightarrow> string list" where
  "pick_oldest toRemove oldestTime oldest [] = oldest"
| "pick_oldest toRemove oldestTime oldest ((k, t) # es) =
     (if t < oldestTime then pick_oldest toRemove t (if length oldest < toRemove then oldest @ [k] else oldest) es
      else pick_oldest toRemove oldestTime oldest es)"

definition evictOldest :: "visits_order \<Rightarrow> int \<Rightarrow> int \<Rightarrow> dedupWindow \<Rightarrow> dedupWindow" where
  "evictOldest vo maxEntries now w =
     (let toRemove = (if maxEntries div 4 < 1 then 1 else maxEntries div 4);
          oldest = pick_oldest (nat toRemove) now [] (vo_seen vo (dw_seen w))
      in w\<lparr>dw_seen := fold AList.delete oldest (dw_seen w)\<rparr>)"

definition evictOldestProducer :: "visits_order \<Rightarrow> Deduper \<Rightarrow> Deduper" where
  "evictOldestProducer vo d =
     (let (oldestID, _) = fold (\<lambda>(i, w) (oid, ot). case ot of None \<Rightarrow> (i, Some (dw_lastActivity w))
            | Some t \<Rightarrow> if dw_lastActivity w < t then (i, Some (dw_lastActivity w)) else (oid, ot)) (vo_windows vo (dd_windows d)) ('''', None)
      in if oldestID \<noteq> '''' then d\<lparr>dd_windows := AList.delete oldestID (dd_windows d)\<rparr> else d)"

text \<open>The part of \<open>Check\<close> after the window of the producer has been found.\<close>

definition check_window :: "visits_order \<Rightarrow> int \<Rightarrow> int \<Rightarrow> int \<Rightarrow> 64 word \<Rightarrow> string \<Rightarrow> dedupWindow \<Rightarrow> bool \<times> dedupWindow" where
  "check_window vo wsize maxEntries now seq key w =
     (let w = w\<lparr>dw_lastActivity := now\<rparr> in
      if (case map_of (dw_seen w) key of None \<Rightarrow> False | Some seenAt \<Rightarrow> now - seenAt < wsize) then (True, w)
      else let w = (if int (length (dw_seen w)) \<ge> maxEntries
                    then let w = evictExpired wsize now w
                      in if int (length (dw_seen w)) \<ge> maxEntries then evictOldest vo maxEntries now w else w
                    else w)
        in (False, w\<lparr>dw_seen := AList.update key now (dw_seen w), dw_lastSeq := (if seq > dw_lastSeq w then seq else dw_lastSeq w)\<rparr>))"

definition Check_dup :: "visits_order \<Rightarrow> int \<Rightarrow> string \<Rightarrow> 64 word \<Rightarrow> string \<Rightarrow> Deduper \<Rightarrow> bool \<times> Deduper" where
  "Check_dup vo now producerID seq key d =
     (if \<not> dd_enabled d then (False, d)
      else let tracked = (\<lambda>w d. let (dup, w) = check_window vo (dd_windowSize d) (dd_maxEntries d) now seq key w
                            in (dup, d\<lparr>dd_windows := AList.update producerID w (dd_windows d)\<rparr>));
               fresh = \<lparr>dw_seen = [], dw_lastSeq = 0, dw_lastActivity = now\<rparr>
        in case map_of (dd_windows d) producerID of
          Some w \<Rightarrow> tracked w d
        | None \<Rightarrow> if length (dd_windows d) \<ge> MaxProducers
             then let d = evictOldestProducer vo d in if length (dd_windows d) \<ge> MaxProducers then (False, d) else tracked fresh d
             else tracked fresh d)"

fun low_digits :: "nat \<Rightarrow> string" where
  "low_digits n = (if n = 0 then '''' else digit_char (n mod 10) # low_digits (n div 10))"

definition seqToKey :: "64 word \<Rightarrow> string" where
  "seqToKey seq = (if seq = 0 then ''0'' else rev (low_digits (unat seq)))"

definition IsDuplicate :: "visits_order \<Rightarrow> int \<Rightarrow> string \<Rightarrow> 64 word \<Rightarrow> Deduper \<Rightarrow> bool \<times> Deduper" where
  "IsDuplicate vo now producerID seq d = Check_dup vo now producerID seq (seqToKey seq) d"

definition LastSequence :: "string \<Rightarrow> Deduper \<Rightarrow> 64 word" where
  "LastSequence producerID d = (if \<not> dd_enabled d then 0 else case map_of (dd_windows d) producerID of None \<Rightarrow> 0 | Some w \<Rightarrow> dw_lastSeq w)"

definition RemoveProducer :: "string \<Rightarrow> Deduper \<Rightarrow> Deduper" where
  "RemoveProducer producerID d = d\<lparr>dd_windows := AList.delete producerID (dd_windows d)\<rparr>"

definition EvictExpired_all :: "int \<Rightarrow> Deduper \<Rightarrow> Deduper" where
  "EvictExpired_all now d = d\<lparr>dd_windows := map (\<lambda>(i, w). (i, evictExpired (dd_windowSize d) now w))
     (filter (\<lambda>(i, w). \<not> now - dw_lastActivity w > ProducerTTL) (dd_windows d))\<rparr>"

section \<open>Publications with a deduper\<close>

text \<open>\<open>Publish\<close> asks the deduper after it has checked the size and the topic, and the deduper remembers the message there
  and then, whatever becomes of it afterwards.\<close>

definition reaches_dedup :: "publish_env \<Rightarrow> Envelope \<Rightarrow> TopicManager \<Rightarrow> bool" where
  "reaches_dedup pe env tm \<longleftrightarrow> \<not> (pe_maxMessageSize pe > 0 \<and> int (length (Payload env)) > pe_maxMessageSize pe) \<and> GetTopic tm (Topic env) \<noteq> None"

definition dedup_publish :: "visits_order \<Rightarrow> int \<Rightarrow> publish_env \<Rightarrow> Envelope \<Rightarrow> TopicManager \<Rightarrow> Deduper \<Rightarrow>
    ((publish_error + nat) \<times> Envelope \<times> TopicManager \<times> broker_event list) \<times> Deduper" where
  "dedup_publish vo now pe env tm d =
     (Publish (pe\<lparr>pe_deduper := Some (\<lambda>pid sq. fst (IsDuplicate vo now pid sq d))\<rparr>) env tm,
      if reaches_dedup pe env tm then (case extractProducerInfo env of None \<Rightarrow> d | Some (pid, sq) \<Rightarrow> snd (IsDuplicate vo now pid sq d)) else d)"

section \<open>Lemmas\<close>

lemma low_digits_show: "n \<noteq> 0 \<Longrightarrow> rev (low_digits n) = show_nat n"
proof (induction n rule: low_digits.induct)
  case (1 n)
  show ?case
  proof (cases "n < 10")
    case True
    then show ?thesis using 1(2) by (subst low_digits.simps, subst show_nat.simps) (simp add: low_digits.simps)
  next
    case False
    then have "n div 10 \<noteq> 0" by simp
    with 1 False show ?thesis by (subst low_digits.simps, subst show_nat.simps) (simp del: low_digits.simps)
  qed
qed

lemma seqToKey_show: "seqToKey seq = show_nat (unat seq)"
proof (cases "seq = 0")
  case True
  have "show_nat 0 = ''0''" by code_simp
  with True show ?thesis by (simp add: seqToKey_def)
next
  case False
  then have "unat seq \<noteq> 0" by (simp add: unat_eq_zero)
  with False low_digits_show show ?thesis by (simp add: seqToKey_def del: low_digits.simps)
qed

lemma seqToKey_inject: "seqToKey a = seqToKey b \<longleftrightarrow> a = b"
  using read_nat_show_nat by (metis seqToKey_show word_unat_eq_iff)

text \<open>The reference: a message is a duplicate when the last one accepted with its producer and number is younger than the
  window.\<close>

type_synonym accepted = "string \<times> 64 word \<Rightarrow> int option"

definition young :: "int \<Rightarrow> int \<Rightarrow> int option \<Rightarrow> bool" where
  "young wsize now t = (case t of None \<Rightarrow> False | Some t \<Rightarrow> now - t < wsize)"

fun dedup_spec :: "int \<Rightarrow> (int \<times> string \<times> 64 word) list \<Rightarrow> accepted \<Rightarrow> bool list" where
  "dedup_spec wsize [] h = []"
| "dedup_spec wsize ((now, p, sq) # calls) h =
     (let dup = young wsize now (h (p, sq)) in dup # dedup_spec wsize calls (if dup then h else h((p, sq) \<mapsto> now)))"

fun dedup_run :: "visits_order \<Rightarrow> (int \<times> string \<times> 64 word) list \<Rightarrow> Deduper \<Rightarrow> bool list" where
  "dedup_run vo [] d = []"
| "dedup_run vo ((now, p, sq) # calls) d = (let (dup, d) = IsDuplicate vo now p sq d in dup # dedup_run vo calls d)"

definition seen_at :: "Deduper \<Rightarrow> accepted" where
  "seen_at d = (\<lambda>(p, sq). case map_of (dd_windows d) p of None \<Rightarrow> None | Some w \<Rightarrow> map_of (dw_seen w) (seqToKey sq))"

text \<open>The capacity is never reached when the producers are among \<open>P\<close> and their numbers among \<open>S\<close>.\<close>

definition in_room :: "string set \<Rightarrow> (string \<Rightarrow> 64 word set) \<Rightarrow> Deduper \<Rightarrow> bool" where
  "in_room P S d \<longleftrightarrow> dd_enabled d \<and> distinct (map fst (dd_windows d)) \<and> fst ` set (dd_windows d) \<subseteq> P \<and>
     (\<forall>p w. map_of (dd_windows d) p = Some w \<longrightarrow> distinct (map fst (dw_seen w)) \<and> fst ` set (dw_seen w) \<subseteq> seqToKey ` S p)"

lemma keys_bound: "distinct (map fst xs) \<Longrightarrow> fst ` set xs \<subseteq> A \<Longrightarrow> finite A \<Longrightarrow> length xs \<le> card A"
  by (metis card_mono distinct_card length_map set_map)

lemma check_window_in_room:
  assumes "distinct (map fst (dw_seen w))" and "fst ` set (dw_seen w) \<subseteq> seqToKey ` S" and "sq \<in> S" and "int (card S) < maxEntries" and "finite S"
    and "check_window vo wsize maxEntries now sq (seqToKey sq) w = (dup, w')"
  shows "dup = young wsize now (map_of (dw_seen w) (seqToKey sq))"
    "map_of (dw_seen w') = (if dup then map_of (dw_seen w) else (map_of (dw_seen w))(seqToKey sq \<mapsto> now))"
    "distinct (map fst (dw_seen w'))" "fst ` set (dw_seen w') \<subseteq> seqToKey ` S"
proof -
  have "length (dw_seen w) \<le> card (seqToKey ` S)" using assms(1,2,5) by (intro keys_bound) simp_all
  also have "\<dots> \<le> card S" using assms(5) by (rule card_image_le)
  finally have "\<not> int (length (dw_seen w)) \<ge> maxEntries" using assms(4) by linarith
  then have "dup = young wsize now (map_of (dw_seen w) (seqToKey sq)) \<and>
      dw_seen w' = (if dup then dw_seen w else AList.update (seqToKey sq) now (dw_seen w))"
    using assms(6) by (auto simp: check_window_def young_def Let_def split: if_splits)
  then show "dup = young wsize now (map_of (dw_seen w) (seqToKey sq))"
    "map_of (dw_seen w') = (if dup then map_of (dw_seen w) else (map_of (dw_seen w))(seqToKey sq \<mapsto> now))"
    "distinct (map fst (dw_seen w'))" "fst ` set (dw_seen w') \<subseteq> seqToKey ` S"
    using assms(1-3) by (auto simp: update_conv' distinct_update dom_update)
qed

lemma IsDuplicate_in_room:
  assumes "in_room P S d" and "p \<in> P" and "sq \<in> S p" and "finite P" and "card P \<le> MaxProducers"
    and "finite (S p)" and "int (card (S p)) < dd_maxEntries d" and "IsDuplicate vo now p sq d = (dup, d')"
  shows "dup = young (dd_windowSize d) now (seen_at d (p, sq))" "seen_at d' = (if dup then seen_at d else (seen_at d)((p, sq) \<mapsto> now))"
    "in_room P S d'" "dd_windowSize d' = dd_windowSize d" "dd_maxEntries d' = dd_maxEntries d"
proof -
  define w where "w = (case map_of (dd_windows d) p of None \<Rightarrow> \<lparr>dw_seen = [], dw_lastSeq = 0, dw_lastActivity = now\<rparr> | Some w \<Rightarrow> w)"
  have D: "dd_enabled d" "distinct (map fst (dd_windows d))" "fst ` set (dd_windows d) \<subseteq> P"
    "\<And>p w. map_of (dd_windows d) p = Some w \<Longrightarrow> distinct (map fst (dw_seen w)) \<and> fst ` set (dw_seen w) \<subseteq> seqToKey ` S p"
    using assms(1) by (auto simp: in_room_def)
  have room: "\<not> length (dd_windows d) \<ge> MaxProducers" if "map_of (dd_windows d) p = None"
  proof -
    have "fst ` set (dd_windows d) \<subseteq> P - {p}" using D(3) that by (auto simp: map_of_eq_None_iff)
    then have "length (dd_windows d) \<le> card (P - {p})" using D(2) assms(4) by (intro keys_bound) simp_all
    also have "\<dots> < card P" using assms(2,4) by (intro card_Diff1_less)
    finally show ?thesis using assms(5) by simp
  qed
  have w: "distinct (map fst (dw_seen w))" "fst ` set (dw_seen w) \<subseteq> seqToKey ` S p"
    using D(4) [of p] by (auto simp: w_def split: option.split)
  obtain w' where c: "check_window vo (dd_windowSize d) (dd_maxEntries d) now sq (seqToKey sq) w = (dup, w')"
    and d': "d' = d\<lparr>dd_windows := AList.update p w' (dd_windows d)\<rparr>"
    using assms(8) D(1) room unfolding IsDuplicate_def Check_dup_def w_def by (auto simp: Let_def split: option.splits prod.splits)
  note cw = check_window_in_room [OF w assms(3,7,6) c]
  have s: "seen_at d (p, x) = map_of (dw_seen w) (seqToKey x)" for x
    by (simp add: seen_at_def w_def split: option.split)
  show "dup = young (dd_windowSize d) now (seen_at d (p, sq))" using cw(1) s by simp
  show "seen_at d' = (if dup then seen_at d else (seen_at d)((p, sq) \<mapsto> now))"
  proof
    fix x :: "string \<times> 64 word"
    show "seen_at d' x = (if dup then seen_at d else (seen_at d)((p, sq) \<mapsto> now)) x"
      using cw(2) s [of "snd x"]
      by (cases x) (auto simp: d' seen_at_def update_conv' seqToKey_inject split: option.splits)
  qed
  show "in_room P S d'" using D cw(3,4) assms(2)
    by (auto simp: in_room_def d' update_conv' distinct_update dom_update split: if_splits)
qed (use assms(8) in \<open>auto simp: IsDuplicate_def Check_dup_def evictOldestProducer_def Let_def split: option.splits prod.splits if_splits\<close>)

text \<open>C25: As long as neither the number of producers nor the numbers of a producer reach their limits, a message is a
  duplicate exactly when the last one accepted from its producer with its number is younger than the window, whatever
  else is published in between and in whatever order maps are visited.\<close>

theorem dedup_exact:
  assumes "dd_enabled d" and "dd_windows d = []" and "card (fst ` snd ` set calls) \<le> MaxProducers"
    and "\<forall>p. int (card {sq. \<exists>t. (t, p, sq) \<in> set calls}) < dd_maxEntries d"
  shows "dedup_run vo calls d = dedup_spec (dd_windowSize d) calls (\<lambda>_. None)"
proof -
  let ?P = "fst ` snd ` set calls" and ?S = "\<lambda>p. {sq. \<exists>t. (t, p, sq) \<in> set calls}"
  have f: "finite (?S p)" for p
    by (rule finite_subset [of _ "(snd \<circ> snd) ` set calls"]) (auto simp: image_iff, force)
  have "in_room ?P ?S d' \<Longrightarrow> dd_maxEntries d' = dd_maxEntries d \<Longrightarrow> set cs \<subseteq> set calls \<Longrightarrow>
    dedup_run vo cs d' = dedup_spec (dd_windowSize d') cs (seen_at d')" for cs d'
  proof (induction cs arbitrary: d')
    case (Cons c cs)
    obtain now p sq where c: "c = (now, p, sq)" by (metis prod_cases3)
    obtain dup d2 where i: "IsDuplicate vo now p sq d' = (dup, d2)" by fastforce
    have "p \<in> ?P" "sq \<in> ?S p" using Cons.prems(3) c by force+
    note step = IsDuplicate_in_room [OF Cons.prems(1) this _ assms(3) f _ i]
    from step Cons.IH [of d2] Cons.prems assms(4) c i show ?case by (simp add: Let_def)
  qed simp
  moreover have "seen_at d = (\<lambda>_. None)" using assms(2) by (simp add: seen_at_def fun_eq_iff)
  ultimately show ?thesis using assms(1,2) by (simp add: in_room_def)
qed

lemma IsDuplicate_twice:
  assumes "IsDuplicate vo t pid sq d = (dup, d')" and "dd_enabled d"
    and "map_of (dd_windows d) pid \<noteq> None \<or> length (dd_windows d) < MaxProducers" and "t2 - t < dd_windowSize d" and "\<not> dup"
  shows "fst (IsDuplicate vo2 t2 pid sq d')"
proof -
  define w where "w = (case map_of (dd_windows d) pid of None \<Rightarrow> \<lparr>dw_seen = [], dw_lastSeq = 0, dw_lastActivity = t\<rparr> | Some w \<Rightarrow> w)"
  obtain w' where c: "check_window vo (dd_windowSize d) (dd_maxEntries d) t sq (seqToKey sq) w = (dup, w')"
    and d': "d' = d\<lparr>dd_windows := AList.update pid w' (dd_windows d)\<rparr>"
    using assms(1-3) unfolding IsDuplicate_def Check_dup_def w_def by (auto simp: Let_def split: option.splits prod.splits)
  have "map_of (dw_seen w') (seqToKey sq) = Some t"
    using c assms(5) by (auto simp: check_window_def Let_def update_conv' split: if_splits)
  then show ?thesis using assms(2,4)
    by (simp add: IsDuplicate_def Check_dup_def d' update_conv' check_window_def Let_def)
qed

text \<open>Making room takes entries that are not the oldest: of three entries visited in this order the first goes, and the last,
  which is older, stays.\<close>

lemma evict_oldest_misses: "pick_oldest 2 10 [] [(''a'', 5), (''b'', 1), (''c'', 3)] = [''a'', ''b'']"
  by simp

text \<open>C26: A publication that has reached the deduplication uses up its number whatever becomes of it: if it then fails,
  because of a rate limit, a quota, the schema, the encoding or the disk, its retry within the window is acknowledged with offset 0
  and stored nowhere, and so is a message of the same producer with the same number for any other topic.\<close>

theorem dedup_swallows_retry:
  assumes "dedup_publish vo t pe env tm d = ((res, env', tm', evs), d')" and "reaches_dedup pe env tm"
    and "extractProducerInfo env = Some (pid, sq)" and "extractProducerInfo env2 = Some (pid, sq)" and "dd_enabled d"
    and "map_of (dd_windows d) pid \<noteq> None \<or> length (dd_windows d) < MaxProducers"
    and "t2 - t < dd_windowSize d" and "reaches_dedup pe2 env2 tm2" and "\<not> fst (IsDuplicate vo t pid sq d)"
  shows "fst (dedup_publish vo2 t2 pe2 env2 tm2 d') = (Inr 0, env2, tm2, [])"
proof -
  have "d' = snd (IsDuplicate vo t pid sq d)" using assms(1-3) by (simp add: dedup_publish_def)
  then have "IsDuplicate vo t pid sq d = (False, d')" using assms(9) by (metis eq_fst_iff snd_conv)
  then have "fst (IsDuplicate vo2 t2 pid sq d')" using assms(5-7) by (rule IsDuplicate_twice) simp
  moreover obtain cfg where "GetTopic tm2 (Topic env2) = Some cfg" using assms(8) by (auto simp: reaches_dedup_def)
  ultimately show ?thesis
    using assms(4,8) unfolding dedup_publish_def reaches_dedup_def by (auto simp: Publish_def is_duplicate_def)
qed

section \<open>Witnesses\<close>

definition vo_ex :: visits_order where "vo_ex = \<lparr>vo_seen = (\<lambda>xs. xs), vo_windows = (\<lambda>xs. xs)\<rparr>"

theorem dedup_exact_witness:
  "dedup_run vo_ex [(0, ''p'', 1), (1, ''p'', 1), (2, ''p'', 2), (20, ''p'', 1)] (NewDeduper True 10 4) = [False, True, False, False]"
proof -
  let ?calls = "[(0, ''p'', 1), (1, ''p'', 1), (2, ''p'', 2), (20, ''p'', 1)] :: (int \<times> string \<times> 64 word) list"
  have c: "card {sq. \<exists>t. (t, p, sq) \<in> set ?calls} < 4" for p
  proof -
    have "card {sq. \<exists>t. (t, p, sq) \<in> set ?calls} \<le> card {1, 2 :: 64 word}" by (rule card_mono) auto
    also have "card {1, 2 :: 64 word} \<le> 2" by (rule card_insert_le_m1) simp_all
    finally show ?thesis by linarith
  qed
  have "int (card {sq. \<exists>t. (t, p, sq) \<in> set ?calls}) < 4" for p using c [of p] by linarith
  then have "dedup_run vo_ex ?calls (NewDeduper True 10 4) = dedup_spec 10 ?calls (\<lambda>_. None)"
    using dedup_exact [of "NewDeduper True 10 4" ?calls vo_ex] by (simp add: NewDeduper_def MaxProducers_def)
  then show ?thesis by (simp add: young_def)
qed

definition numbered_env :: Envelope where
  "numbered_env = env_ex\<lparr>Headers := Some [''x-chimera-producer-id'' \<mapsto> [112], ''x-chimera-producer-seq'' \<mapsto> [49]]\<rparr>"

theorem dedup_swallows_retry_witness:
  "\<exists>env' tm' evs d'. dedup_publish vo_ex 0 (publish_env_ex\<lparr>pe_flow := (\<lambda>_. False)\<rparr>) numbered_env tm_orders (NewDeduper True 10 4) =
      ((Inl RateLimited, env', tm', evs), d') \<and>
     fst (dedup_publish vo_ex 1 publish_env_ex numbered_env tm_orders d') = (Inr 0, numbered_env, tm_orders, [])"
proof -
  let ?pe = "publish_env_ex\<lparr>pe_flow := (\<lambda>_. False)\<rparr>" and ?d = "NewDeduper True 10 4"
  have "bytes_str [49] = ''1''" "list_all is_digit ''1''" "read_nat ''1'' = 1" by code_simp+
  then have "parse_uint 64 [49] = Some 1" by (simp add: parse_uint_def)
  then have x: "extractProducerInfo numbered_env = Some (bytes_str [112], 1)"
    by (simp add: extractProducerInfo_def numbered_env_def hdr_map_def)
  have g: "GetTopic tm_orders (Topic numbered_env) \<noteq> None" by (simp add: tm_orders_def GetTopic_def numbered_env_def env_ex_def)
  then have r: "reaches_dedup ?pe numbered_env tm_orders" "reaches_dedup publish_env_ex numbered_env tm_orders"
    by (simp_all add: reaches_dedup_def publish_env_ex_def)
  have n: "\<not> fst (IsDuplicate vo_ex 0 (bytes_str [112]) 1 ?d)"
    by (simp add: IsDuplicate_def Check_dup_def NewDeduper_def MaxProducers_def check_window_def Let_def)
  obtain cfg where "GetTopic tm_orders (Topic numbered_env) = Some cfg" using g by blast
  then have "fst (dedup_publish vo_ex 0 ?pe numbered_env tm_orders ?d) = (Inl RateLimited, numbered_env, tm_orders, [])"
    using n x by (simp add: dedup_publish_def Publish_def is_duplicate_def publish_env_ex_def)
  then obtain d' where p: "dedup_publish vo_ex 0 ?pe numbered_env tm_orders ?d = ((Inl RateLimited, numbered_env, tm_orders, []), d')"
    by (metis prod.collapse)
  have "fst (dedup_publish vo_ex 1 publish_env_ex numbered_env tm_orders d') = (Inr 0, numbered_env, tm_orders, [])"
    by (rule dedup_swallows_retry [OF p r(1) x x _ _ _ r(2) n]) (simp_all add: NewDeduper_def MaxProducers_def)
  with p show ?thesis by blast
qed

end
