(* ===== verification/Queue_Engine.thy ===== *)
theory Queue_Engine
  imports Broker_Publish "HOL-Library.AList"
begin

text \<open>
  \<^verbatim>\<open>internal/engine/queue\<close>: the assignment of messages to the consumers of a queue, and their acknowledgement.  A consumer
  belongs to one queue, as the one handler that makes consumers has it, so that it can be kept in the dispatcher by value.  Maps are
  association lists, times are in nanoseconds; the channel of offsets to redeliver is the list of what it holds.
\<close>

section \<open>Dispatching\<close>

record QueueConsumer =
  qc_ID :: string
  qc_Prefetch :: int
  qc_InFlight :: "(nat \<times> int) list"

datatype dispatch_result = NoConsumers | AllConsumersBusy | Dispatched string | IndexPanic

record Dispatcher =
  dp_consumers :: "QueueConsumer list"
  dp_nextIdx :: nat

definition has_room :: "QueueConsumer \<Rightarrow> bool" where
  "has_room c \<longleftrightarrow> int (length (qc_InFlight c)) < qc_Prefetch c"

text \<open>\<open>n\<close> consumers are left to check.\<close>

fun dispatch_loop :: "nat \<Rightarrow> nat \<Rightarrow> int \<Rightarrow> Dispatcher \<Rightarrow> dispatch_result \<times> Dispatcher" where
  "dispatch_loop 0 offset now d = (AllConsumersBusy, d)"
| "dispatch_loop (Suc n) offset now d =
     (if dp_nextIdx d \<ge> length (dp_consumers d) then (IndexPanic, d)
      else let i = dp_nextIdx d; consumer = dp_consumers d ! i;
               d = d\<lparr>dp_nextIdx := (i + 1) mod length (dp_consumers d)\<rparr>
        in if has_room consumer
           then (Dispatched (qc_ID consumer),
                 d\<lparr>dp_consumers := (dp_consumers d)[i := consumer\<lparr>qc_InFlight := AList.update offset now (qc_InFlight consumer)\<rparr>]\<rparr>)
           else dispatch_loop n offset now d)"

definition Dispatch :: "nat \<Rightarrow> int \<Rightarrow> Dispatcher \<Rightarrow> dispatch_result \<times> Dispatcher" where
  "Dispatch offset now d = (if dp_consumers d = [] then (NoConsumers, d) else dispatch_loop (length (dp_consumers d)) offset now d)"

definition dp_AddConsumer :: "QueueConsumer \<Rightarrow> Dispatcher \<Rightarrow> Dispatcher" where
  "dp_AddConsumer c d = d\<lparr>dp_consumers := dp_consumers d @ [c]\<rparr>"

fun remove_id :: "string \<Rightarrow> QueueConsumer list \<Rightarrow> QueueConsumer list" where
  "remove_id i [] = []"
| "remove_id i (c # cs) = (if qc_ID c = i then cs else c # remove_id i cs)"

definition dp_RemoveConsumer :: "string \<Rightarrow> Dispatcher \<Rightarrow> Dispatcher" where
  "dp_RemoveConsumer i d =
     (if list_ex (\<lambda>c. qc_ID c = i) (dp_consumers d)
      then let d = d\<lparr>dp_consumers := remove_id i (dp_consumers d)\<rparr>
        in if dp_nextIdx d \<ge> length (dp_consumers d) \<and> length (dp_consumers d) > 0 then d\<lparr>dp_nextIdx := 0\<rparr> else d
      else d)"

section \<open>Acknowledgements\<close>

record PendingMsg =
  pm_ConsumerID :: string
  pm_DeliveredAt :: int
  pm_DeliverCount :: "32 word"
  pm_MaxRetries :: "32 word"

record AckTracker =
  at_pending :: "(nat \<times> PendingMsg) list"
  at_visTimeout :: int
  at_redeliver :: "nat list"

definition NewAckTracker :: "int \<Rightarrow> AckTracker" where
  "NewAckTracker visTimeout = \<lparr>at_pending = [], at_visTimeout = visTimeout, at_redeliver = []\<rparr>"

definition Track :: "nat \<Rightarrow> string \<Rightarrow> int \<Rightarrow> 32 word \<Rightarrow> 32 word \<Rightarrow> AckTracker \<Rightarrow> AckTracker" where
  "Track offset consumerID now deliverCount maxRetries a = a\<lparr>at_pending := AList.update offset
     \<lparr>pm_ConsumerID = consumerID, pm_DeliveredAt = now, pm_DeliverCount = deliverCount, pm_MaxRetries = maxRetries\<rparr> (at_pending a)\<rparr>"

definition Ack :: "nat \<Rightarrow> AckTracker \<Rightarrow> bool \<times> AckTracker" where
  "Ack offset a = (case map_of (at_pending a) offset of None \<Rightarrow> (False, a)
     | Some _ \<Rightarrow> (True, a\<lparr>at_pending := AList.delete offset (at_pending a)\<rparr>))"

text \<open>Sending to the channel, which drops the offset when the channel is full.\<close>

definition redeliver :: "nat \<Rightarrow> AckTracker \<Rightarrow> AckTracker" where
  "redeliver offset a = (if length (at_redeliver a) < 10000 then a\<lparr>at_redeliver := at_redeliver a @ [offset]\<rparr> else a)"

definition Nack :: "nat \<Rightarrow> AckTracker \<Rightarrow> (bool \<times> 32 word) \<times> AckTracker" where
  "Nack offset a = (case map_of (at_pending a) offset of None \<Rightarrow> ((False, 0), a)
     | Some p \<Rightarrow> let n = pm_DeliverCount p + 1; a = a\<lparr>at_pending := AList.delete offset (at_pending a)\<rparr>
         in if pm_MaxRetries p > 0 \<and> n \<ge> pm_MaxRetries p then ((True, n), a) else ((False, n), redeliver offset a))"

definition PendingCount :: "AckTracker \<Rightarrow> nat" where
  "PendingCount a = length (at_pending a)"

text \<open>A tick of the loop that looks for expired deliveries; \<open>vis\<close> are the entries in the order they are visited.\<close>

definition visibilityTick :: "int \<Rightarrow> (nat \<times> PendingMsg) list \<Rightarrow> AckTracker \<Rightarrow> AckTracker" where
  "visibilityTick now vis a = fold (\<lambda>(offset, p) a. if now - pm_DeliveredAt p > at_visTimeout a
     then redeliver offset (a\<lparr>at_pending := AList.delete offset (at_pending a)\<rparr>) else a) vis a"

section \<open>The engine\<close>

record QueueState =
  qs_consumers :: "string list" \<comment> \<open>the keys of the map\<close>
  qs_dispatcher :: Dispatcher
  qs_ackTracker :: AckTracker

type_synonym queue_engine = "string \<Rightarrow> QueueState option"

definition new_queue :: QueueState where
  "new_queue = \<lparr>qs_consumers = [], qs_dispatcher = \<lparr>dp_consumers = [], dp_nextIdx = 0\<rparr>, qs_ackTracker = NewAckTracker (30 * 10 ^ 9)\<rparr>"

definition AddConsumer :: "string \<Rightarrow> QueueConsumer \<Rightarrow> queue_engine \<Rightarrow> queue_engine" where
  "AddConsumer topic consumer e = (let qs = (case e topic of None \<Rightarrow> new_queue | Some qs \<Rightarrow> qs)
     in e(topic \<mapsto> qs\<lparr>qs_consumers := List.insert (qc_ID consumer) (qs_consumers qs), qs_dispatcher := dp_AddConsumer consumer (qs_dispatcher qs)\<rparr>))"

definition RemoveConsumer :: "string \<Rightarrow> string \<Rightarrow> queue_engine \<Rightarrow> queue_engine" where
  "RemoveConsumer topic consumerID e = (case e topic of None \<Rightarrow> e
     | Some qs \<Rightarrow> e(topic \<mapsto> qs\<lparr>qs_consumers := removeAll consumerID (qs_consumers qs),
         qs_dispatcher := dp_RemoveConsumer consumerID (qs_dispatcher qs)\<rparr>))"

text \<open>The partition is an argument of the source that it does not use.\<close>

definition TryDispatch_at :: "string \<Rightarrow> nat \<Rightarrow> nat \<Rightarrow> Envelope \<Rightarrow> int \<Rightarrow> queue_engine \<Rightarrow> dispatch_result \<times> queue_engine" where
  "TryDispatch_at topic partID offset env now e = (case e topic of None \<Rightarrow> (NoConsumers, e)
     | Some qs \<Rightarrow> (case Dispatch offset now (qs_dispatcher qs) of
         (Dispatched consumerID, dp) \<Rightarrow> (Dispatched consumerID, e(topic \<mapsto> qs\<lparr>qs_dispatcher := dp,
            qs_ackTracker := Track offset consumerID now (DeliverCount env) (MaxRetries env) (qs_ackTracker qs)\<rparr>))
       | (err, dp) \<Rightarrow> (err, e(topic \<mapsto> qs\<lparr>qs_dispatcher := dp\<rparr>))))"

definition HandleAck :: "string \<Rightarrow> nat \<Rightarrow> queue_engine \<Rightarrow> bool \<times> queue_engine" where
  "HandleAck topic offset e = (case e topic of None \<Rightarrow> (False, e)
     | Some qs \<Rightarrow> let (result, a) = Ack offset (qs_ackTracker qs) in (result, e(topic \<mapsto> qs\<lparr>qs_ackTracker := a\<rparr>)))"

definition HandleNack :: "string \<Rightarrow> nat \<Rightarrow> queue_engine \<Rightarrow> (bool \<times> 32 word) \<times> queue_engine" where
  "HandleNack topic offset e = (case e topic of None \<Rightarrow> ((False, 0), e)
     | Some qs \<Rightarrow> let (result, a) = Nack offset (qs_ackTracker qs) in (result, e(topic \<mapsto> qs\<lparr>qs_ackTracker := a\<rparr>)))"

text \<open>A tick of the loop of the tracker of a topic.\<close>

definition tick :: "string \<Rightarrow> int \<Rightarrow> (nat \<times> PendingMsg) list \<Rightarrow> queue_engine \<Rightarrow> queue_engine" where
  "tick topic now vis e = (case e topic of None \<Rightarrow> e
     | Some qs \<Rightarrow> e(topic \<mapsto> qs\<lparr>qs_ackTracker := visibilityTick now vis (qs_ackTracker qs)\<rparr>))"

section \<open>Lemmas\<close>

text \<open>The index of the dispatcher is in range whenever there is a consumer.\<close>

definition idx_ok :: "Dispatcher \<Rightarrow> bool" where
  "idx_ok d \<longleftrightarrow> (if dp_consumers d = [] then dp_nextIdx d = 0 else dp_nextIdx d < length (dp_consumers d))"

lemma length_remove_id: "list_ex (\<lambda>c. qc_ID c = i) cs \<Longrightarrow> Suc (length (remove_id i cs)) = length cs"
  by (induction cs) auto

lemma idx_ok_new: "idx_ok (qs_dispatcher new_queue)"
  by (simp add: idx_ok_def new_queue_def)

lemma idx_ok_add: "idx_ok d \<Longrightarrow> idx_ok (dp_AddConsumer c d)"
  by (auto simp: idx_ok_def dp_AddConsumer_def split: if_splits)

lemma idx_ok_remove: "idx_ok d \<Longrightarrow> idx_ok (dp_RemoveConsumer i d)"
  using length_remove_id [of i "dp_consumers d"]
  by (auto simp: idx_ok_def dp_RemoveConsumer_def Let_def split: if_splits)

text \<open>The loop looks at the consumers in cyclic order, beginning with the index.\<close>

definition cyclic :: "Dispatcher \<Rightarrow> nat \<Rightarrow> nat" where
  "cyclic d j = (dp_nextIdx d + j) mod length (dp_consumers d)"

lemma cyclic_less: "k < length (dp_consumers d) \<Longrightarrow> cyclic d k < length (dp_consumers d)"
  unfolding cyclic_def by (rule mod_less_divisor) linarith

definition assign :: "nat \<Rightarrow> nat \<Rightarrow> int \<Rightarrow> Dispatcher \<Rightarrow> Dispatcher" where
  "assign i offset now d = d\<lparr>dp_nextIdx := (i + 1) mod length (dp_consumers d),
     dp_consumers := (dp_consumers d)[i := (dp_consumers d ! i)\<lparr>qc_InFlight := AList.update offset now (qc_InFlight (dp_consumers d ! i))\<rparr>]\<rparr>"

lemma dispatch_loop_first:
  assumes "dp_nextIdx d < length (dp_consumers d)" and "\<forall>j<k. \<not> has_room (dp_consumers d ! cyclic d j)"
    and "has_room (dp_consumers d ! cyclic d k)" and "k < n"
  shows "dispatch_loop n offset now d = (Dispatched (qc_ID (dp_consumers d ! cyclic d k)), assign (cyclic d k) offset now d)"
  using assms
proof (induction k arbitrary: n d)
  case 0
  then obtain m where "n = Suc m" by (cases n) auto
  with 0 show ?case by (simp add: cyclic_def assign_def Let_def)
next
  case (Suc k)
  obtain m where n: "n = Suc m" using Suc.prems(4) by (cases n) auto
  let ?d = "d\<lparr>dp_nextIdx := (dp_nextIdx d + 1) mod length (dp_consumers d)\<rparr>"
  have c: "cyclic ?d j = cyclic d (Suc j)" for j by (simp add: cyclic_def mod_simps)
  have "cyclic d 0 = dp_nextIdx d" using Suc.prems(1) by (simp add: cyclic_def)
  then have "\<not> has_room (dp_consumers d ! dp_nextIdx d)" using Suc.prems(2) by (metis zero_less_Suc)
  moreover have "dispatch_loop m offset now ?d = (Dispatched (qc_ID (dp_consumers ?d ! cyclic ?d k)), assign (cyclic ?d k) offset now ?d)"
    by (rule Suc.IH) (use Suc.prems n c in \<open>auto intro!: mod_less_divisor\<close>)
  ultimately show ?case using Suc.prems(1) n c by (simp add: assign_def Let_def)
qed

lemma dispatch_loop_busy:
  "dp_nextIdx d < length (dp_consumers d) \<Longrightarrow> \<forall>c\<in>set (dp_consumers d). \<not> has_room c \<Longrightarrow>
   \<exists>i < length (dp_consumers d). dispatch_loop n offset now d = (AllConsumersBusy, d\<lparr>dp_nextIdx := i\<rparr>)"
proof (induction n arbitrary: d)
  case 0
  then show ?case by (intro exI [of _ "dp_nextIdx d"]) simp
next
  case (Suc n)
  let ?i = "(dp_nextIdx d + 1) mod length (dp_consumers d)"
  have "?i < length (dp_consumers d)" using Suc.prems(1) by (intro mod_less_divisor) linarith
  moreover have "\<not> has_room (dp_consumers d ! dp_nextIdx d)" using Suc.prems by simp
  ultimately show ?case using Suc.IH [of "d\<lparr>dp_nextIdx := ?i\<rparr>"] Suc.prems by (auto simp: Let_def)
qed

lemma cyclic_onto:
  assumes "dp_nextIdx d < length (dp_consumers d)" and "i < length (dp_consumers d)"
  shows "\<exists>j < length (dp_consumers d). cyclic d j = i"
proof (cases "dp_nextIdx d \<le> i")
  case True
  then show ?thesis using assms by (intro exI [of _ "i - dp_nextIdx d"]) (simp add: cyclic_def)
next
  case False
  then have "dp_nextIdx d + (length (dp_consumers d) - dp_nextIdx d + i) = length (dp_consumers d) + i" using assms(1) by simp
  with False assms show ?thesis
    by (intro exI [of _ "length (dp_consumers d) - dp_nextIdx d + i"]) (simp add: cyclic_def)
qed

text \<open>What a dispatch does, for a dispatcher with its index in range.\<close>

definition dispatch_spec :: "nat \<Rightarrow> int \<Rightarrow> Dispatcher \<Rightarrow> dispatch_result \<Rightarrow> Dispatcher \<Rightarrow> bool" where
  "dispatch_spec offset now d res d' \<longleftrightarrow> (case res of
      NoConsumers \<Rightarrow> dp_consumers d = [] \<and> d' = d
    | AllConsumersBusy \<Rightarrow> dp_consumers d \<noteq> [] \<and> (\<forall>c\<in>set (dp_consumers d). \<not> has_room c) \<and> dp_consumers d' = dp_consumers d
    | Dispatched i \<Rightarrow> \<exists>k < length (dp_consumers d). (\<forall>j<k. \<not> has_room (dp_consumers d ! cyclic d j)) \<and>
        has_room (dp_consumers d ! cyclic d k) \<and> i = qc_ID (dp_consumers d ! cyclic d k) \<and> d' = assign (cyclic d k) offset now d
    | IndexPanic \<Rightarrow> False)"

lemma Dispatch_ok:
  assumes "idx_ok d" and "Dispatch offset now d = (res, d')"
  shows "dispatch_spec offset now d res d'" "idx_ok d'"
proof -
  have "dispatch_spec offset now d res d' \<and> idx_ok d'"
  proof (cases "dp_consumers d = []")
    case True
    then show ?thesis using assms by (auto simp: Dispatch_def dispatch_spec_def)
  next
    case ne: False
    then have i: "dp_nextIdx d < length (dp_consumers d)" using assms(1) by (simp add: idx_ok_def)
    show ?thesis
    proof (cases "\<exists>c\<in>set (dp_consumers d). has_room c")
      case False
      then obtain k where "k < length (dp_consumers d)" "res = AllConsumersBusy" "d' = d\<lparr>dp_nextIdx := k\<rparr>"
        using dispatch_loop_busy [OF i, of "length (dp_consumers d)" offset now] assms(2) ne by (auto simp: Dispatch_def)
      with False ne show ?thesis by (auto simp: dispatch_spec_def idx_ok_def)
    next
      case True
      then obtain j where j: "j < length (dp_consumers d)" "has_room (dp_consumers d ! cyclic d j)"
        using cyclic_onto [OF i] by (metis in_set_conv_nth)
      define k where "k = (LEAST k. has_room (dp_consumers d ! cyclic d k))"
      have k: "has_room (dp_consumers d ! cyclic d k)" unfolding k_def using j(2) by (rule LeastI)
      have "k \<le> j" unfolding k_def using j(2) by (rule Least_le)
      then have len: "k < length (dp_consumers d)" using j(1) by simp
      have less: "\<forall>j<k. \<not> has_room (dp_consumers d ! cyclic d j)" unfolding k_def using not_less_Least by blast
      note f = dispatch_loop_first [OF i less k len, of offset now]
      have "dp_consumers (assign (cyclic d k) offset now d) \<noteq> []" "dp_nextIdx (assign (cyclic d k) offset now d) < length (dp_consumers d)"
        using ne by (simp_all add: assign_def)
      then have "idx_ok (assign (cyclic d k) offset now d)" by (simp add: idx_ok_def assign_def)
      moreover have "dispatch_spec offset now d (Dispatched (qc_ID (dp_consumers d ! cyclic d k))) (assign (cyclic d k) offset now d)"
        using len less k by (auto simp: dispatch_spec_def)
      ultimately show ?thesis using assms(2) ne f by (simp add: Dispatch_def)
    qed
  qed
  then show "dispatch_spec offset now d res d'" "idx_ok d'" by simp_all
qed

section \<open>Runs\<close>

datatype queue_op =
    OAdd string QueueConsumer
  | ORemove string string
  | ODispatch string nat nat Envelope int
  | OAck string nat
  | ONack string nat
  | OTick string int "(nat \<times> PendingMsg) list"

fun queue_do :: "queue_op \<Rightarrow> queue_engine \<Rightarrow> queue_engine" where
  "queue_do (OAdd topic c) e = AddConsumer topic c e"
| "queue_do (ORemove topic i) e = RemoveConsumer topic i e"
| "queue_do (ODispatch topic p offset env now) e = snd (TryDispatch_at topic p offset env now e)"
| "queue_do (OAck topic offset) e = snd (HandleAck topic offset e)"
| "queue_do (ONack topic offset) e = snd (HandleNack topic offset e)"
| "queue_do (OTick topic now vis) e = tick topic now vis e"

definition engine_ok :: "queue_engine \<Rightarrow> bool" where
  "engine_ok e \<longleftrightarrow> (\<forall>t qs. e t = Some qs \<longrightarrow> idx_ok (qs_dispatcher qs))"

lemma engine_ok_update: "engine_ok e \<Longrightarrow> idx_ok (qs_dispatcher qs) \<Longrightarrow> engine_ok (e(t \<mapsto> qs))"
  by (simp add: engine_ok_def)

lemma engine_okD: "engine_ok e \<Longrightarrow> e t = Some qs \<Longrightarrow> idx_ok (qs_dispatcher qs)"
  by (simp add: engine_ok_def)

lemma TryDispatch_engine_ok:
  assumes "engine_ok e"
  shows "engine_ok (snd (TryDispatch_at topic p offset env now e))"
proof (cases "e topic")
  case (Some qs)
  obtain res d' where r: "Dispatch offset now (qs_dispatcher qs) = (res, d')" by fastforce
  with Some Dispatch_ok(2) [OF engine_okD [OF assms Some] r] assms show ?thesis
    by (cases res) (auto simp: TryDispatch_at_def intro!: engine_ok_update)
qed (use assms in \<open>simp add: TryDispatch_at_def\<close>)

lemma queue_do_ok: "engine_ok e \<Longrightarrow> engine_ok (queue_do op e)"
proof (cases op)
  case (ODispatch topic p offset env now)
  then show "engine_ok e \<Longrightarrow> ?thesis" by (simp add: TryDispatch_engine_ok)
qed (auto simp: AddConsumer_def RemoveConsumer_def HandleAck_def HandleNack_def tick_def Let_def case_prod_beta
    intro!: engine_ok_update idx_ok_add idx_ok_remove idx_ok_new split: option.split dest: engine_okD)

lemma queue_run_ok: "engine_ok e \<Longrightarrow> engine_ok (fold queue_do ops e)"
  by (induction ops arbitrary: e) (simp_all add: queue_do_ok)

lemma engine_ok_empty: "engine_ok Map.empty"
  by (simp add: engine_ok_def)

text \<open>C29: In every state that adding and removing consumers, dispatching, acknowledging and timeouts lead to, a dispatch does not
  run out of the list of consumers: it gives the message to the first consumer with room in cyclic order from the index,
  the next dispatch begins behind that one, and it refuses exactly when there is no consumer or none has room.\<close>

theorem dispatch_round_robin:
  assumes "fold queue_do ops Map.empty topic = Some qs" and "Dispatch offset now (qs_dispatcher qs) = (res, d')"
  shows "dispatch_spec offset now (qs_dispatcher qs) res d' \<and> res \<noteq> IndexPanic"
  using Dispatch_ok(1) [OF engine_okD [OF queue_run_ok [OF engine_ok_empty] assms(1)] assms(2)]
  by (auto simp: dispatch_spec_def)













text \<open>A queue knows its messages by their offset alone: when messages with the same offset in two partitions are
  assigned, only one is pending, the first acknowledgement ends both, and the second is refused.\<close>

theorem partition_offsets_collide:
  assumes "TryDispatch_at topic p1 offset env1 t1 e = (Dispatched c1, e1)" and "TryDispatch_at topic p2 offset env2 t2 e1 = (Dispatched c2, e2)"
  shows "\<exists>q1 q2 q3. e1 topic = Some q1 \<and> e2 topic = Some q2 \<and> PendingCount (qs_ackTracker q2) = PendingCount (qs_ackTracker q1) \<and>
    fst (HandleAck topic offset e2) \<and> snd (HandleAck topic offset e2) topic = Some q3 \<and> map_of (at_pending (qs_ackTracker q3)) offset = None \<and>
    \<not> fst (HandleAck topic offset (snd (HandleAck topic offset e2)))"
proof -
  obtain q1 where q1: "e1 topic = Some q1" "map_of (at_pending (qs_ackTracker q1)) offset \<noteq> None"
    using assms(1) by (auto simp: TryDispatch_at_def Track_def update_conv' split: option.splits prod.splits dispatch_result.splits)
  then obtain d where e2: "e2 = e1(topic \<mapsto> q1\<lparr>qs_dispatcher := d, qs_ackTracker := Track offset c2 t2 (DeliverCount env2) (MaxRetries env2) (qs_ackTracker q1)\<rparr>)"
    using assms(2) by (auto simp: TryDispatch_at_def split: prod.splits dispatch_result.splits)
  have len: "k \<in> fst ` set xs \<Longrightarrow> length (AList.update k v xs) = length xs" for k v and xs :: "(nat \<times> PendingMsg) list"
    by (induction xs) auto
  have "offset \<in> fst ` set (at_pending (qs_ackTracker q1))" using q1(2) by (auto simp: map_of_eq_None_iff)
  then show ?thesis using q1(1) len
    by (auto simp: e2 HandleAck_def Ack_def Track_def PendingCount_def update_conv' delete_conv' split: option.split)
qed


text \<open>One consumer that takes one message.\<close>

definition one_consumer :: queue_op where
  "one_consumer = OAdd ''orders'' \<lparr>qc_ID = ''c1'', qc_Prefetch = 1, qc_InFlight = []\<rparr>"

definition two_places :: queue_engine where
  "two_places = AddConsumer ''orders'' \<lparr>qc_ID = ''c1'', qc_Prefetch = 2, qc_InFlight = []\<rparr> Map.empty"

theorem dispatch_round_robin_witness:
  "fold queue_do [one_consumer] Map.empty ''orders'' = Some (new_queue\<lparr>qs_consumers := [''c1''],
     qs_dispatcher := \<lparr>dp_consumers = [\<lparr>qc_ID = ''c1'', qc_Prefetch = 1, qc_InFlight = []\<rparr>], dp_nextIdx = 0\<rparr>\<rparr>) \<and>
   dispatch_spec 7 0 \<lparr>dp_consumers = [\<lparr>qc_ID = ''c1'', qc_Prefetch = 1, qc_InFlight = []\<rparr>], dp_nextIdx = 0\<rparr> (Dispatched ''c1'')
     \<lparr>dp_consumers = [\<lparr>qc_ID = ''c1'', qc_Prefetch = 1, qc_InFlight = [(7, 0)]\<rparr>], dp_nextIdx = 0\<rparr>"
proof -
  have 1: "fold queue_do [one_consumer] Map.empty ''orders'' = Some (new_queue\<lparr>qs_consumers := [''c1''],
     qs_dispatcher := \<lparr>dp_consumers = [\<lparr>qc_ID = ''c1'', qc_Prefetch = 1, qc_InFlight = []\<rparr>], dp_nextIdx = 0\<rparr>\<rparr>)"
    by (simp add: one_consumer_def AddConsumer_def new_queue_def dp_AddConsumer_def Let_def)
  have "Dispatch 7 0 \<lparr>dp_consumers = [\<lparr>qc_ID = ''c1'', qc_Prefetch = 1, qc_InFlight = []\<rparr>], dp_nextIdx = 0\<rparr> =
    (Dispatched ''c1'', \<lparr>dp_consumers = [\<lparr>qc_ID = ''c1'', qc_Prefetch = 1, qc_InFlight = [(7, 0)]\<rparr>], dp_nextIdx = 0\<rparr>)"
    by (simp add: Dispatch_def has_room_def Let_def)
  with dispatch_round_robin [OF 1] 1 show ?thesis by simp
qed



theorem partition_offsets_collide_witness:
  "\<exists>c1 e1 c2 e2. TryDispatch_at ''orders'' 0 7 zero_envelope 0 two_places = (Dispatched c1, e1) \<and>
     TryDispatch_at ''orders'' 1 7 zero_envelope 1 e1 = (Dispatched c2, e2) \<and>
     fst (HandleAck ''orders'' 7 e2) \<and> \<not> fst (HandleAck ''orders'' 7 (snd (HandleAck ''orders'' 7 e2)))"
proof -
  obtain e1 where 1: "TryDispatch_at ''orders'' 0 7 zero_envelope 0 two_places = (Dispatched ''c1'', e1)"
    by (simp add: two_places_def AddConsumer_def new_queue_def dp_AddConsumer_def TryDispatch_at_def Dispatch_def has_room_def Let_def)
  then obtain e2 where 2: "TryDispatch_at ''orders'' 1 7 zero_envelope 1 e1 = (Dispatched ''c1'', e2)"
    by (auto simp: two_places_def AddConsumer_def new_queue_def dp_AddConsumer_def TryDispatch_at_def Dispatch_def has_room_def Let_def)
  show ?thesis using partition_offsets_collide [OF 1 2] 1 2 by blast
qed

end
