(* ===== verification/Priority_Dispatch.thy ===== *)
theory Priority_Dispatch
  imports Queue_Engine
begin

text \<open>
  \<^verbatim>\<open>internal/engine/queue/priority.go\<close>: the dispatcher with priorities, and what the engine may rely on of both dispatchers.
  A function that would index the consumers out of range answers with \<open>None\<close>; the clock is taken to stand still during a call.
\<close>

section \<open>The dispatcher\<close>

record PriorityDispatcher =
  pd_levels :: "(nat \<times> Envelope) list list"
  pd_consumers :: "QueueConsumer list"
  pd_consumerMaxP :: "(string \<times> byte) list"
  pd_nextIdx :: nat

definition maxPriorityLevels :: nat where "maxPriorityLevels = 10"

definition NewPriorityDispatcher :: PriorityDispatcher where
  "NewPriorityDispatcher = \<lparr>pd_levels = replicate maxPriorityLevels [], pd_consumers = [], pd_consumerMaxP = [], pd_nextIdx = 0\<rparr>"

definition SetConsumerMaxPriority :: "string \<Rightarrow> byte \<Rightarrow> PriorityDispatcher \<Rightarrow> PriorityDispatcher" where
  "SetConsumerMaxPriority consumerID maxP pd =
     pd\<lparr>pd_consumerMaxP := AList.update consumerID (if maxP > 9 then 9 else maxP) (pd_consumerMaxP pd)\<rparr>"

text \<open>The map yields 0 for a consumer it does not have.\<close>

definition max_priority :: "PriorityDispatcher \<Rightarrow> string \<Rightarrow> byte" where
  "max_priority pd i = (let maxP = (case map_of (pd_consumerMaxP pd) i of None \<Rightarrow> 0 | Some p \<Rightarrow> p) in if maxP = 0 then 9 else maxP)"

text \<open>\<open>n\<close> consumers are left to check; the answer is the identifier of a consumer, empty when there is none.\<close>

fun try_loop :: "nat \<Rightarrow> nat \<Rightarrow> byte \<Rightarrow> int \<Rightarrow> PriorityDispatcher \<Rightarrow> string option \<times> PriorityDispatcher" where
  "try_loop 0 offset priority now pd = (Some '''', pd)"
| "try_loop (Suc n) offset priority now pd =
     (if pd_nextIdx pd \<ge> length (pd_consumers pd) then (None, pd)
      else let i = pd_nextIdx pd; consumer = pd_consumers pd ! i;
               pd = pd\<lparr>pd_nextIdx := (i + 1) mod length (pd_consumers pd)\<rparr>
        in if priority > max_priority pd (qc_ID consumer) then try_loop n offset priority now pd
           else if has_room consumer
           then (Some (qc_ID consumer),
                 pd\<lparr>pd_consumers := (pd_consumers pd)[i := consumer\<lparr>qc_InFlight := AList.update offset now (qc_InFlight consumer)\<rparr>]\<rparr>)
           else try_loop n offset priority now pd)"

definition tryDispatchToConsumer :: "nat \<Rightarrow> byte \<Rightarrow> int \<Rightarrow> PriorityDispatcher \<Rightarrow> string option \<times> PriorityDispatcher" where
  "tryDispatchToConsumer offset priority now pd = try_loop (length (pd_consumers pd)) offset priority now pd"

text \<open>The messages of one level that remain.\<close>

fun flush_level :: "byte \<Rightarrow> int \<Rightarrow> (nat \<times> Envelope) list \<Rightarrow> PriorityDispatcher \<Rightarrow> (nat \<times> Envelope) list option \<times> PriorityDispatcher" where
  "flush_level level now [] pd = (Some [], pd)"
| "flush_level level now (m # ms) pd = (case tryDispatchToConsumer (fst m) level now pd of
     (None, pd) \<Rightarrow> (None, pd)
   | (Some i, pd) \<Rightarrow> (case flush_level level now ms pd of
         (None, pd) \<Rightarrow> (None, pd)
       | (Some remaining, pd) \<Rightarrow> (Some (if i \<noteq> '''' then remaining else m # remaining), pd)))"

text \<open>The levels below \<open>level\<close>, from the highest; the flag says that no index was out of range.\<close>

fun flush_below :: "nat \<Rightarrow> int \<Rightarrow> PriorityDispatcher \<Rightarrow> bool \<times> PriorityDispatcher" where
  "flush_below 0 now pd = (True, pd)"
| "flush_below (Suc level) now pd = (case flush_level (of_nat level) now (pd_levels pd ! level) pd of
     (None, pd) \<Rightarrow> (False, pd)
   | (Some remaining, pd) \<Rightarrow> flush_below level now (pd\<lparr>pd_levels := (pd_levels pd)[level := remaining]\<rparr>))"

definition flushQueued :: "int \<Rightarrow> PriorityDispatcher \<Rightarrow> bool \<times> PriorityDispatcher" where
  "flushQueued now pd = flush_below maxPriorityLevels now pd"

definition pd_Dispatch :: "nat \<Rightarrow> Envelope \<Rightarrow> int \<Rightarrow> PriorityDispatcher \<Rightarrow> dispatch_result \<times> PriorityDispatcher" where
  "pd_Dispatch offset env now pd =
     (if pd_consumers pd = [] then (NoConsumers, pd)
      else let priority = (if Priority env > 9 then 9 else Priority env) in
        case tryDispatchToConsumer offset priority now pd of (None, pd) \<Rightarrow> (IndexPanic, pd)
        | (Some i, pd) \<Rightarrow> if i \<noteq> '''' then (Dispatched i, pd)
            else (case flushQueued now pd of (False, pd) \<Rightarrow> (IndexPanic, pd)
              | (True, pd) \<Rightarrow> (case tryDispatchToConsumer offset priority now pd of (None, pd) \<Rightarrow> (IndexPanic, pd)
                  | (Some i, pd) \<Rightarrow> if i \<noteq> '''' then (Dispatched i, pd)
                      else (AllConsumersBusy, pd\<lparr>pd_levels := (pd_levels pd)[unat priority := pd_levels pd ! unat priority @ [(offset, env)]]\<rparr>))))"

definition pd_AddConsumer :: "QueueConsumer \<Rightarrow> int \<Rightarrow> PriorityDispatcher \<Rightarrow> bool \<times> PriorityDispatcher" where
  "pd_AddConsumer c now pd =
     (let pd = pd\<lparr>pd_consumers := pd_consumers pd @ [c]\<rparr>;
          pd = (if map_of (pd_consumerMaxP pd) (qc_ID c) = None then pd\<lparr>pd_consumerMaxP := AList.update (qc_ID c) 9 (pd_consumerMaxP pd)\<rparr> else pd)
      in flushQueued now pd)"

definition pd_RemoveConsumer :: "string \<Rightarrow> PriorityDispatcher \<Rightarrow> PriorityDispatcher" where
  "pd_RemoveConsumer i pd =
     (let pd = (if list_ex (\<lambda>c. qc_ID c = i) (pd_consumers pd)
                then let pd = pd\<lparr>pd_consumers := remove_id i (pd_consumers pd)\<rparr>
                  in if pd_nextIdx pd \<ge> length (pd_consumers pd) \<and> length (pd_consumers pd) > 0 then pd\<lparr>pd_nextIdx := 0\<rparr> else pd
                else pd)
      in pd\<lparr>pd_consumerMaxP := AList.delete i (pd_consumerMaxP pd)\<rparr>)"

definition QueuedDepth :: "PriorityDispatcher \<Rightarrow> nat" where
  "QueuedDepth pd = (\<Sum>q\<leftarrow>pd_levels pd. length q)"

section \<open>What the engine relies on\<close>

definition hand_to :: "nat \<Rightarrow> int \<Rightarrow> QueueConsumer \<Rightarrow> QueueConsumer" where
  "hand_to offset now c = c\<lparr>qc_InFlight := AList.update offset now (qc_InFlight c)\<rparr>"

lemma hand_to_simps [simp]: "qc_ID (hand_to offset now c) = qc_ID c" "qc_Prefetch (hand_to offset now c) = qc_Prefetch c"
  by (simp_all add: hand_to_def)

text \<open>Consumers before and after some of them, each with room at the time, have been given messages.\<close>

inductive taken :: "QueueConsumer list \<Rightarrow> QueueConsumer list \<Rightarrow> bool" where
  nothing: "taken cs cs"
| one_more: "i < length cs \<Longrightarrow> has_room (cs ! i) \<Longrightarrow> taken (cs[i := hand_to offset now (cs ! i)]) cs' \<Longrightarrow> taken cs cs'"

lemma taken_trans: "taken cs cs' \<Longrightarrow> taken cs' cs'' \<Longrightarrow> taken cs cs''"
  by (induction rule: taken.induct) (auto intro: taken.intros)

lemma taken_single: "i < length cs \<Longrightarrow> has_room (cs ! i) \<Longrightarrow> taken cs (cs[i := hand_to offset now (cs ! i)])"
  by (rule taken.one_more [OF _ _ taken.nothing])

lemma taken_ids: "taken cs cs' \<Longrightarrow> map qc_ID cs' = map qc_ID cs"
  by (induction rule: taken.induct) (simp_all add: map_update list_update_same_conv)

lemma taken_full: "taken cs cs' \<Longrightarrow> \<forall>c\<in>set cs. \<not> has_room c \<Longrightarrow> cs' = cs"
  by (induction rule: taken.induct) (auto dest: nth_mem)

definition within_limit :: "QueueConsumer \<Rightarrow> bool" where
  "within_limit c \<longleftrightarrow> length (qc_InFlight c) \<le> nat (qc_Prefetch c)"

lemma length_update_le: "length (AList.update k v xs) \<le> Suc (length xs)"
  by (induction xs) auto

lemma within_limit_give: "has_room c \<Longrightarrow> within_limit (hand_to offset now c)"
  using length_update_le [of offset now "qc_InFlight c"] by (simp add: within_limit_def has_room_def hand_to_def)

lemma taken_within: "taken cs cs' \<Longrightarrow> \<forall>c\<in>set cs. within_limit c \<Longrightarrow> \<forall>c\<in>set cs'. within_limit c"
proof (induction rule: taken.induct)
  case (one_more i cs offset now cs')
  have "set (cs[i := hand_to offset now (cs ! i)]) \<subseteq> insert (hand_to offset now (cs ! i)) (set cs)" by (rule set_update_subset_insert)
  then show ?case using one_more within_limit_give [OF one_more.hyps(2)] by blast
qed simp

lemma set_remove_id: "set (remove_id i cs) \<subseteq> set cs"
  by (induction cs) auto

datatype dispatcher_op = DAdd QueueConsumer int | DRemove string | DDispatch nat Envelope int

fun dispatcher_do :: "(nat \<Rightarrow> Envelope \<Rightarrow> int \<Rightarrow> 'd \<Rightarrow> dispatch_result \<times> 'd) \<Rightarrow> (QueueConsumer \<Rightarrow> int \<Rightarrow> 'd \<Rightarrow> 'd) \<Rightarrow> (string \<Rightarrow> 'd \<Rightarrow> 'd) \<Rightarrow>
    dispatcher_op \<Rightarrow> 'd \<Rightarrow> 'd" where
  "dispatcher_do dispatch add remove (DAdd c now) d = add c now d"
| "dispatcher_do dispatch add remove (DRemove i) d = remove i d"
| "dispatcher_do dispatch add remove (DDispatch offset env now) d = snd (dispatch offset env now d)"

definition adds :: "(QueueConsumer \<Rightarrow> bool) \<Rightarrow> dispatcher_op list \<Rightarrow> bool" where
  "adds P ops \<longleftrightarrow> (\<forall>c now. DAdd c now \<in> set ops \<longrightarrow> P c)"

locale dispatching =
  fixes consumers :: "'d \<Rightarrow> QueueConsumer list" and ok :: "'d \<Rightarrow> bool" and fresh :: 'd
    and dispatch :: "nat \<Rightarrow> Envelope \<Rightarrow> int \<Rightarrow> 'd \<Rightarrow> dispatch_result \<times> 'd"
    and add :: "QueueConsumer \<Rightarrow> int \<Rightarrow> 'd \<Rightarrow> 'd" and remove :: "string \<Rightarrow> 'd \<Rightarrow> 'd"
  assumes fresh: "ok fresh" "consumers fresh = []"
    and dispatch_ok: "ok d \<Longrightarrow> dispatch offset env now d = (res, d') \<Longrightarrow> ok d' \<and> res \<noteq> IndexPanic \<and> taken (consumers d) (consumers d')"
    and dispatch_who: "ok d \<Longrightarrow> dispatch offset env now d = (Dispatched i, d') \<Longrightarrow> i \<in> qc_ID ` set (consumers d)"
    and add_ok: "ok d \<Longrightarrow> ok (add c now d) \<and> taken (consumers d @ [c]) (consumers (add c now d))"
    and remove_ok: "ok d \<Longrightarrow> ok (remove i d) \<and> consumers (remove i d) = remove_id i (consumers d)"
begin

text \<open>A property of consumers that being given a message keeps holds in every state.\<close>

lemma consumers_in_runs:
  assumes keeps: "\<And>cs cs'. taken cs cs' \<Longrightarrow> \<forall>c\<in>set cs. P c \<Longrightarrow> \<forall>c\<in>set cs'. P c"
  shows "ok d \<Longrightarrow> \<forall>c\<in>set (consumers d). P c \<Longrightarrow> adds P ops \<Longrightarrow>
    ok (fold (dispatcher_do dispatch add remove) ops d) \<and> (\<forall>c\<in>set (consumers (fold (dispatcher_do dispatch add remove) ops d)). P c)"
proof (induction ops arbitrary: d)
  case (Cons op ops)
  let ?d = "dispatcher_do dispatch add remove op d"
  have "ok ?d \<and> (\<forall>c\<in>set (consumers ?d). P c)"
  proof (cases op)
    case (DAdd c now)
    then have "P c" using Cons.prems(3) by (simp add: adds_def)
    then have "\<forall>x\<in>set (consumers d @ [c]). P x" using Cons.prems(2) by simp
    then have "\<forall>x\<in>set (consumers (add c now d)). P x" using keeps add_ok [OF Cons.prems(1)] by blast
    then show ?thesis using DAdd add_ok [OF Cons.prems(1), of c now] by simp
  next
    case (DRemove i)
    then show ?thesis using remove_ok [OF Cons.prems(1), of i] set_remove_id [of i "consumers d"] Cons.prems(2) by auto
  next
    case (DDispatch offset env now)
    obtain res d' where r: "dispatch offset env now d = (res, d')" by fastforce
    then show ?thesis using DDispatch dispatch_ok [OF Cons.prems(1) r] keeps [of "consumers d" "consumers d'"] Cons.prems(2) by simp
  qed
  moreover have "adds P ops" using Cons.prems(3) by (auto simp: adds_def)
  ultimately show ?case using Cons.IH [of ?d] by simp
qed simp

lemma limits_in_runs:
  "adds within_limit ops \<Longrightarrow> \<forall>c\<in>set (consumers (fold (dispatcher_do dispatch add remove) ops fresh)). within_limit c"
  using consumers_in_runs [of within_limit fresh ops] taken_within fresh by simp

lemma ok_in_runs: "ok (fold (dispatcher_do dispatch add remove) ops fresh)"
  using consumers_in_runs [of "\<lambda>_. True" fresh ops] fresh by (simp add: adds_def)

end

text \<open>The dispatcher without priorities.\<close>

lemma assign_taken: "i < length (dp_consumers d) \<Longrightarrow> has_room (dp_consumers d ! i) \<Longrightarrow> taken (dp_consumers d) (dp_consumers (assign i offset now d))"
  by (simp add: assign_def taken_single flip: hand_to_def)

lemma dispatch_spec_taken:
  assumes "dispatch_spec offset now d res d'"
  shows "res \<noteq> IndexPanic \<and> taken (dp_consumers d) (dp_consumers d') \<and> (\<forall>i. res = Dispatched i \<longrightarrow> i \<in> qc_ID ` set (dp_consumers d))"
  using assms by (auto simp: dispatch_spec_def cyclic_less intro: taken.nothing assign_taken split: dispatch_result.splits)

lemma remove_id_absent: "\<not> list_ex (\<lambda>c. qc_ID c = i) cs \<Longrightarrow> remove_id i cs = cs"
  by (induction cs) auto

interpretation plain_dispatcher: dispatching dp_consumers idx_ok "qs_dispatcher new_queue" "\<lambda>offset env. Dispatch offset" "\<lambda>c now. dp_AddConsumer c" dp_RemoveConsumer
proof
  show "idx_ok (qs_dispatcher new_queue)" by (rule idx_ok_new)
  show "dp_consumers (qs_dispatcher new_queue) = []" by (simp add: new_queue_def)
  show "idx_ok d' \<and> res \<noteq> IndexPanic \<and> taken (dp_consumers d) (dp_consumers d')"
    if "idx_ok d" "Dispatch offset now d = (res, d')" for d offset now res d'
    using Dispatch_ok [OF that] dispatch_spec_taken by blast
  show "i \<in> qc_ID ` set (dp_consumers d)" if "idx_ok d" "Dispatch offset now d = (Dispatched i, d')" for d offset now i d'
    using Dispatch_ok(1) [OF that] dispatch_spec_taken by blast
  show "idx_ok (dp_AddConsumer c d) \<and> taken (dp_consumers d @ [c]) (dp_consumers (dp_AddConsumer c d))" if "idx_ok d" for c d
    using idx_ok_add [OF that, of c] by (simp add: dp_AddConsumer_def taken.nothing)
  show "idx_ok (dp_RemoveConsumer i d) \<and> dp_consumers (dp_RemoveConsumer i d) = remove_id i (dp_consumers d)" if "idx_ok d" for i d
    using idx_ok_remove [OF that, of i] by (auto simp: dp_RemoveConsumer_def remove_id_absent Let_def)
qed
section \<open>The dispatcher with priorities\<close>

text \<open>Consumers and index are those of a plain dispatcher.\<close>

definition core :: "PriorityDispatcher \<Rightarrow> Dispatcher" where
  "core pd = \<lparr>dp_consumers = pd_consumers pd, dp_nextIdx = pd_nextIdx pd\<rparr>"

definition with_core :: "PriorityDispatcher \<Rightarrow> Dispatcher \<Rightarrow> PriorityDispatcher" where
  "with_core pd d = pd\<lparr>pd_consumers := dp_consumers d, pd_nextIdx := dp_nextIdx d\<rparr>"

lemma core_simps [simp]:
  "dp_consumers (core pd) = pd_consumers pd" "dp_nextIdx (core pd) = pd_nextIdx pd" "core (with_core pd d) = d"
  "pd_levels (with_core pd d) = pd_levels pd" "pd_consumerMaxP (with_core pd d) = pd_consumerMaxP pd"
  "pd_consumers (with_core pd d) = dp_consumers d" "core (pd_levels_update f pd) = core pd" "with_core pd (core pd) = pd"
  by (simp_all add: core_def with_core_def)

text \<open>Nothing limits the priorities of a consumer but \<open>SetConsumerMaxPriority\<close>, which only tests call.\<close>

definition unlimited :: "PriorityDispatcher \<Rightarrow> bool" where
  "unlimited pd \<longleftrightarrow> (\<forall>i. max_priority pd i = 9)"

definition pd_ok :: "PriorityDispatcher \<Rightarrow> bool" where
  "pd_ok pd \<longleftrightarrow> idx_ok (core pd) \<and> unlimited pd \<and> length (pd_levels pd) = maxPriorityLevels"

lemma max_priority_cong: "pd_consumerMaxP pd' = pd_consumerMaxP pd \<Longrightarrow> max_priority pd' i = max_priority pd i"
  by (simp add: max_priority_def)

lemma unlimited_cong: "pd_consumerMaxP pd' = pd_consumerMaxP pd \<Longrightarrow> unlimited pd' = unlimited pd"
  by (simp add: unlimited_def max_priority_def)

fun found :: "dispatch_result \<Rightarrow> string option" where
  "found (Dispatched i) = Some i"
| "found IndexPanic = None"
| "found r = Some ''''"

lemma try_loop_core:
  "unlimited pd \<Longrightarrow> priority \<le> 9 \<Longrightarrow>
   try_loop n offset priority now pd = map_prod found (with_core pd) (dispatch_loop n offset now (core pd))"
proof (induction n arbitrary: pd)
  case (Suc n)
  let ?pd = "pd\<lparr>pd_nextIdx := (pd_nextIdx pd + 1) mod length (pd_consumers pd)\<rparr>"
  have "unlimited ?pd" using Suc.prems(1) unlimited_cong [of ?pd pd] by simp
  then have "try_loop n offset priority now ?pd = map_prod found (with_core ?pd) (dispatch_loop n offset now (core ?pd))"
    using Suc.IH Suc.prems(2) by blast
  also have "core ?pd = core pd\<lparr>dp_nextIdx := (pd_nextIdx pd + 1) mod length (pd_consumers pd)\<rparr>" by (simp add: core_def)
  also have "with_core ?pd = with_core pd" by (simp add: with_core_def fun_eq_iff)
  finally have IH: "try_loop n offset priority now ?pd =
    map_prod found (with_core pd) (dispatch_loop n offset now (core pd\<lparr>dp_nextIdx := (pd_nextIdx pd + 1) mod length (pd_consumers pd)\<rparr>))" .
  have "\<not> priority > max_priority ?pd i" for i
    using Suc.prems max_priority_cong [of ?pd pd i] by (simp add: unlimited_def not_less)
  moreover have "with_core pd (core pd\<lparr>dp_nextIdx := k, dp_consumers := cs\<rparr>) = pd\<lparr>pd_nextIdx := k, pd_consumers := cs\<rparr>" for k cs
    by (simp add: with_core_def)
  ultimately show ?case using IH by (simp add: Let_def)
qed simp

text \<open>One attempt to place a message: either no consumer has room and only the index moves, or a consumer with room is given it.\<close>

lemma tryDispatch_cases:
  assumes "pd_ok pd" and "priority \<le> 9" and "tryDispatchToConsumer offset priority now pd = (ans, pd')"
  shows "pd_ok pd' \<and> pd_levels pd' = pd_levels pd \<and>
    ((\<forall>c\<in>set (pd_consumers pd). \<not> has_room c) \<and> ans = Some '''' \<and> pd_consumers pd' = pd_consumers pd \<or>
     (\<exists>i < length (pd_consumers pd). has_room (pd_consumers pd ! i) \<and> ans = Some (qc_ID (pd_consumers pd ! i)) \<and>
       pd_consumers pd' = (pd_consumers pd)[i := hand_to offset now (pd_consumers pd ! i)]))"
proof -
  let ?n = "length (pd_consumers pd)"
  obtain r d' where r: "dispatch_loop ?n offset now (core pd) = (r, d')" by fastforce
  then have a: "ans = found r" "pd' = with_core pd d'"
    using assms try_loop_core [of pd priority ?n offset now] by (simp_all add: tryDispatchToConsumer_def pd_ok_def)
  have ok: "pd_ok pd'" if "idx_ok d'"
    using that assms(1) unlimited_cong [of pd' pd] by (simp add: a(2) pd_ok_def)
  show ?thesis
  proof (cases "pd_consumers pd = []")
    case True
    then have "r = AllConsumersBusy" "d' = core pd" using r by simp_all
    with True assms(1) show ?thesis by (simp add: a)
  next
    case False
    then have D: "Dispatch offset now (core pd) = (r, d')" using r by (simp add: Dispatch_def)
    have i: "idx_ok (core pd)" using assms(1) by (simp add: pd_ok_def)
    note spec = Dispatch_ok [OF i D]
    from spec(1) False have "r = AllConsumersBusy \<and> (\<forall>c\<in>set (pd_consumers pd). \<not> has_room c) \<and> dp_consumers d' = pd_consumers pd \<or>
      (\<exists>k < ?n. has_room (pd_consumers pd ! cyclic (core pd) k) \<and> r = Dispatched (qc_ID (pd_consumers pd ! cyclic (core pd) k)) \<and>
        d' = assign (cyclic (core pd) k) offset now (core pd))"
      by (auto simp: dispatch_spec_def split: dispatch_result.splits)
    then show ?thesis
    proof (elim disjE exE conjE)
      fix k assume k: "k < ?n" "has_room (pd_consumers pd ! cyclic (core pd) k)" "r = Dispatched (qc_ID (pd_consumers pd ! cyclic (core pd) k))"
        "d' = assign (cyclic (core pd) k) offset now (core pd)"
      have "cyclic (core pd) k < ?n" using cyclic_less [of k "core pd"] k(1) by simp
      then show ?thesis using k ok [OF spec(2)] by (auto simp: a assign_def hand_to_def intro!: exI [of _ "cyclic (core pd) k"])
    qed (use ok [OF spec(2)] in \<open>simp add: a\<close>)
  qed
qed

text \<open>What placing some messages does to a dispatcher: \<open>ms\<close> waited before, \<open>ms'\<close> afterwards.\<close>

definition all_named :: "PriorityDispatcher \<Rightarrow> bool" where
  "all_named pd \<longleftrightarrow> '''' \<notin> qc_ID ` set (pd_consumers pd)"

definition full :: "PriorityDispatcher \<Rightarrow> bool" where
  "full pd \<longleftrightarrow> (\<forall>c\<in>set (pd_consumers pd). \<not> has_room c)"

definition held :: "QueueConsumer list \<Rightarrow> nat set" where
  "held cs = (\<Union>c\<in>set cs. fst ` set (qc_InFlight c))"

lemma held_Cons: "held (c # cs) = fst ` set (qc_InFlight c) \<union> held cs"
  by (simp add: held_def)

lemma held_give: "i < length cs \<Longrightarrow> held (cs[i := hand_to offset now (cs ! i)]) = insert offset (held cs)"
proof (induction cs arbitrary: i)
  case (Cons c cs)
  then show ?case by (cases i) (simp_all add: held_Cons hand_to_def dom_update)
qed simp

lemma taken_held: "taken cs cs' \<Longrightarrow> held cs \<subseteq> held cs'"
  by (induction rule: taken.induct) (auto simp: held_give)

definition placed :: "('m \<Rightarrow> nat) \<Rightarrow> 'm list \<Rightarrow> PriorityDispatcher \<Rightarrow> 'm list \<Rightarrow> PriorityDispatcher \<Rightarrow> bool" where
  "placed off ms pd ms' pd' \<longleftrightarrow> (if full pd then ms' = ms \<and> pd_consumers pd' = pd_consumers pd
     else \<exists>k. ms' = drop k ms \<and> off ` set (take k ms) \<subseteq> held (pd_consumers pd') \<and> (k < length ms \<longrightarrow> full pd'))"

lemma all_named_taken: "taken (pd_consumers pd) (pd_consumers pd') \<Longrightarrow> all_named pd' = all_named pd"
  using taken_ids [of "pd_consumers pd" "pd_consumers pd'"] by (simp add: all_named_def flip: set_map)

lemma full_cong: "pd_consumers pd' = pd_consumers pd \<Longrightarrow> full pd' = full pd"
  by (simp add: full_def)

lemma placed_map: "placed (off \<circ> f) ms pd ms' pd' \<Longrightarrow> placed off (map f ms) pd (map f ms') pd'"
  by (auto simp: placed_def drop_map take_map image_image split: if_splits)

lemma placed_append:
  assumes "placed off ms pd ms' pd1" and "placed off ns pd1 ns' pd2" and "taken (pd_consumers pd1) (pd_consumers pd2)"
  shows "placed off (ms @ ns) pd (ms' @ ns') pd2"
proof (cases "full pd1")
  case True
  then have n: "ns' = ns" "full pd2" "pd_consumers pd2 = pd_consumers pd1" using assms(2) full_cong [of pd2 pd1] by (simp_all add: placed_def)
  show ?thesis
  proof (cases "full pd")
    case True
    then show ?thesis using n assms(1) by (simp add: placed_def)
  next
    case False
    then obtain k where k: "ms' = drop k ms" "off ` set (take k ms) \<subseteq> held (pd_consumers pd1)" using assms(1) by (auto simp: placed_def)
    then have "ms' @ ns = drop (min k (length ms)) (ms @ ns)" "take (min k (length ms)) (ms @ ns) = take k ms" by (simp_all add: min_def)
    then show ?thesis unfolding placed_def n(1) n(3) using False n(2) k(2) by metis
  qed
next
  case False
  then have pd: "\<not> full pd" using assms(1) full_cong [of pd1 pd] by (auto simp: placed_def)
  then obtain k where k: "ms' = drop k ms" "off ` set (take k ms) \<subseteq> held (pd_consumers pd1)" "\<not> k < length ms" using assms(1) False by (auto simp: placed_def)
  then have ms: "ms' = []" "off ` set ms \<subseteq> held (pd_consumers pd2)" using taken_held [OF assms(3)] by auto
  obtain j where j: "ns' = drop j ns" "off ` set (take j ns) \<subseteq> held (pd_consumers pd2)" "j < length ns \<longrightarrow> full pd2"
    using assms(2) False by (auto simp: placed_def)
  then have "ms' @ ns' = drop (length ms + j) (ms @ ns)" "off ` set (take (length ms + j) (ms @ ns)) \<subseteq> held (pd_consumers pd2)"
    "length ms + j < length (ms @ ns) \<longrightarrow> full pd2"
    using ms by auto
  then show ?thesis using pd unfolding placed_def by metis
qed

lemma tryDispatch_taken:
  assumes "pd_ok pd" and "priority \<le> 9" and "tryDispatchToConsumer offset priority now pd = (ans, pd')"
  shows "pd_ok pd'" "ans \<noteq> None" "pd_levels pd' = pd_levels pd" "taken (pd_consumers pd) (pd_consumers pd')"
    "ans = Some i \<Longrightarrow> i \<noteq> '''' \<Longrightarrow> i \<in> qc_ID ` set (pd_consumers pd)"
    "all_named pd \<Longrightarrow> if full pd then ans = Some '''' \<and> pd_consumers pd' = pd_consumers pd else (\<exists>i. ans = Some i \<and> i \<noteq> '''') \<and> offset \<in> held (pd_consumers pd')"
proof -
  note c = tryDispatch_cases [OF assms]
  show "pd_ok pd'" "pd_levels pd' = pd_levels pd" using c by simp_all
  show "ans \<noteq> None" "taken (pd_consumers pd) (pd_consumers pd')" using c by (auto intro: taken.nothing taken_single)
  show "i \<in> qc_ID ` set (pd_consumers pd)" if "ans = Some i" "i \<noteq> ''''" using c that by auto
  show "if full pd then ans = Some '''' \<and> pd_consumers pd' = pd_consumers pd else (\<exists>i. ans = Some i \<and> i \<noteq> '''') \<and> offset \<in> held (pd_consumers pd')"
    if "all_named pd"
    using c that by (auto simp: full_def all_named_def held_give) (metis image_eqI nth_mem)+
qed

lemma flush_level_ok:
  "pd_ok pd \<Longrightarrow> level \<le> 9 \<Longrightarrow> \<exists>ms' pd'. flush_level level now ms pd = (Some ms', pd') \<and> pd_ok pd' \<and> pd_levels pd' = pd_levels pd \<and>
     taken (pd_consumers pd) (pd_consumers pd') \<and> (all_named pd \<longrightarrow> placed fst ms pd ms' pd')"
proof (induction ms arbitrary: pd)
  case Nil
  then show ?case by (auto simp: placed_def intro: taken.nothing)
next
  case (Cons m ms)
  obtain ans pd1 where t: "tryDispatchToConsumer (fst m) level now pd = (ans, pd1)" by fastforce
  note T = tryDispatch_taken [OF Cons.prems t]
  then obtain i where i: "ans = Some i" by blast
  obtain ms' pd2 where f: "flush_level level now ms pd1 = (Some ms', pd2)" "pd_ok pd2" "pd_levels pd2 = pd_levels pd1"
    "taken (pd_consumers pd1) (pd_consumers pd2)" "all_named pd1 \<longrightarrow> placed fst ms pd1 ms' pd2"
    using Cons.IH [OF T(1) Cons.prems(2)] by blast
  have "placed fst ([m] @ ms) pd ((if i \<noteq> '''' then [] else [m]) @ ms') pd2" if named: "all_named pd"
  proof (rule placed_append)
    show "placed fst [m] pd (if i \<noteq> '''' then [] else [m]) pd1"
      using T(6) [OF named] i by (auto simp: placed_def split: if_splits intro: exI [of _ 1])
    show "placed fst ms pd1 ms' pd2" using f(5) named all_named_taken [OF T(4)] by simp
    show "taken (pd_consumers pd1) (pd_consumers pd2)" by (rule f(4))
  qed
  then show ?case using t i f T by (auto intro: taken_trans)
qed

text \<open>The messages that wait, with their levels, in the order in which they are to be placed.\<close>

definition waiting_below :: "nat \<Rightarrow> (nat \<times> Envelope) list list \<Rightarrow> (nat \<times> nat \<times> Envelope) list" where
  "waiting_below n ls = concat (map (\<lambda>l. map (Pair l) (ls ! l)) (rev [0..<n]))"

definition waiting :: "PriorityDispatcher \<Rightarrow> (nat \<times> nat \<times> Envelope) list" where
  "waiting pd = waiting_below maxPriorityLevels (pd_levels pd)"

definition offset_of :: "nat \<times> nat \<times> Envelope \<Rightarrow> nat" where
  "offset_of w = fst (snd w)"

lemma offset_of_Pair: "offset_of \<circ> Pair n = fst"
  by (simp add: fun_eq_iff offset_of_def)

lemma waiting_below_Suc: "waiting_below (Suc n) ls = map (Pair n) (ls ! n) @ waiting_below n ls"
  by (simp add: waiting_below_def)

lemma waiting_below_cong: "(\<And>l. l < n \<Longrightarrow> ls' ! l = ls ! l) \<Longrightarrow> waiting_below n ls' = waiting_below n ls"
  by (auto simp: waiting_below_def intro!: arg_cong [where f = concat])

lemma flush_below_ok:
  "pd_ok pd \<Longrightarrow> n \<le> maxPriorityLevels \<Longrightarrow> \<exists>pd'. flush_below n now pd = (True, pd') \<and> pd_ok pd' \<and> (\<forall>l\<ge>n. pd_levels pd' ! l = pd_levels pd ! l) \<and>
     taken (pd_consumers pd) (pd_consumers pd') \<and>
     (all_named pd \<longrightarrow> placed offset_of (waiting_below n (pd_levels pd)) pd (waiting_below n (pd_levels pd')) pd')"
proof (induction n arbitrary: pd)
  case 0
  then show ?case by (auto simp: placed_def waiting_below_def intro: taken.nothing)
next
  case (Suc n)
  have "of_nat n \<le> (9 :: byte)" using Suc.prems(2) by (simp add: maxPriorityLevels_def word_le_nat_alt unat_of_nat)
  then obtain ms pd1 where f: "flush_level (of_nat n) now (pd_levels pd ! n) pd = (Some ms, pd1)" "pd_ok pd1" "pd_levels pd1 = pd_levels pd"
    "taken (pd_consumers pd) (pd_consumers pd1)" "all_named pd \<longrightarrow> placed fst (pd_levels pd ! n) pd ms pd1"
    using flush_level_ok [OF Suc.prems(1)] by blast
  let ?pd = "pd1\<lparr>pd_levels := (pd_levels pd1)[n := ms]\<rparr>"
  have n: "n < length (pd_levels pd)" using Suc.prems by (simp add: pd_ok_def)
  have "pd_ok ?pd" using f(2) unlimited_cong [of ?pd pd1] by (simp add: pd_ok_def)
  then obtain pd' where g: "flush_below n now ?pd = (True, pd')" "pd_ok pd'" "\<forall>l\<ge>n. pd_levels pd' ! l = pd_levels ?pd ! l"
    "taken (pd_consumers pd1) (pd_consumers pd')"
    "all_named ?pd \<longrightarrow> placed offset_of (waiting_below n (pd_levels ?pd)) ?pd (waiting_below n (pd_levels pd')) pd'"
    using Suc.IH [of ?pd] Suc.prems(2) by auto
  have l: "pd_levels pd' ! n = ms" "waiting_below n (pd_levels ?pd) = waiting_below n (pd_levels pd)"
    using g(3) n f(3) by (auto intro: waiting_below_cong)
  have "placed offset_of (waiting_below (Suc n) (pd_levels pd)) pd (waiting_below (Suc n) (pd_levels pd')) pd'" if named: "all_named pd"
  proof -
    have "all_named ?pd" using named all_named_taken [OF f(4)] by (simp add: all_named_def)
    have same: "placed offset_of xs ?pd ys p \<longleftrightarrow> placed offset_of xs pd1 ys p" for xs ys :: "(nat \<times> nat \<times> Envelope) list" and p by (simp add: placed_def full_def)
    have "placed offset_of (waiting_below n (pd_levels pd)) pd1 (waiting_below n (pd_levels pd')) pd'"
      using g(5) \<open>all_named ?pd\<close> unfolding same l(2) by blast
    moreover have "placed offset_of (map (Pair n) (pd_levels pd ! n)) pd (map (Pair n) ms) pd1"
      using f(5) named placed_map [of offset_of "Pair n"] offset_of_Pair [of n] by simp
    ultimately show ?thesis using g(4) by (simp add: waiting_below_Suc l(1) placed_append)
  qed
  then show ?case using f g n by (auto intro: taken_trans)
qed

lemma flushQueued_ok:
  assumes "pd_ok pd"
  shows "\<exists>pd'. flushQueued now pd = (True, pd') \<and> pd_ok pd' \<and> taken (pd_consumers pd) (pd_consumers pd') \<and>
     (all_named pd \<longrightarrow> placed offset_of (waiting pd) pd (waiting pd') pd')"
  using flush_below_ok [OF assms le_refl] by (auto simp: flushQueued_def waiting_def)

definition pd_added :: "QueueConsumer \<Rightarrow> PriorityDispatcher \<Rightarrow> PriorityDispatcher" where
  "pd_added c pd = (let pd = pd\<lparr>pd_consumers := pd_consumers pd @ [c]\<rparr>
     in if map_of (pd_consumerMaxP pd) (qc_ID c) = None then pd\<lparr>pd_consumerMaxP := AList.update (qc_ID c) 9 (pd_consumerMaxP pd)\<rparr> else pd)"

lemma pd_AddConsumer_eq: "pd_AddConsumer c now pd = flushQueued now (pd_added c pd)"
  by (simp add: pd_AddConsumer_def pd_added_def Let_def)

lemma pd_added_simps [simp]: "pd_consumers (pd_added c pd) = pd_consumers pd @ [c]" "pd_levels (pd_added c pd) = pd_levels pd"
  by (simp_all add: pd_added_def Let_def)

lemma pd_added_ok: "pd_ok pd \<Longrightarrow> pd_ok (pd_added c pd)"
  by (auto simp: pd_ok_def pd_added_def idx_ok_def core_def unlimited_def max_priority_def update_conv' Let_def split: if_splits)

lemma pd_removed_ok: "pd_ok pd \<Longrightarrow> pd_ok (pd_RemoveConsumer i pd)"
  using length_remove_id [of i "pd_consumers pd"]
  by (auto simp: pd_ok_def pd_RemoveConsumer_def idx_ok_def core_def unlimited_def max_priority_def delete_conv' Let_def split: if_splits)

lemma pd_removed_simps [simp]:
  "pd_consumers (pd_RemoveConsumer i pd) = remove_id i (pd_consumers pd)" "pd_levels (pd_RemoveConsumer i pd) = pd_levels pd"
  by (simp_all add: pd_RemoveConsumer_def remove_id_absent Let_def)

text \<open>The level at which a message waits.\<close>

definition level_of :: "Envelope \<Rightarrow> byte" where
  "level_of env = (if Priority env > 9 then 9 else Priority env)"

lemma level_of_le: "level_of env \<le> 9"
  by (simp add: level_of_def not_less)

lemma unat_level_of: "unat (level_of env) < maxPriorityLevels"
  using level_of_le [of env] by (simp add: maxPriorityLevels_def word_le_nat_alt)

definition enqueue :: "nat \<Rightarrow> Envelope \<Rightarrow> PriorityDispatcher \<Rightarrow> PriorityDispatcher" where
  "enqueue offset env pd = pd\<lparr>pd_levels := (pd_levels pd)[unat (level_of env) := pd_levels pd ! unat (level_of env) @ [(offset, env)]]\<rparr>"

lemma enqueue_simps [simp]: "pd_consumers (enqueue offset env pd) = pd_consumers pd" "pd_ok (enqueue offset env pd) = pd_ok pd"
  using unlimited_cong [of "enqueue offset env pd" pd] by (simp_all add: enqueue_def pd_ok_def)

text \<open>The place of a message among those that wait: behind all of its level and of higher ones.\<close>

definition wait_in :: "nat \<Rightarrow> nat \<times> Envelope \<Rightarrow> (nat \<times> nat \<times> Envelope) list \<Rightarrow> (nat \<times> nat \<times> Envelope) list" where
  "wait_in l m q = takeWhile (\<lambda>(l', _). l \<le> l') q @ (l, m) # dropWhile (\<lambda>(l', _). l \<le> l') q"

lemma wait_in_append: "\<forall>(l', _)\<in>set xs. l \<le> l' \<Longrightarrow> wait_in l m (xs @ q) = xs @ wait_in l m q"
  by (induction xs) (auto simp: wait_in_def)

lemma wait_in_lower: "\<forall>(l', _)\<in>set q. l' < l \<Longrightarrow> wait_in l m q = (l, m) # q"
  by (cases q) (auto simp: wait_in_def)

lemma waiting_below_levels: "(l, m) \<in> set (waiting_below n ls) \<Longrightarrow> l < n"
  by (auto simp: waiting_below_def)

lemma waiting_below_insert:
  "l < n \<Longrightarrow> n \<le> length ls \<Longrightarrow> waiting_below n (ls[l := ls ! l @ [m]]) = wait_in l m (waiting_below n ls)"
proof (induction n)
  case (Suc n)
  show ?case
  proof (cases "l = n")
    case True
    have "waiting_below n (ls[n := ls ! n @ [m]]) = waiting_below n ls" by (rule waiting_below_cong) simp
    moreover have "wait_in n m (waiting_below n ls) = (n, m) # waiting_below n ls"
      by (rule wait_in_lower) (auto dest: waiting_below_levels)
    ultimately show ?thesis using True Suc.prems by (simp add: waiting_below_Suc wait_in_append)
  next
    case False
    then show ?thesis using Suc by (simp add: waiting_below_Suc wait_in_append)
  qed
qed simp

lemma waiting_enqueue: "pd_ok pd \<Longrightarrow> waiting (enqueue offset env pd) = wait_in (unat (level_of env)) (offset, env) (waiting pd)"
  using unat_level_of [of env] by (simp add: waiting_def enqueue_def waiting_below_insert pd_ok_def)

text \<open>A dispatch: a second attempt is made after a flush.\<close>

lemma pd_Dispatch_ok:
  assumes "pd_ok pd" and "pd_Dispatch offset env now pd = (res, pd')"
  shows "pd_ok pd' \<and> taken (pd_consumers pd) (pd_consumers pd') \<and> (case res of IndexPanic \<Rightarrow> False | NoConsumers \<Rightarrow> pd_consumers pd = [] \<and> pd' = pd
    | Dispatched i \<Rightarrow> i \<in> qc_ID ` set (pd_consumers pd) | AllConsumersBusy \<Rightarrow> True) \<and>
    (all_named pd \<longrightarrow> pd_consumers pd \<noteq> [] \<longrightarrow> (if full pd then res = AllConsumersBusy \<and> full pd' \<and> waiting pd' = wait_in (unat (level_of env)) (offset, env) (waiting pd)
       else (\<exists>i. res = Dispatched i) \<and> pd_levels pd' = pd_levels pd))"
proof (cases "pd_consumers pd = []")
  case True
  then show ?thesis using assms by (auto simp: pd_Dispatch_def intro: taken.nothing)
next
  case False
  obtain ans1 pd1 where t1: "tryDispatchToConsumer offset (level_of env) now pd = (ans1, pd1)" by fastforce
  note T1 = tryDispatch_taken [OF assms(1) level_of_le t1]
  then obtain i1 where i1: "ans1 = Some i1" by blast
  obtain pd2 where f: "flushQueued now pd1 = (True, pd2)" "pd_ok pd2" "taken (pd_consumers pd1) (pd_consumers pd2)"
    "all_named pd1 \<longrightarrow> placed offset_of (waiting pd1) pd1 (waiting pd2) pd2"
    using flushQueued_ok [OF T1(1)] by blast
  obtain ans3 pd3 where t3: "tryDispatchToConsumer offset (level_of env) now pd2 = (ans3, pd3)" by fastforce
  note T3 = tryDispatch_taken [OF f(2) level_of_le t3]
  then obtain i3 where i3: "ans3 = Some i3" by blast
  have D: "(res, pd') = (if i1 \<noteq> '''' then (Dispatched i1, pd1) else if i3 \<noteq> '''' then (Dispatched i3, pd3) else (AllConsumersBusy, enqueue offset env pd3))"
    using assms(2) False t1 t3 i1 i3 f(1) by (simp add: pd_Dispatch_def level_of_def enqueue_def Let_def split: if_splits)
  have ids: "qc_ID ` set (pd_consumers pd2) = qc_ID ` set (pd_consumers pd)"
    using taken_ids [OF taken_trans [OF T1(4) f(3)]] by (metis set_map)
  have tk: "taken (pd_consumers pd) (pd_consumers pd3)" using taken_trans [OF T1(4) taken_trans [OF f(3) T3(4)]] .
  have "if full pd then res = AllConsumersBusy \<and> full pd' \<and> waiting pd' = wait_in (unat (level_of env)) (offset, env) (waiting pd)
       else (\<exists>i. res = Dispatched i) \<and> pd_levels pd' = pd_levels pd" if named: "all_named pd"
  proof (cases "full pd")
    case True
    then have 1: "i1 = ''''" "pd_consumers pd1 = pd_consumers pd" using T1(6) [OF named] i1 by simp_all
    have n1: "all_named pd1" "full pd1" using named True 1(2) full_cong [of pd1 pd] by (simp_all add: all_named_def)
    then have 2: "pd_consumers pd2 = pd_consumers pd" "waiting pd2 = waiting pd1" using f(4) 1(2) by (simp_all add: placed_def)
    have n2: "all_named pd2" "full pd2" using named True 2(1) full_cong [of pd2 pd] by (simp_all add: all_named_def)
    then have 3: "i3 = ''''" "pd_consumers pd3 = pd_consumers pd" using T3(6) i3 2(1) by simp_all
    have "waiting pd3 = waiting pd" using 2(2) T1(3) T3(3) by (simp add: waiting_def)
    moreover have "full (enqueue offset env pd3)" using True 3(2) full_cong [of pd3 pd] by (simp add: full_def)
    ultimately show ?thesis using D 1(1) 3(1) True T3(1) by (simp add: waiting_enqueue)
  next
    case False
    then show ?thesis using T1(3,6) named i1 D by simp
  qed
  then show ?thesis using D T1 T3 f ids tk False i1 i3 by (auto split: if_splits)
qed

lemma NewPriorityDispatcher_ok: "pd_ok NewPriorityDispatcher" "waiting NewPriorityDispatcher = []"
  by (auto simp: pd_ok_def NewPriorityDispatcher_def idx_ok_def core_def unlimited_def max_priority_def waiting_def waiting_below_def)

lemma pd_AddConsumer_ok:
  assumes "pd_ok pd"
  shows "pd_ok (snd (pd_AddConsumer c now pd))" "fst (pd_AddConsumer c now pd)" "taken (pd_consumers pd @ [c]) (pd_consumers (snd (pd_AddConsumer c now pd)))"
    "all_named (pd_added c pd) \<Longrightarrow> placed offset_of (waiting pd) (pd_added c pd) (waiting (snd (pd_AddConsumer c now pd))) (snd (pd_AddConsumer c now pd))"
  using flushQueued_ok [OF pd_added_ok [OF assms], of now c] by (auto simp: pd_AddConsumer_eq waiting_def)

interpretation priority_dispatcher: dispatching pd_consumers pd_ok NewPriorityDispatcher pd_Dispatch "\<lambda>c now pd. snd (pd_AddConsumer c now pd)" pd_RemoveConsumer
proof
  show "pd_ok NewPriorityDispatcher" "pd_consumers NewPriorityDispatcher = []"
    using NewPriorityDispatcher_ok by (simp_all add: NewPriorityDispatcher_def)
  show "pd_ok pd' \<and> res \<noteq> IndexPanic \<and> taken (pd_consumers pd) (pd_consumers pd')"
    if "pd_ok pd" "pd_Dispatch offset env now pd = (res, pd')" for pd offset env now res pd'
    using pd_Dispatch_ok [OF that] by auto
  show "i \<in> qc_ID ` set (pd_consumers pd)" if "pd_ok pd" "pd_Dispatch offset env now pd = (Dispatched i, pd')" for pd offset env now i pd'
    using pd_Dispatch_ok [OF that] by simp
  show "pd_ok (snd (pd_AddConsumer c now pd)) \<and> taken (pd_consumers pd @ [c]) (pd_consumers (snd (pd_AddConsumer c now pd)))" if "pd_ok pd" for c now pd
    using pd_AddConsumer_ok [OF that] by blast
  show "pd_ok (pd_RemoveConsumer i pd) \<and> pd_consumers (pd_RemoveConsumer i pd) = remove_id i (pd_consumers pd)" if "pd_ok pd" for i pd
    using pd_removed_ok [OF that] by simp
qed

text \<open>Runs of each dispatcher.\<close>

definition plain_run :: "dispatcher_op list \<Rightarrow> Dispatcher" where
  "plain_run ops = fold (dispatcher_do (\<lambda>offset env. Dispatch offset) (\<lambda>c now. dp_AddConsumer c) dp_RemoveConsumer) ops (qs_dispatcher new_queue)"

definition priority_run :: "dispatcher_op list \<Rightarrow> PriorityDispatcher" where
  "priority_run ops = fold (dispatcher_do pd_Dispatch (\<lambda>c now pd. snd (pd_AddConsumer c now pd)) pd_RemoveConsumer) ops NewPriorityDispatcher"

text \<open>C30: With either dispatcher, whatever consumers come and go and whatever is dispatched, no consumer ever has more messages
  in flight than its prefetch limit, no dispatch runs out of the list of consumers, and a message is given to a consumer of the queue.\<close>

theorem dispatchers_respect_limits:
  assumes "adds within_limit ops"
  shows "(\<forall>c\<in>set (dp_consumers (plain_run ops)). within_limit c) \<and>
    (\<forall>c\<in>set (pd_consumers (priority_run ops)). within_limit c) \<and>
    fst (Dispatch offset now (plain_run ops)) \<noteq> IndexPanic \<and> fst (pd_Dispatch offset env now (priority_run ops)) \<noteq> IndexPanic \<and>
    (\<forall>i. fst (Dispatch offset now (plain_run ops)) = Dispatched i \<longrightarrow> i \<in> qc_ID ` set (dp_consumers (plain_run ops))) \<and>
    (\<forall>i. fst (pd_Dispatch offset env now (priority_run ops)) = Dispatched i \<longrightarrow> i \<in> qc_ID ` set (pd_consumers (priority_run ops)))"
proof (intro conjI)
  note p = plain_dispatcher.ok_in_runs [of ops, folded plain_run_def] and q = priority_dispatcher.ok_in_runs [of ops, folded priority_run_def]
  show "\<forall>c\<in>set (dp_consumers (plain_run ops)). within_limit c" unfolding plain_run_def by (rule plain_dispatcher.limits_in_runs [OF assms])
  show "\<forall>c\<in>set (pd_consumers (priority_run ops)). within_limit c" unfolding priority_run_def by (rule priority_dispatcher.limits_in_runs [OF assms])
  show "fst (Dispatch offset now (plain_run ops)) \<noteq> IndexPanic" "fst (pd_Dispatch offset env now (priority_run ops)) \<noteq> IndexPanic"
    using plain_dispatcher.dispatch_ok [OF p prod.collapse [symmetric]] priority_dispatcher.dispatch_ok [OF q prod.collapse [symmetric]] by blast+
  show "\<forall>i. fst (Dispatch offset now (plain_run ops)) = Dispatched i \<longrightarrow> i \<in> qc_ID ` set (dp_consumers (plain_run ops))"
    using plain_dispatcher.dispatch_who [OF p] by (metis prod.collapse)
  show "\<forall>i. fst (pd_Dispatch offset env now (priority_run ops)) = Dispatched i \<longrightarrow> i \<in> qc_ID ` set (pd_consumers (priority_run ops))"
    using priority_dispatcher.dispatch_who [OF q] by (metis prod.collapse)
qed

text \<open>No message waits while a consumer has room.\<close>

definition work_conserving :: "PriorityDispatcher \<Rightarrow> bool" where
  "work_conserving pd \<longleftrightarrow> pd_ok pd \<and> all_named pd \<and> (waiting pd \<noteq> [] \<longrightarrow> full pd)"

lemma placed_conserves: "placed off ms pd ms' pd' \<Longrightarrow> ms' \<noteq> [] \<Longrightarrow> full pd'"
  using full_cong [of pd' pd] by (auto simp: placed_def split: if_splits)

lemma full_no_consumers: "pd_consumers pd = [] \<Longrightarrow> full pd"
  by (simp add: full_def)

lemma work_conserving_step:
  assumes "work_conserving pd" and "\<And>c now. op = DAdd c now \<Longrightarrow> qc_ID c \<noteq> ''''"
  shows "work_conserving (dispatcher_do pd_Dispatch (\<lambda>c now pd. snd (pd_AddConsumer c now pd)) pd_RemoveConsumer op pd)"
proof (cases op)
  case (DAdd c now)
  have n: "all_named (pd_added c pd)" using assms DAdd by (auto simp: work_conserving_def all_named_def)
  note A = pd_AddConsumer_ok [of pd c now]
  have "all_named (snd (pd_AddConsumer c now pd))"
    using all_named_taken [of "pd_added c pd" "snd (pd_AddConsumer c now pd)"] A(3) assms(1) n by (simp add: work_conserving_def)
  then show ?thesis using A(1) placed_conserves [OF A(4)] n DAdd assms(1) by (auto simp: work_conserving_def)
next
  case (DRemove i)
  then show ?thesis using assms(1) pd_removed_ok [of pd i] set_remove_id [of i "pd_consumers pd"]
    by (auto simp: work_conserving_def all_named_def full_def waiting_def)
next
  case (DDispatch offset env now)
  obtain res pd' where d: "pd_Dispatch offset env now pd = (res, pd')" by fastforce
  have ok: "pd_ok pd" "all_named pd" using assms(1) by (simp_all add: work_conserving_def)
  note D = pd_Dispatch_ok [OF ok(1) d]
  have n: "all_named pd'" using D all_named_taken [of pd pd'] ok(2) by blast
  show ?thesis
  proof (cases "pd_consumers pd = []")
    case True
    then have "pd' = pd" using d by (simp add: pd_Dispatch_def)
    then show ?thesis using assms(1) DDispatch d by simp
  next
    case False
    then show ?thesis using D n ok DDispatch d assms(1) by (auto simp: work_conserving_def waiting_def split: if_splits)
  qed
qed

lemma work_conserving_run: "adds (\<lambda>c. qc_ID c \<noteq> '''') ops \<Longrightarrow> work_conserving (priority_run ops)"
proof -
  have "work_conserving pd \<Longrightarrow> adds (\<lambda>c. qc_ID c \<noteq> '''') ops \<Longrightarrow>
    work_conserving (fold (dispatcher_do pd_Dispatch (\<lambda>c now pd. snd (pd_AddConsumer c now pd)) pd_RemoveConsumer) ops pd)" for pd
  proof (induction ops arbitrary: pd)
    case (Cons op ops)
    have "work_conserving (dispatcher_do pd_Dispatch (\<lambda>c now pd. snd (pd_AddConsumer c now pd)) pd_RemoveConsumer op pd)"
      by (rule work_conserving_step [OF Cons.prems(1)]) (use Cons.prems(2) in \<open>auto simp: adds_def\<close>)
    moreover have "adds (\<lambda>c. qc_ID c \<noteq> '''') ops" using Cons.prems(2) by (auto simp: adds_def)
    ultimately show ?case using Cons.IH by simp
  qed simp
  moreover have "work_conserving NewPriorityDispatcher"
    using NewPriorityDispatcher_ok by (simp add: work_conserving_def all_named_def NewPriorityDispatcher_def)
  ultimately show "adds (\<lambda>c. qc_ID c \<noteq> '''') ops \<Longrightarrow> work_conserving (priority_run ops)" by (simp add: priority_run_def)
qed

text \<open>C31: The dispatcher with priorities is a queue ordered by level and then by arrival: while a consumer has room no message
  waits; a message that no consumer has room for waits behind those of its level and of higher ones; and a new consumer is
  given messages from the front, until none waits or no consumer has room.\<close>

theorem priority_queue_order:
  assumes "adds (\<lambda>c. qc_ID c \<noteq> '''') ops" and "pd = priority_run ops" and "pd_consumers pd \<noteq> []" and "qc_ID c \<noteq> ''''"
  shows "(waiting pd \<noteq> [] \<longrightarrow> full pd) \<and>
    (case pd_Dispatch offset env now pd of (res, pd') \<Rightarrow>
       if full pd then res = AllConsumersBusy \<and> waiting pd' = wait_in (unat (level_of env)) (offset, env) (waiting pd)
       else (\<exists>i. res = Dispatched i) \<and> waiting pd' = []) \<and>
    (\<exists>k. waiting (snd (pd_AddConsumer c now pd)) = drop k (waiting pd) \<and>
       offset_of ` set (take k (waiting pd)) \<subseteq> held (pd_consumers (snd (pd_AddConsumer c now pd))) \<and>
       (k < length (waiting pd) \<longrightarrow> full (snd (pd_AddConsumer c now pd))))"
proof -
  have w: "work_conserving pd" using work_conserving_run [OF assms(1)] assms(2) by simp
  then have ok: "pd_ok pd" "all_named pd" "waiting pd \<noteq> [] \<longrightarrow> full pd" by (simp_all add: work_conserving_def)
  obtain res pd' where d: "pd_Dispatch offset env now pd = (res, pd')" by fastforce
  note D = pd_Dispatch_ok [OF ok(1) d]
  have "all_named (pd_added c pd)" using ok(2) assms(4) by (simp add: all_named_def)
  note A = pd_AddConsumer_ok(4) [OF ok(1) this, of now]
  have "\<exists>k. waiting (snd (pd_AddConsumer c now pd)) = drop k (waiting pd) \<and>
      offset_of ` set (take k (waiting pd)) \<subseteq> held (pd_consumers (snd (pd_AddConsumer c now pd))) \<and>
      (k < length (waiting pd) \<longrightarrow> full (snd (pd_AddConsumer c now pd)))"
  proof (cases "full (pd_added c pd)")
    case True
    then have "waiting (snd (pd_AddConsumer c now pd)) = waiting pd" "full (snd (pd_AddConsumer c now pd))"
      using A full_cong [of "snd (pd_AddConsumer c now pd)" "pd_added c pd"] by (simp_all add: placed_def)
    then show ?thesis by (intro exI [of _ 0]) simp
  next
    case False
    then show ?thesis using A by (simp add: placed_def)
  qed
  moreover have "waiting pd' = waiting pd" if "pd_levels pd' = pd_levels pd" using that by (simp add: waiting_def)
  ultimately show ?thesis using D ok assms(3) d by auto
qed

text \<open>A consumer for one message, and two messages of different priorities.\<close>

definition one_place :: QueueConsumer where
  "one_place = \<lparr>qc_ID = ''c1'', qc_Prefetch = 1, qc_InFlight = []\<rparr>"

definition busy_ops :: "dispatcher_op list" where
  "busy_ops = [DAdd one_place 0, DDispatch 0 zero_envelope 1, DDispatch 1 (zero_envelope\<lparr>Priority := 2\<rparr>) 2]"

lemma adds_simps [simp]: "adds P []" "adds P (op # ops) \<longleftrightarrow> (\<forall>c now. op = DAdd c now \<longrightarrow> P c) \<and> adds P ops"
  by (auto simp: adds_def)

theorem dispatchers_respect_limits_witness:
  "adds within_limit busy_ops \<and> list_all within_limit (dp_consumers (plain_run busy_ops)) \<and>
   list_all within_limit (pd_consumers (priority_run busy_ops)) \<and> fst (pd_Dispatch 9 zero_envelope 4 (priority_run busy_ops)) \<noteq> IndexPanic"
proof -
  have "adds within_limit busy_ops" by (auto simp: busy_ops_def within_limit_def one_place_def)
  with dispatchers_respect_limits [OF this, of 9 4 zero_envelope] show ?thesis by (simp add: list_all_iff)
qed

lemma busy_run: "map (map fst) (pd_levels (priority_run busy_ops)) = [[], [], [1], [], [], [], [], [], [], []]"
  "map (map fst \<circ> qc_InFlight) (pd_consumers (priority_run busy_ops)) = [[0]]"
  by code_simp+

lemma waits_one: "map offset_of (waiting (priority_run busy_ops)) = [1]"
  by code_simp

theorem priority_queue_order_witness:
  "waiting (priority_run busy_ops) \<noteq> [] \<and> full (priority_run busy_ops) \<and>
   (\<exists>k. waiting (snd (pd_AddConsumer (one_place\<lparr>qc_ID := ''c2''\<rparr>) 3 (priority_run busy_ops))) = drop k (waiting (priority_run busy_ops)))"
proof -
  have a: "adds (\<lambda>c. qc_ID c \<noteq> '''') busy_ops" by (simp add: busy_ops_def one_place_def)
  have n: "pd_consumers (priority_run busy_ops) \<noteq> []" using busy_run(2) by auto
  have c: "qc_ID (one_place\<lparr>qc_ID := ''c2''\<rparr>) \<noteq> ''''" by simp
  have w: "waiting (priority_run busy_ops) \<noteq> []" using waits_one by auto
  show ?thesis using priority_queue_order [OF a refl n c] w by blast
qed

end
