(* ===== verification/Delay_Queue.thy ===== *)
theory Delay_Queue
  imports Queue_Engine "HOL-Library.Multiset"
begin

text \<open>
  \<^verbatim>\<open>internal/engine/queue/delay.go\<close> and \<^verbatim>\<open>delay_drain.go\<close>: messages to be delivered later wait in a heap until a tick of the scheduler finds
  them due.  The heap is the one of Go's \<^verbatim>\<open>container/heap\<close>, on a list; times are in nanoseconds, a channel is the list of what it holds.
\<close>

section \<open>The heap of the standard library\<close>

record delayedMsg =
  dm_deliverAt :: int
  dm_envelope :: Envelope

type_synonym delayHeap = "delayedMsg list"

definition Less :: "delayHeap \<Rightarrow> nat \<Rightarrow> nat \<Rightarrow> bool" where
  "Less h i j \<longleftrightarrow> dm_deliverAt (h ! i) < dm_deliverAt (h ! j)"

definition Swap :: "delayHeap \<Rightarrow> nat \<Rightarrow> nat \<Rightarrow> delayHeap" where
  "Swap h i j = h[i := h ! j, j := h ! i]"

function heap_up :: "delayHeap \<Rightarrow> nat \<Rightarrow> delayHeap" where
  "heap_up h j = (let i = (j - 1) div 2 in if i = j \<or> \<not> Less h j i then h else heap_up (Swap h i j) i)"
  by pat_completeness auto
termination by (relation "measure snd") auto

function heap_down :: "delayHeap \<Rightarrow> nat \<Rightarrow> nat \<Rightarrow> delayHeap" where
  "heap_down h i n = (let j1 = 2 * i + 1 in if j1 \<ge> n then h
     else let j2 = j1 + 1; j = (if j2 < n \<and> Less h j2 j1 then j2 else j1)
       in if \<not> Less h j i then h else heap_down (Swap h i j) j n)"
  by pat_completeness auto
termination by (relation "measure (\<lambda>(h, i, n). n - i)") (auto split: if_splits)

declare heap_up.simps [simp del] heap_down.simps [simp del]

definition heap_Push :: "delayedMsg \<Rightarrow> delayHeap \<Rightarrow> delayHeap" where
  "heap_Push x h = heap_up (h @ [x]) (length h)"

definition heap_Pop :: "delayHeap \<Rightarrow> delayedMsg \<times> delayHeap" where
  "heap_Pop h = (let n = length h - 1; h = heap_down (Swap h 0 n) 0 n in (h ! n, take n h))"

section \<open>The scheduler\<close>

record DelayScheduler =
  ds_heap :: delayHeap
  ds_readyCh :: "Envelope list"

definition NewDelayScheduler :: DelayScheduler where
  "NewDelayScheduler = \<lparr>ds_heap = [], ds_readyCh = []\<rparr>"

definition Schedule :: "Envelope \<Rightarrow> DelayScheduler \<Rightarrow> DelayScheduler" where
  "Schedule env ds = ds\<lparr>ds_heap := heap_Push \<lparr>dm_deliverAt = sint (DeliverAt env), dm_envelope = env\<rparr> (ds_heap ds)\<rparr>"

lemma length_Swap [simp]: "length (Swap h i j) = length h"
  by (simp add: Swap_def)

lemma length_heap_down: "length (heap_down h i n) = length h"
  by (induction h i n rule: heap_down.induct) (subst heap_down.simps, simp add: Let_def)

text \<open>A tick: the messages that are due go to the channel, or nowhere when it is full.\<close>

function promote :: "int \<Rightarrow> DelayScheduler \<Rightarrow> DelayScheduler" where
  "promote now ds =
     (if ds_heap ds \<noteq> [] \<and> dm_deliverAt (ds_heap ds ! 0) < now
      then let (item, h) = heap_Pop (ds_heap ds); ds = ds\<lparr>ds_heap := h\<rparr>
        in promote now (if length (ds_readyCh ds) < 10000 then ds\<lparr>ds_readyCh := ds_readyCh ds @ [dm_envelope item]\<rparr> else ds)
      else ds)"
  by pat_completeness auto
termination
  by (relation "measure (length \<circ> ds_heap \<circ> snd)") (auto simp: heap_Pop_def Let_def length_heap_down split: if_splits)

declare promote.simps [simp del]

section \<open>The engine\<close>

definition ScheduleDelayed_at :: "string \<Rightarrow> Envelope \<Rightarrow> queue_engine \<times> (string \<Rightarrow> DelayScheduler option) \<Rightarrow>
    queue_engine \<times> (string \<Rightarrow> DelayScheduler option)" where
  "ScheduleDelayed_at topic env = (\<lambda>(e, delays).
     (if e topic = None then e(topic \<mapsto> new_queue) else e,
      delays(topic \<mapsto> Schedule env (case delays topic of None \<Rightarrow> NewDelayScheduler | Some ds \<Rightarrow> ds))))"

text \<open>One round of the loop that takes messages from the channel.\<close>

definition drain_one :: "int \<Rightarrow> QueueState \<times> DelayScheduler \<Rightarrow> QueueState \<times> DelayScheduler" where
  "drain_one now = (\<lambda>(qs, ds). case ds_readyCh ds of [] \<Rightarrow> (qs, ds)
     | env # rest \<Rightarrow> let ds = ds\<lparr>ds_readyCh := rest\<rparr>; env = env\<lparr>DeliverAt := 0\<rparr>
         in if qs_consumers qs = [] then (qs, Schedule (env\<lparr>DeliverAt := 1\<rparr>) ds)
            else let offset = unat (Sequence env) in (case Dispatch offset now (qs_dispatcher qs) of
              (Dispatched consumerID, dp) \<Rightarrow> (qs\<lparr>qs_dispatcher := dp,
                 qs_ackTracker := Track offset consumerID now (DeliverCount env) (MaxRetries env) (qs_ackTracker qs)\<rparr>, ds)
            | (err, dp) \<Rightarrow> (qs\<lparr>qs_dispatcher := dp\<rparr>, ds)))"

section \<open>Lemmas\<close>

definition heap_ok :: "delayHeap \<Rightarrow> bool" where
  "heap_ok h \<longleftrightarrow> (\<forall>k < length h. 0 < k \<longrightarrow> dm_deliverAt (h ! ((k - 1) div 2)) \<le> dm_deliverAt (h ! k))"

lemma mset_Swap: "i < length h \<Longrightarrow> j < length h \<Longrightarrow> mset (Swap h i j) = mset h"
  unfolding Swap_def by (rule mset_swap)

lemma nth_Swap: "i < length h \<Longrightarrow> j < length h \<Longrightarrow> Swap h i j ! k = (if k = j then h ! i else if k = i then h ! j else h ! k)"
  by (auto simp: Swap_def nth_list_update)

text \<open>While an entry moves up: only the entry at \<open>j\<close> may be smaller than its parent.\<close>

definition up_inv :: "delayHeap \<Rightarrow> nat \<Rightarrow> bool" where
  "up_inv h j \<longleftrightarrow> j < length h \<and>
     (\<forall>k < length h. 0 < k \<longrightarrow> k \<noteq> j \<longrightarrow> dm_deliverAt (h ! ((k - 1) div 2)) \<le> dm_deliverAt (h ! k)) \<and>
     (\<forall>k < length h. 0 < k \<longrightarrow> 0 < j \<longrightarrow> (k - 1) div 2 = j \<longrightarrow> dm_deliverAt (h ! ((j - 1) div 2)) \<le> dm_deliverAt (h ! k))"

lemma up_inv_step:
  assumes "up_inv h j" and "i = (j - 1) div 2" and "i \<noteq> j" and "Less h j i"
  shows "up_inv (Swap h i j) i"
proof -
  have j: "j < length h" "0 < j" "i < length h" "i < j" using assms by (auto simp: up_inv_def)
  note n = nth_Swap [OF j(3,1)]
  have le: "dm_deliverAt (h ! ((k - 1) div 2)) \<le> dm_deliverAt (h ! k)" if "k < length h" "0 < k" "k \<noteq> j" for k
    using assms(1) that by (simp add: up_inv_def)
  have le2: "dm_deliverAt (h ! i) \<le> dm_deliverAt (h ! k)" if "k < length h" "0 < k" "(k - 1) div 2 = j" for k
    using assms(1,2) that j(2) by (simp add: up_inv_def)
  have lt: "dm_deliverAt (h ! j) < dm_deliverAt (h ! i)" using assms(4) by (simp add: Less_def)
  have 1: "dm_deliverAt (Swap h i j ! ((k - 1) div 2)) \<le> dm_deliverAt (Swap h i j ! k)" if k: "k < length h" "0 < k" "k \<noteq> i" for k
  proof (cases "k = j")
    case True
    then have p: "(k - 1) div 2 = i" using assms(2) by simp
    have "dm_deliverAt (Swap h i j ! i) \<le> dm_deliverAt (Swap h i j ! j)" using lt assms(3) by (simp add: n)
    then show ?thesis unfolding p unfolding True .
  next
    case False
    then show ?thesis using le [OF k(1,2) False] le2 [OF k(1,2)] lt k(3) by (auto simp: n)
  qed
  have 2: "dm_deliverAt (Swap h i j ! ((i - 1) div 2)) \<le> dm_deliverAt (Swap h i j ! k)" if k: "k < length h" "0 < k" "0 < i" "(k - 1) div 2 = i" for k
  proof -
    have p: "(i - 1) div 2 \<noteq> i" "(i - 1) div 2 \<noteq> j" "k \<noteq> i" using k j(4) by linarith+
    have "dm_deliverAt (h ! ((i - 1) div 2)) \<le> dm_deliverAt (h ! i)" using le [of i] k(3) j by simp
    then show ?thesis using p le [OF k(1,2)] k(4) by (auto simp: n)
  qed
  show ?thesis using 1 2 j(3) by (simp add: up_inv_def)
qed

lemma heap_up_ok: "up_inv h j \<Longrightarrow> heap_ok (heap_up h j) \<and> mset (heap_up h j) = mset h"
proof (induction h j rule: heap_up.induct)
  case (1 h j)
  let ?i = "(j - 1) div 2"
  show ?case
  proof (cases "?i = j \<or> \<not> Less h j ?i")
    case True
    then have "heap_up h j = h" by (subst heap_up.simps) (simp add: Let_def)
    moreover have "dm_deliverAt (h ! ?i) \<le> dm_deliverAt (h ! j)" if "0 < j" using True that by (auto simp: Less_def)
    then have "heap_ok h" using 1(2) by (auto simp: up_inv_def heap_ok_def)
    ultimately show ?thesis by simp
  next
    case False
    then have "heap_up h j = heap_up (Swap h ?i j) ?i" by (subst heap_up.simps) (simp add: Let_def)
    moreover have "up_inv (Swap h ?i j) ?i" using up_inv_step [OF 1(2) refl] False by simp
    moreover have "mset (Swap h ?i j) = mset h" using 1(2) by (intro mset_Swap) (auto simp: up_inv_def)
    ultimately show ?thesis using 1(1) [OF refl False] by simp
  qed
qed

text \<open>While an entry moves down, among the first \<open>n\<close>: only the entry at \<open>i\<close> may be larger than its children.\<close>

definition down_inv :: "delayHeap \<Rightarrow> nat \<Rightarrow> nat \<Rightarrow> bool" where
  "down_inv h i n \<longleftrightarrow> n \<le> length h \<and>
     (\<forall>k<n. 0 < k \<longrightarrow> (k - 1) div 2 \<noteq> i \<longrightarrow> dm_deliverAt (h ! ((k - 1) div 2)) \<le> dm_deliverAt (h ! k)) \<and>
     (\<forall>k<n. 0 < k \<longrightarrow> 0 < i \<longrightarrow> (k - 1) div 2 = i \<longrightarrow> dm_deliverAt (h ! ((i - 1) div 2)) \<le> dm_deliverAt (h ! k))"

definition smaller_child :: "delayHeap \<Rightarrow> nat \<Rightarrow> nat \<Rightarrow> nat" where
  "smaller_child h i n = (if 2 * i + 2 < n \<and> Less h (2 * i + 2) (2 * i + 1) then 2 * i + 2 else 2 * i + 1)"

lemma heap_down_unfold:
  "heap_down h i n = (if 2 * i + 1 \<ge> n \<or> \<not> Less h (smaller_child h i n) i then h
     else heap_down (Swap h i (smaller_child h i n)) (smaller_child h i n) n)"
  by (subst heap_down.simps) (simp add: Let_def smaller_child_def)

lemma children: "0 < k \<Longrightarrow> (k - 1) div 2 = i \<longleftrightarrow> k = 2 * i + 1 \<or> k = 2 * i + 2" for k i :: nat
  by presburger

lemma smaller_child_le:
  "2 * i + 1 < n \<Longrightarrow> k < n \<Longrightarrow> 0 < k \<Longrightarrow> (k - 1) div 2 = i \<Longrightarrow> dm_deliverAt (h ! smaller_child h i n) \<le> dm_deliverAt (h ! k)"
  unfolding children [of k i] by (auto simp: smaller_child_def Less_def)

lemma smaller_child_props: "2 * i + 1 < n \<Longrightarrow> smaller_child h i n < n \<and> (smaller_child h i n - 1) div 2 = i \<and> i < smaller_child h i n"
  by (auto simp: smaller_child_def)

lemma down_inv_step:
  assumes "down_inv h i n" and "2 * i + 1 < n" and "j = smaller_child h i n" and "Less h j i"
  shows "down_inv (Swap h i j) j n"
proof -
  have j: "j < n" "(j - 1) div 2 = i" "i < j" "n \<le> length h" using smaller_child_props [OF assms(2), of h] assms(1,3) by (auto simp: down_inv_def)
  then have l: "i < length h" "j < length h" by simp_all
  note n = nth_Swap [OF l]
  have le: "dm_deliverAt (h ! ((k - 1) div 2)) \<le> dm_deliverAt (h ! k)" if "k < n" "0 < k" "(k - 1) div 2 \<noteq> i" for k
    using assms(1) that by (simp add: down_inv_def)
  have le2: "dm_deliverAt (h ! ((i - 1) div 2)) \<le> dm_deliverAt (h ! j)" if "0 < i" using assms(1) that j by (auto simp: down_inv_def)
  have lt: "dm_deliverAt (h ! j) < dm_deliverAt (h ! i)" using assms(4) by (simp add: Less_def)
  have small: "dm_deliverAt (h ! j) \<le> dm_deliverAt (h ! k)" if "k < n" "0 < k" "(k - 1) div 2 = i" for k
    using smaller_child_le [OF assms(2) that] assms(3) by simp
  have 1: "dm_deliverAt (Swap h i j ! ((k - 1) div 2)) \<le> dm_deliverAt (Swap h i j ! k)" if k: "k < n" "0 < k" "(k - 1) div 2 \<noteq> j" for k
  proof (cases "(k - 1) div 2 = i")
    case True
    then show ?thesis using small [OF k(1,2)] lt j(3) k(2) by (auto simp: n)
  next
    case False
    then have "k \<noteq> j" using j(2) by blast
    then show ?thesis using False le [OF k(1,2)] le2 k by (auto simp: n)
  qed
  have 2: "dm_deliverAt (Swap h i j ! ((j - 1) div 2)) \<le> dm_deliverAt (Swap h i j ! k)" if k: "k < n" "0 < k" "(k - 1) div 2 = j" for k
  proof -
    have "k \<noteq> i" "k \<noteq> j" using k j(3) by linarith+
    then show ?thesis using le [OF k(1,2)] k(3) j(2,3) by (auto simp: n)
  qed
  show ?thesis using 1 2 j(4) by (simp add: down_inv_def)
qed

lemma heap_down_ok:
  "down_inv h i n \<Longrightarrow> mset (heap_down h i n) = mset h \<and> (\<forall>k\<ge>n. i < n \<longrightarrow> heap_down h i n ! k = h ! k) \<and>
     (\<forall>k<n. 0 < k \<longrightarrow> dm_deliverAt (heap_down h i n ! ((k - 1) div 2)) \<le> dm_deliverAt (heap_down h i n ! k))"
proof (induction "n - i" arbitrary: h i rule: less_induct)
  case less
  let ?j = "smaller_child h i n"
  show ?case
  proof (cases "2 * i + 1 \<ge> n \<or> \<not> Less h ?j i")
    case True
    have "dm_deliverAt (h ! i) \<le> dm_deliverAt (h ! k)" if k: "k < n" "0 < k" "(k - 1) div 2 = i" for k
    proof -
      have b: "2 * i + 1 < n" using k by (auto simp: children)
      then have "dm_deliverAt (h ! i) \<le> dm_deliverAt (h ! ?j)" using True by (simp add: Less_def)
      then show ?thesis using smaller_child_le [OF b k, of h] by simp
    qed
    then have "\<forall>k<n. 0 < k \<longrightarrow> dm_deliverAt (h ! ((k - 1) div 2)) \<le> dm_deliverAt (h ! k)" using less.prems by (auto simp: down_inv_def)
    then show ?thesis using True by (subst (1 2 3 4) heap_down_unfold) simp
  next
    case False
    then have b: "2 * i + 1 < n" "Less h ?j i" by simp_all
    note p = smaller_child_props [OF b(1), of h]
    have len: "n \<le> length h" using less.prems by (simp add: down_inv_def)
    then have l: "i < length h" "?j < length h" using p by auto
    have e: "heap_down h i n = heap_down (Swap h i ?j) ?j n" using False by (subst heap_down_unfold) simp
    have "Swap h i ?j ! k = h ! k" if "n \<le> k" for k using that p by (auto simp: nth_Swap [OF l])
    with less.hyps [of ?j "Swap h i ?j"] down_inv_step [OF less.prems b(1) refl b(2)] p mset_Swap [OF l] show ?thesis
      unfolding e by auto
  qed
qed

lemma heap_Push_ok:
  assumes "heap_ok h"
  shows "heap_ok (heap_Push x h) \<and> mset (heap_Push x h) = add_mset x (mset h)"
proof -
  have "(k - 1) div 2 < length h" if "k < length h" for k using that by linarith
  then have "up_inv (h @ [x]) (length h)"
    using assms by (auto simp: up_inv_def heap_ok_def nth_append)
  from heap_up_ok [OF this] show ?thesis by (simp add: heap_Push_def)
qed

lemma heap_least: "heap_ok h \<Longrightarrow> k < length h \<Longrightarrow> dm_deliverAt (h ! 0) \<le> dm_deliverAt (h ! k)"
proof (induction k rule: less_induct)
  case (less k)
  show ?case
  proof (cases "k = 0")
    case False
    then have p: "(k - 1) div 2 < k" by linarith
    then have "dm_deliverAt (h ! 0) \<le> dm_deliverAt (h ! ((k - 1) div 2))" using less by simp
    also have "\<dots> \<le> dm_deliverAt (h ! k)" using less.prems False by (simp add: heap_ok_def)
    finally show ?thesis .
  qed simp
qed

lemma heap_least_mset: "heap_ok h \<Longrightarrow> y \<in># mset h \<Longrightarrow> dm_deliverAt (h ! 0) \<le> dm_deliverAt y"
  using heap_least by (auto simp: in_set_conv_nth)

lemma heap_Pop_ok:
  assumes "heap_ok h" and "h \<noteq> []" and "heap_Pop h = (x, h')"
  shows "x = h ! 0 \<and> mset h = add_mset x (mset h') \<and> heap_ok h'"
proof -
  obtain n where n: "length h = Suc n" using assms(2) by (cases h) auto
  let ?g = "heap_down (Swap h 0 n) 0 n"
  have l: "0 < length h" "n < length h" using n by simp_all
  note sw = nth_Swap [OF l]
  have "down_inv (Swap h 0 n) 0 n"
  proof -
    have "dm_deliverAt (Swap h 0 n ! ((k - 1) div 2)) \<le> dm_deliverAt (Swap h 0 n ! k)" if "k < n" "0 < k" "(k - 1) div 2 \<noteq> 0" for k
    proof -
      have "(k - 1) div 2 < n" using that(1) by linarith
      then show ?thesis using that assms(1) by (simp add: sw n heap_ok_def)
    qed
    then show ?thesis by (simp add: down_inv_def n)
  qed
  note d = heap_down_ok [OF this]
  have x: "?g ! n = h ! 0"
  proof (cases "n = 0")
    case True
    then show ?thesis by (subst heap_down_unfold) (simp add: Swap_def)
  next
    case False
    then show ?thesis using d by (simp add: sw)
  qed
  have len: "length ?g = Suc n" using n by (simp add: length_heap_down)
  have "mset ?g = mset h" using d mset_Swap [OF l] by simp
  moreover have "?g = take n ?g @ [?g ! n]" using len by (metis lessI take_Suc_conv_app_nth take_all le_refl)
  ultimately have "mset h = add_mset (?g ! n) (mset (take n ?g))" by (metis mset_append mset_single_iff_right add_mset_add_single mset.simps union_commute)
  moreover have "heap_ok (take n ?g)"
    unfolding heap_ok_def
  proof (intro allI impI)
    fix k assume k: "k < length (take n ?g)" "0 < k"
    then have "k < n" "(k - 1) div 2 < n" by auto
    then show "dm_deliverAt (take n ?g ! ((k - 1) div 2)) \<le> dm_deliverAt (take n ?g ! k)" using d k(2) by simp
  qed
  ultimately show ?thesis using assms(3) x by (simp add: heap_Pop_def Let_def n)
qed

text \<open>What a tick does: exactly the messages that are due leave the heap, in the order of their times.\<close>

definition due :: "int \<Rightarrow> delayedMsg \<Rightarrow> bool" where
  "due now m \<longleftrightarrow> dm_deliverAt m < now"

lemma promote_ok:
  "heap_ok (ds_heap ds) \<Longrightarrow> \<exists>ms. sorted (map dm_deliverAt ms) \<and> mset ms = filter_mset (due now) (mset (ds_heap ds)) \<and>
     heap_ok (ds_heap (promote now ds)) \<and> mset (ds_heap (promote now ds)) = filter_mset (\<lambda>m. \<not> due now m) (mset (ds_heap ds)) \<and>
     ds_readyCh (promote now ds) = ds_readyCh ds @ take (10000 - length (ds_readyCh ds)) (map dm_envelope ms)"
proof (induction "length (ds_heap ds)" arbitrary: ds rule: less_induct)
  case less
  show ?case
  proof (cases "ds_heap ds \<noteq> [] \<and> dm_deliverAt (ds_heap ds ! 0) < now")
    case False
    have none: "\<not> due now m" if "m \<in># mset (ds_heap ds)" for m
      using False heap_least_mset [OF less.prems that] that by (auto simp: due_def)
    have "promote now ds = ds" by (subst promote.simps) (simp only: False if_False)
    moreover have "filter_mset (due now) (mset (ds_heap ds)) = {#}" "filter_mset (\<lambda>m. \<not> due now m) (mset (ds_heap ds)) = mset (ds_heap ds)"
      using none by (auto simp: multiset_eq_iff not_in_iff)
    ultimately show ?thesis using less.prems by (intro exI [of _ "[]"]) simp
  next
    case True
    obtain x h where p: "heap_Pop (ds_heap ds) = (x, h)" by fastforce
    note P = heap_Pop_ok [OF less.prems conjunct1 [OF True] p]
    let ?ready = "if length (ds_readyCh ds) < 10000 then ds_readyCh ds @ [dm_envelope x] else ds_readyCh ds"
    let ?ds = "ds\<lparr>ds_heap := h, ds_readyCh := ?ready\<rparr>"
    have e: "promote now ds = promote now ?ds" using True by (subst promote.simps) (simp add: p)
    have "length (ds_heap ds) = Suc (length h)" using P by (metis size_add_mset size_mset)
    then obtain ms where ms: "sorted (map dm_deliverAt ms)" "mset ms = filter_mset (due now) (mset h)" "heap_ok (ds_heap (promote now ?ds))"
      "mset (ds_heap (promote now ?ds)) = filter_mset (\<lambda>m. \<not> due now m) (mset h)"
      "ds_readyCh (promote now ?ds) = ?ready @ take (10000 - length ?ready) (map dm_envelope ms)"
      using less.hyps [of ?ds] P by auto
    have d: "due now x" using True P by (simp add: due_def)
    have first: "\<forall>m\<in>set ms. dm_deliverAt x \<le> dm_deliverAt m"
    proof
      fix m assume "m \<in> set ms"
      then have "m \<in># filter_mset (due now) (mset h)" using ms(2) by (metis set_mset_mset)
      then show "dm_deliverAt x \<le> dm_deliverAt m" using P heap_least_mset [OF less.prems, of m] by simp
    qed
    have "ds_readyCh (promote now ds) = ds_readyCh ds @ take (10000 - length (ds_readyCh ds)) (map dm_envelope (x # ms))"
      unfolding e ms(5) by (simp add: take_Cons')
    moreover have "sorted (map dm_deliverAt (x # ms))" using ms(1) first by auto
    moreover have "mset (x # ms) = filter_mset (due now) (mset (ds_heap ds))" using ms(2) P d by simp
    moreover have "mset (ds_heap (promote now ds)) = filter_mset (\<lambda>m. \<not> due now m) (mset (ds_heap ds))" using ms(4) P d unfolding e by simp
    ultimately show ?thesis using ms(3) unfolding e by blast
  qed
qed

text \<open>Runs of a scheduler: messages are scheduled, ticks pass, messages are taken from the channel.\<close>

datatype delay_op = DSchedule Envelope | DTick int | DReceive

fun delay_do :: "delay_op \<Rightarrow> DelayScheduler \<Rightarrow> DelayScheduler" where
  "delay_do (DSchedule env) ds = Schedule env ds"
| "delay_do (DTick now) ds = promote now ds"
| "delay_do DReceive ds = ds\<lparr>ds_readyCh := tl (ds_readyCh ds)\<rparr>"

lemma Schedule_ok: "heap_ok (ds_heap ds) \<Longrightarrow> heap_ok (ds_heap (Schedule env ds)) \<and>
    mset (ds_heap (Schedule env ds)) = add_mset \<lparr>dm_deliverAt = sint (DeliverAt env), dm_envelope = env\<rparr> (mset (ds_heap ds)) \<and>
    ds_readyCh (Schedule env ds) = ds_readyCh ds"
  using heap_Push_ok by (simp add: Schedule_def)

lemma delay_do_ok: "heap_ok (ds_heap ds) \<Longrightarrow> heap_ok (ds_heap (delay_do op ds))"
  using promote_ok by (cases op) (auto simp: Schedule_ok)

lemma delay_run_ok: "heap_ok (ds_heap (fold delay_do ops NewDelayScheduler))"
proof -
  have "heap_ok (ds_heap ds) \<Longrightarrow> heap_ok (ds_heap (fold delay_do ops ds))" for ds
    by (induction ops arbitrary: ds) (simp_all add: delay_do_ok)
  then show ?thesis by (simp add: NewDelayScheduler_def heap_ok_def)
qed

text \<open>C33: In every state of a scheduler a tick hands over exactly the scheduled messages whose time has passed, in the order of
  their times, as far as the channel has room, and keeps the others; the messages for which it has no room are lost.\<close>

theorem delayed_in_order:
  "let ds = fold delay_do ops NewDelayScheduler in \<exists>ms. sorted (map dm_deliverAt ms) \<and> mset ms = filter_mset (due now) (mset (ds_heap ds)) \<and>
    mset (ds_heap (promote now ds)) = filter_mset (\<lambda>m. \<not> due now m) (mset (ds_heap ds)) \<and>
    ds_readyCh (promote now ds) = ds_readyCh ds @ take (10000 - length (ds_readyCh ds)) (map dm_envelope ms)"
  using promote_ok [OF delay_run_ok [of ops], of now] by (auto simp: Let_def)

text \<open>C34: A delayed message is lost when its time comes while all consumers are busy: its publisher has been told success, it
  is in no log, and after the tick and the round of the loop it is neither scheduled nor pending nor in flight.\<close>

theorem delayed_lost_when_busy:
  assumes "Publish pe env tm = (Inr 0, env', tm', [ScheduleDelayed topic env2])"
    and "e topic = Some qs" and "qs_consumers qs \<noteq> []" and "idx_ok (qs_dispatcher qs)" and "\<forall>c\<in>set (dp_consumers (qs_dispatcher qs)). \<not> has_room c"
    and "delays topic = None" and "sint (DeliverAt env2) < now"
  shows "tm_storage tm' = tm_storage tm \<and>
    (\<exists>ds qs'. snd (ScheduleDelayed_at topic env2 (e, delays)) topic = Some ds \<and> env2 \<in> dm_envelope ` set (ds_heap ds) \<and>
      drain_one now2 (qs, promote now ds) = (qs', NewDelayScheduler) \<and> qs_ackTracker qs' = qs_ackTracker qs \<and>
      dp_consumers (qs_dispatcher qs') = dp_consumers (qs_dispatcher qs))"
proof -
  let ?m = "\<lparr>dm_deliverAt = sint (DeliverAt env2), dm_envelope = env2\<rparr>"
  let ?ds = "Schedule env2 NewDelayScheduler"
  have fresh: "heap_ok (ds_heap NewDelayScheduler)" by (simp add: NewDelayScheduler_def heap_ok_def)
  note S = Schedule_ok [OF fresh, of env2]
  have h: "ds_heap ?ds = [?m]" "ds_readyCh ?ds = []" using S by (simp_all add: NewDelayScheduler_def)
  obtain ms where "mset ms = filter_mset (due now) {#?m#}" "mset (ds_heap (promote now ?ds)) = filter_mset (\<lambda>m. \<not> due now m) {#?m#}"
    "ds_readyCh (promote now ?ds) = take 10000 (map dm_envelope ms)"
    using promote_ok [of ?ds now] S h by auto
  then have p: "ds_heap (promote now ?ds) = []" "ds_readyCh (promote now ?ds) = [env2]" using assms(7) by (simp_all add: due_def)
  obtain res dp where d: "Dispatch (unat (Sequence env2)) now2 (qs_dispatcher qs) = (res, dp)" by fastforce
  note D = Dispatch_ok(1) [OF assms(4) d]
  then have r: "(\<forall>i. res \<noteq> Dispatched i) \<and> dp_consumers dp = dp_consumers (qs_dispatcher qs)"
    using assms(5) cyclic_less [of _ "qs_dispatcher qs"] by (auto simp: dispatch_spec_def split: dispatch_result.splits)
  have "drain_one now2 (qs, promote now ?ds) = (qs\<lparr>qs_dispatcher := dp\<rparr>, NewDelayScheduler)"
    using p assms(3) d r by (cases res) (simp_all add: drain_one_def NewDelayScheduler_def)
  moreover have "tm_storage tm' = tm_storage tm" 
    by (rule Publish_cases [OF assms(1)]) (auto simp: store_message_def Let_def split: if_splits option.splits sum.splits prod.splits)
  ultimately show ?thesis using r h assms(6) by (auto simp: ScheduleDelayed_at_def)
qed

text \<open>A message for time 9, and a queue whose consumer takes no message.\<close>

definition later_env :: Envelope where
  "later_env = zero_envelope\<lparr>Topic := ''orders'', DeliverAt := 9\<rparr>"

definition tm_queue :: TopicManager where
  "tm_queue = tm_empty\<lparr>tm_topics := [(''orders'', cfg_ex)]\<rparr>"

definition busy_queue :: QueueState where
  "busy_queue = new_queue\<lparr>qs_consumers := [''c1''], qs_dispatcher := \<lparr>dp_consumers = [\<lparr>qc_ID = ''c1'', qc_Prefetch = 0, qc_InFlight = []\<rparr>], dp_nextIdx = 0\<rparr>\<rparr>"

lemma queue_resolve: "ResolvePartition ''orders'' '''' (word_of_nat 1) tm_queue = (0, tm_queue\<lparr>tm_rrCounters := [''orders'' \<mapsto> 1]\<rparr>)"
  by (simp add: ResolvePartition_def roundRobinPartition_def tm_queue_def tm_empty_def)

theorem delayed_lost_when_busy_witness:
  "\<exists>env' tm' ds qs'. Publish publish_env_ex later_env tm_queue =
      (Inr 0, env', tm', [ScheduleDelayed ''orders'' later_env]) \<and>
     snd (ScheduleDelayed_at ''orders'' later_env ([''orders'' \<mapsto> busy_queue], Map.empty)) ''orders'' = Some ds \<and>
     drain_one 11 (busy_queue, promote 10 ds) = (qs', NewDelayScheduler)"
proof -
  let ?tm1 = "tm_queue\<lparr>tm_rrCounters := [''orders'' \<mapsto> 1]\<rparr>"
  note queue_resolve
  moreover have "GetTopic tm_queue ''orders'' = Some cfg_ex" by (simp add: GetTopic_def tm_queue_def)
  moreover have "0 <s (9 :: 64 word)" "7 <s (9 :: 64 word)" by (simp_all add: word_sless_alt)
  ultimately have p: "Publish publish_env_ex later_env tm_queue = (Inr 0, later_env, ?tm1, [ScheduleDelayed ''orders'' later_env])"
    by (simp add: Publish_def is_duplicate_def schema_check_def with_default_ttl_def run_pipeline_def queue_mode_def
      publish_env_ex_def cfg_ex_def later_env_def zero_envelope_def Let_def)
  have q: "[''orders'' \<mapsto> busy_queue] ''orders'' = Some busy_queue" "qs_consumers busy_queue \<noteq> []" "idx_ok (qs_dispatcher busy_queue)"
    "\<forall>c\<in>set (dp_consumers (qs_dispatcher busy_queue)). \<not> has_room c"
    by (simp_all add: busy_queue_def idx_ok_def has_room_def)
  have n: "Map.empty ''orders'' = (None :: DelayScheduler option)" and t: "sint (DeliverAt later_env) < 10" by (simp_all add: later_env_def)
  from delayed_lost_when_busy [of publish_env_ex later_env tm_queue later_env ?tm1 "''orders''" later_env "[''orders'' \<mapsto> busy_queue]" busy_queue
      Map.empty 10 11, OF p q n t] p show ?thesis by blast
qed

end
