(* ===== verification/Schemas_Page.thy ===== *)
theory Schemas_Page
  imports Forms Responses
begin

text \<open>
  \<^verbatim>\<open>frontend/src/pages/SchemasPage.tsx\<close>: the subjects of the schema registry, the versions of the
  chosen subject, the registration form and the delete dialog.
\<close>

section \<open>The form\<close>

definition typeBadges :: "string \<Rightarrow> badge_variant" where
  "typeBadges t = (case map_of [(''JSON'', VSuccess), (''Avro'', VDefault), (''Protobuf'', VSecondary)] t of
     Some v \<Rightarrow> v | None \<Rightarrow> VSecondary)"

record SchemaFormValues =
  sf_subject :: string
  sf_type :: string
  sf_definition :: string

definition schemaSchema :: "zod \<Rightarrow> SchemaFormValues \<Rightarrow> (string \<times> string) list" where
  "schemaSchema z f =
     map (Pair ''subject'') (zstring z
       [ZMin 1 ''Subject is required'', ZMax 256 ''Subject is too long'',
        ZName ''Only letters, numbers, dots, hyphens, and underscores''] (sf_subject f)) @
     map (Pair ''type'') (zenum z [''JSON'', ''Avro'', ''Protobuf''] (sf_type f)) @
     map (Pair ''definition'') (zstring z
       [ZMin 1 ''Schema definition is required'', ZMax 1048576 ''Definition is too large''] (sf_definition f))"

definition schema_defaults :: SchemaFormValues where
  "schema_defaults = \<lparr>sf_subject = '''', sf_type = ''JSON'', sf_definition = ''''\<rparr>"

section \<open>State\<close>

record schemas_page =
  registerOpen :: bool
  subject :: string
  schemaTarget :: "string option" \<comment> \<open>\<open>deleteTarget\<close>\<close>
  schemaForm :: SchemaFormValues

record schemas_env =
  subjects :: "string list option"
  subjectsLoading :: bool
  schemas :: "SchemaVersion list option"
  registerPending :: bool
  registerValid :: bool
  registerErrors :: "(string \<times> string) list"

definition schemas_init :: schemas_page where
  "schemas_init = \<lparr>registerOpen = False, subject = '''', schemaTarget = None, schemaForm = schema_defaults\<rparr>"

datatype schemas_action =
    SetRegisterOpen bool
  | SetSubject string
  | SetSchemaTarget "string option"
  | SchemaFormReset
  | SchemaSubject string
  | SchemaType string
  | SchemaDefinition string
  | SubmitRegister
  | MutateDeleteSchema
  | CopySchema string

fun schemas_act :: "schemas_action \<Rightarrow> schemas_page \<Rightarrow> schemas_page" where
  "schemas_act (SetRegisterOpen b) s = s\<lparr>registerOpen := b\<rparr>"
| "schemas_act (SetSubject t) s = s\<lparr>subject := t\<rparr>"
| "schemas_act (SetSchemaTarget t) s = s\<lparr>schemaTarget := t\<rparr>"
| "schemas_act SchemaFormReset s = s\<lparr>schemaForm := schema_defaults\<rparr>"
| "schemas_act (SchemaSubject t) s = s\<lparr>schemaForm := (schemaForm s)\<lparr>sf_subject := t\<rparr>\<rparr>"
| "schemas_act (SchemaType t) s = s\<lparr>schemaForm := (schemaForm s)\<lparr>sf_type := t\<rparr>\<rparr>"
| "schemas_act (SchemaDefinition t) s = s\<lparr>schemaForm := (schemaForm s)\<lparr>sf_definition := t\<rparr>\<rparr>"
| "schemas_act SubmitRegister s = s"
| "schemas_act MutateDeleteSchema s = s"
| "schemas_act (CopySchema d) s = s"

definition copy_effects :: "string \<Rightarrow> effect list" where
  "copy_effects d = [Clipboard d, Toast ToastSuccess ''Schema copied to clipboard'']"

section \<open>Queries and mutations\<close>

definition loadSubjects :: "auth_state \<Rightarrow> fetcher \<Rightarrow> json" where
  "loadSubjects st fetch = (case perform st fetch listSchemaSubjects of Inl _ \<Rightarrow> JArr [] | Inr v \<Rightarrow> v)"

definition schemas_queryFn :: "schemas_page \<Rightarrow> api_call option" where
  "schemas_queryFn s = (if subject s \<noteq> [] then Some (getSchemas (subject s)) else None)"

definition register_mutationFn :: "SchemaFormValues \<Rightarrow> api_call" where
  "register_mutationFn d = registerSchema (sf_subject d) (sf_type d) (sf_definition d)"

definition register_submit :: "zod \<Rightarrow> schemas_page \<Rightarrow> effect list" where
  "register_submit z s = (if schemaSchema z (schemaForm s) = [] then [Call (register_mutationFn (schemaForm s))] else [])"

definition register_onSuccess :: "schemas_page \<Rightarrow> schemas_page \<times> effect list" where
  "register_onSuccess s =
     (s\<lparr>registerOpen := False, schemaForm := schema_defaults\<rparr>,
      [Toast ToastSuccess (''Schema registered for \"'' @ sf_subject (schemaForm s) @ ''\"''), Invalidate [''schema-subjects'']])"

definition register_onError :: "string option \<Rightarrow> schemas_page \<Rightarrow> schemas_page \<times> effect list" where
  "register_onError msg s = (s, [error_toast msg ''Failed to register schema''])"

definition schema_delete_mutationFn :: "schemas_page \<Rightarrow> api_call" where
  "schema_delete_mutationFn closure = deleteSchema (tpl (schemaTarget closure))"

definition schema_delete_onSuccess :: "schemas_page \<Rightarrow> schemas_page \<Rightarrow> schemas_page \<times> effect list" where
  "schema_delete_onSuccess closure s =
     (s\<lparr>schemaTarget := None, subject := ''''\<rparr>,
      [Toast ToastSuccess (''Schema \"'' @ tpl (schemaTarget closure) @ ''\" deleted''), Invalidate [''schema-subjects'']])"

definition schema_delete_onError :: "string option \<Rightarrow> schemas_page \<Rightarrow> schemas_page \<times> effect list" where
  "schema_delete_onError msg s = (s, [error_toast msg ''Failed to delete schema''])"

definition close_schema_delete :: "schemas_page \<Rightarrow> schemas_page" where
  "close_schema_delete s = s\<lparr>schemaTarget := None\<rparr>"

definition confirm_delete_schema :: "(schemas_page \<Rightarrow> schemas_page \<Rightarrow> schemas_page) \<Rightarrow> schemas_page \<Rightarrow> schemas_page \<times> effect list" where
  "confirm_delete_schema pick s =
     (let s' = close_schema_delete s in (s', [Call (schema_delete_mutationFn (pick s s'))]))"

interpretation schema_delete: confirm_delete schemaTarget close_schema_delete deleteSchema confirm_delete_schema
  by unfold_locales (simp_all add: confirm_delete_schema_def close_schema_delete_def schema_delete_mutationFn_def Let_def)

section \<open>View\<close>

definition schemas_loading :: "schemas_action vnode" where
  "schemas_loading = El TDiv [] [El TSkeleton [] [], El TCard [] [El TCardContent [] [El TSkeleton [] []]]]"

definition register_error :: "schemas_env \<Rightarrow> string \<Rightarrow> schemas_action vnode list" where
  "register_error e f = (case map_of (registerErrors e) f of Some m \<Rightarrow> [El TP [] [Txt m]] | None \<Rightarrow> [])"

definition register_dialog :: "schemas_page \<Rightarrow> schemas_env \<Rightarrow> schemas_action vnode" where
  "register_dialog s e =
     El TDialog [Open (registerOpen s), OnOpenChange (\<lambda>open. SetRegisterOpen open # guard open [SchemaFormReset])]
      [El TDialogTrigger [] [El TButton [] [Txt ''Register Schema'']],
       El TDialogContent []
        [El TDialogHeader []
          [El TDialogTitle [] [Txt ''Register Schema''],
           El TDialogDescription [] [Txt ''Register a new schema for a subject'']],
         El TForm [OnSubmit [SubmitRegister]]
          [El TDiv []
            ([El TLabel [] [Txt ''Subject''],
              El TInput [Value (sf_subject (schemaForm s)), OnChange (\<lambda>v. [SchemaSubject v])] []]
             @ register_error e ''subject''),
           El TDiv []
            [El TLabel [] [Txt ''Type''],
             El TSelect [Value (sf_type (schemaForm s)), OnChange (\<lambda>v. [SchemaType v])]
              [El TSelectItem [Value ''JSON''] [Txt ''JSON Schema''], El TSelectItem [Value ''Avro''] [Txt ''Avro''],
               El TSelectItem [Value ''Protobuf''] [Txt ''Protobuf'']]],
           El TDiv []
            ([El TLabel [] [Txt ''Schema Definition''],
              El TTextarea [Value (sf_definition (schemaForm s)), OnChange (\<lambda>v. [SchemaDefinition v])] []]
             @ register_error e ''definition''),
           El TDialogFooter []
            [El TButton [Variant VOutline, OnClick [SetRegisterOpen False]] [Txt ''Cancel''],
             El TButton [Disabled (\<not> registerValid e \<or> registerPending e)] [Txt ''Register'']]]]]"

definition schemas_header :: "schemas_page \<Rightarrow> schemas_env \<Rightarrow> schemas_action vnode" where
  "schemas_header s e = El TDiv []
     [El TDiv [] [El TH1 [] [Txt ''Schemas''], El TP [] [Txt ''Schema Registry - Avro, Protobuf, JSON Schema'']],
      register_dialog s e]"

definition subject_card :: "string \<Rightarrow> schemas_action vnode" where
  "subject_card n = El TDiv [Key n]
     [El TDiv [] [El TSpan [] [Txt n], El TBadge [Variant VSecondary] [Txt ''Schema'']],
      El TDiv []
       [El TButton [Variant VGhost, OnClick [SetSubject n], AriaLabel (''View schema '' @ n)] [Txt ''View''],
        El TButton [Variant VGhost, OnClick [SetSchemaTarget (Some n)], AriaLabel (''Delete schema '' @ n)] [Txt ''Delete'']]]"

definition subject_row :: "string \<Rightarrow> schemas_action vnode" where
  "subject_row n = El TTableRow [Key n]
     [El TTableCell [] [Txt n],
      El TTableCell [] [El TBadge [Variant VSecondary] [Txt ''Schema'']],
      El TTableCell []
       [El TDiv []
         [El TButton [Variant VGhost, OnClick [SetSubject n], AriaLabel (''View schema '' @ n)] [],
          El TButton [Variant VGhost, OnClick [SetSchemaTarget (Some n)], AriaLabel (''Delete schema '' @ n)] []]]]"

definition subjects_card :: "schemas_env \<Rightarrow> schemas_action vnode" where
  "subjects_card e = El TCard []
     [El TCardHeader []
       [El TCardTitle [] [Txt (show_nat (case subjects e of Some xs \<Rightarrow> length xs | None \<Rightarrow> 0)), Txt '' Subjects''],
        El TCardDescription [] [Txt ''Registered schema subjects and versions'']],
      El TCardContent []
       (case subjects e of
          Some (x # xs) \<Rightarrow>
            [El TDiv [Vis Mobile] (map subject_card (x # xs)),
             El TTable [Vis Desktop]
              [El TTableHeader [] [El TTableRow [] (map (\<lambda>h. El TTableHead [] [Txt h]) [''Subject'', ''Versions'', ''Actions''])],
               El TTableBody [] (map subject_row (x # xs))]]
        | _ \<Rightarrow> [El TDiv []
            [El TH3 [] [Txt ''No schemas registered''],
             El TP [] [Txt ''Register a schema to enable message validation''],
             El TButton [OnClick [SetRegisterOpen True]] [Txt ''Register Schema'']]])]"

text \<open>The tabs of the versions: values are positions in the list, keys are version numbers.\<close>

definition version_trigger :: "nat \<times> SchemaVersion \<Rightarrow> schemas_action vnode" where
  "version_trigger p = El TTabsTrigger [Key (show_int (sv_version (snd p))), Value (show_nat (fst p))]
     [Txt ''v'', Txt (show_int (sv_version (snd p)))]"

definition version_content :: "nat \<times> SchemaVersion \<Rightarrow> schemas_action vnode" where
  "version_content p = (case p of (i, v) \<Rightarrow>
     El TTabsContent [Key (show_int (sv_version v)), Value (show_nat i)]
      [El TDiv []
        [El TBadge [Variant (typeBadges (sv_type v))] [Txt (sv_type v)],
         El TSpan [] [Txt ''ID: '', Txt (show_int (sv_id v))],
         El TButton [Variant VGhost, OnClick [CopySchema (sv_schema v)]] [Txt ''Copy'']],
       El TPre [] [Txt (sv_schema v)]])"

definition schema_detail :: "string \<Rightarrow> SchemaVersion list \<Rightarrow> schemas_action vnode" where
  "schema_detail n vs = El TCard []
     [El TCardHeader [] [El TCardTitle [] [Txt n], El TCardDescription [] [Txt (show_nat (length vs)), Txt '' version(s)'']],
      El TCardContent []
       [El TTabs [Value ''0'']
         (El TTabsList [] (map version_trigger (zip [0..<length vs] vs)) # map version_content (zip [0..<length vs] vs))]]"

definition schema_delete_dialog :: "schemas_page \<Rightarrow> schemas_action vnode" where
  "schema_delete_dialog s =
     El TAlertDialog [Open (truthy_str (schemaTarget s)), OnOpenChange (\<lambda>_. [SetSchemaTarget None])]
      [El TAlertDialogContent []
        [El TAlertDialogHeader []
          [El TAlertDialogTitle [] [Txt ''Delete Schema''],
           El TAlertDialogDescription []
            [Txt ''Are you sure you want to delete \"'', Txt (case schemaTarget s of Some n \<Rightarrow> n | None \<Rightarrow> ''''),
             Txt ''\"? This action cannot be undone.'']],
         El TAlertDialogFooter []
          [El TAlertDialogCancel [] [Txt ''Cancel''], El TAlertDialogAction [OnClick [MutateDeleteSchema]] [Txt ''Delete'']]]]"

definition schemas_view :: "schemas_page \<Rightarrow> schemas_env \<Rightarrow> schemas_action vnode" where
  "schemas_view s e =
     (if subjectsLoading e then schemas_loading
      else El TDiv []
        ([schemas_header s e, subjects_card e]
         @ (case schemas e of Some vs \<Rightarrow> guard (subject s \<noteq> []) [schema_detail (subject s) vs] | None \<Rightarrow> [])
         @ [schema_delete_dialog s]))"


section \<open>Lemmas\<close>

interpretation subject_layout: two_layouts subject_card subject_row
  by unfold_locales (simp add: subject_card_def subject_row_def)

lemma show_nat_inject: "show_nat m = show_nat n \<Longrightarrow> m = n"
  by (metis read_nat_show_nat)

lemma buttons_register_error [simp]: "concat (map (buttons_on sc) (register_error e f)) = []"
  by (cases "map_of (registerErrors e) f") (simp_all add: register_error_def)

lemma buttons_schemas_parts [simp]:
  "buttons_on sc (schemas_header s e) = []" "buttons_on sc (schema_delete_dialog s) = []" "buttons_on sc schemas_loading = []"
  by (simp_all add: schemas_header_def register_dialog_def schema_delete_dialog_def schemas_loading_def comp_def)

lemma buttons_versions [simp]: "buttons_on sc (version_trigger p) = []" "buttons_on sc (version_content p) = []"
  by (simp_all add: version_trigger_def version_content_def split: prod.split)

lemma buttons_schema_detail [simp]: "buttons_on sc (schema_detail n vs) = []"
  by (simp add: schema_detail_def comp_def)

lemma buttons_subjects: "buttons_on Mobile (subjects_card e) = buttons_on Desktop (subjects_card e)"
proof (cases "subjects e")
  case (Some xs)
  with subject_layout.lists_agree [of Mobile xs Desktop] show ?thesis
    by (cases xs) (simp_all add: subjects_card_def)
qed (simp add: subjects_card_def)

lemma schemas_layouts: "buttons_on Mobile (schemas_view s e) = buttons_on Desktop (schemas_view s e)"
  by (cases "schemas e") (simp_all add: schemas_view_def buttons_subjects guard_def)

fun value_of :: "'m attr list \<Rightarrow> string option" where
  "value_of [] = None"
| "value_of (Value v # ps) = Some v"
| "value_of (_ # ps) = value_of ps"

fun tab_value :: "'m vnode \<Rightarrow> string option" where
  "tab_value (Txt t) = None"
| "tab_value (El t ps cs) = value_of ps"

section \<open>Properties\<close>

text \<open>A registration request is sent exactly for a subject of 1 to 256 characters of the allowed
  class, a type of the three offered ones and a definition of 1 to 1048576 characters; it goes to
  that subject with that type and definition.\<close>

theorem schemas_register_valid:
  assumes "zod_ok z"
  shows "Call c \<in> set (register_submit z s) \<longleftrightarrow>
    name_regex (sf_subject (schemaForm s)) \<and> length (sf_subject (schemaForm s)) \<le> 256 \<and>
    sf_type (schemaForm s) \<in> {''JSON'', ''Avro'', ''Protobuf''} \<and>
    1 \<le> length (sf_definition (schemaForm s)) \<and> length (sf_definition (schemaForm s)) \<le> 1048576 \<and>
    c = registerSchema (sf_subject (schemaForm s)) (sf_type (schemaForm s)) (sf_definition (schemaForm s))"
proof -
  have "name_regex t \<Longrightarrow> 1 \<le> length t" for t by (cases t) (simp_all add: name_regex_def)
  with zod_okD [OF assms] show ?thesis
    by (auto simp: register_submit_def schemaSchema_def register_mutationFn_def)
qed

definition schemas_form_ex :: schemas_page where
  "schemas_form_ex = schemas_init\<lparr>schemaForm := \<lparr>sf_subject = ''orders-value'', sf_type = ''Avro'', sf_definition = ''{}''\<rparr>\<rparr>"

theorem schemas_register_valid_witness:
  "zod_ok zod_doc \<and> Call (registerSchema ''orders-value'' ''Avro'' ''{}'') \<in> set (register_submit zod_doc schemas_form_ex)"
proof -
  have "name_regex ''orders-value''" by code_simp
  with schemas_register_valid [OF zod_doc_ok, of "registerSchema ''orders-value'' ''Avro'' ''{}''" schemas_form_ex] zod_doc_ok
  show ?thesis by (simp add: schemas_form_ex_def)
qed

text \<open>The tabs of a subject pair each version with its own definition: the tab at a position shows
  the number of that version, the panel with the same value, and no other, holds its text, and the copy button of
  the panel copies exactly that text.\<close>

theorem schemas_tabs_match:
  assumes "i < length vs"
  shows "let p = zip [0..<length vs] vs ! i; panel = version_content p in
    tab_value (version_trigger p) = tab_value panel \<and>
    (\<forall>j < length vs. tab_value (version_trigger (zip [0..<length vs] vs ! j)) = tab_value panel \<longrightarrow> j = i) \<and>
    textContent (version_trigger p) = ''v'' @ show_int (sv_version (vs ! i)) \<and>
    last (texts panel) = sv_schema (vs ! i) \<and> actions panel = {CopySchema (last (texts panel))}"
  using assms by (auto simp: version_trigger_def version_content_def textContent_def Let_def dest: show_nat_inject)

theorem schemas_tabs_match_witness:
  "(0::nat) < length [\<lparr>sv_id = 1, sv_subject = ''s'', sv_version = 3, sv_type = ''JSON'', sv_schema = ''{}''\<rparr>] \<and>
   textContent (version_trigger (0, \<lparr>sv_id = 1, sv_subject = ''s'', sv_version = 3, sv_type = ''JSON'', sv_schema = ''{}''\<rparr>)) =
     ''v'' @ show_int 3"
  using schemas_tabs_match [of 0 "[\<lparr>sv_id = 1, sv_subject = ''s'', sv_version = 3, sv_type = ''JSON'', sv_schema = ''{}''\<rparr>]"]
  by (simp add: Let_def)

end
