(* ===== verification/Wasm_Page.thy ===== *)
theory Wasm_Page
  imports Forms Responses
begin

text \<open>\<^verbatim>\<open>frontend/src/pages/WASMPage.tsx\<close>: the list of loaded modules and the delete dialog.\<close>

section \<open>State and mutation\<close>

record wasm_page =
  wasmTarget :: "string option" \<comment> \<open>\<open>deleteTarget\<close>\<close>

record wasm_env =
  modules :: "WASMListResponse option"
  modulesLoading :: bool

definition wasm_init :: wasm_page where
  "wasm_init = \<lparr>wasmTarget = None\<rparr>"

datatype wasm_action = SetWasmTarget "string option" | MutateDeleteModule

fun wasm_act :: "wasm_action \<Rightarrow> wasm_page \<Rightarrow> wasm_page" where
  "wasm_act (SetWasmTarget t) s = s\<lparr>wasmTarget := t\<rparr>"
| "wasm_act MutateDeleteModule s = s"

definition wasm_delete_mutationFn :: "wasm_page \<Rightarrow> api_call" where
  "wasm_delete_mutationFn closure = deleteWASMModule (tpl (wasmTarget closure))"

definition wasm_delete_onSuccess :: "wasm_page \<Rightarrow> wasm_page \<Rightarrow> wasm_page \<times> effect list" where
  "wasm_delete_onSuccess closure s =
     (s\<lparr>wasmTarget := None\<rparr>,
      [Toast ToastSuccess (''Module \"'' @ tpl (wasmTarget closure) @ ''\" deleted''), Invalidate [''wasm-modules'']])"

definition wasm_delete_onError :: "string option \<Rightarrow> wasm_page \<Rightarrow> wasm_page \<times> effect list" where
  "wasm_delete_onError msg s = (s, [error_toast msg ''Failed to delete module''])"

definition close_wasm_delete :: "wasm_page \<Rightarrow> wasm_page" where
  "close_wasm_delete s = s\<lparr>wasmTarget := None\<rparr>"

definition confirm_delete_module :: "(wasm_page \<Rightarrow> wasm_page \<Rightarrow> wasm_page) \<Rightarrow> wasm_page \<Rightarrow> wasm_page \<times> effect list" where
  "confirm_delete_module pick s =
     (let s' = close_wasm_delete s in (s', [Call (wasm_delete_mutationFn (pick s s'))]))"

interpretation wasm_delete: confirm_delete wasmTarget close_wasm_delete deleteWASMModule confirm_delete_module
  by unfold_locales (simp_all add: confirm_delete_module_def close_wasm_delete_def wasm_delete_mutationFn_def Let_def)

section \<open>View\<close>

definition wasm_loading :: "wasm_action vnode" where
  "wasm_loading = El TDiv [] [El TSkeleton [] [], El TCard [] [El TCardContent [] [El TSkeleton [] []]]]"

definition module_card :: "string \<Rightarrow> wasm_action vnode" where
  "module_card n = El TDiv [Key n]
     [El TDiv [] [El TDiv [] [El TSpan [] [Txt n]], El TBadge [Variant VSecondary] [Txt ''Active'']],
      El TButton [Variant VGhost, OnClick [SetWasmTarget (Some n)], AriaLabel (''Delete WASM module '' @ n)] [Txt ''Delete'']]"

definition module_row :: "string \<Rightarrow> wasm_action vnode" where
  "module_row n = El TDiv [Key n]
     [El TDiv [] [El TDiv [] [El TSpan [] [Txt n], El TBadge [Variant VSecondary] [Txt ''Active'']]],
      El TButton [Variant VGhost, OnClick [SetWasmTarget (Some n)], AriaLabel (''Delete WASM module '' @ n)] []]"

definition module_names :: "wasm_env \<Rightarrow> string list" where
  "module_names e = (case modules e of Some d \<Rightarrow> wl_modules d | None \<Rightarrow> [])"

definition modules_card :: "wasm_env \<Rightarrow> wasm_action vnode" where
  "modules_card e = El TCard []
     [El TCardHeader []
       [El TCardTitle [] [Txt (show_int (case modules e of Some d \<Rightarrow> wl_count d | None \<Rightarrow> 0)), Txt '' Modules''],
        El TCardDescription [] [Txt ''Loaded WASM transform modules'']],
      El TCardContent []
       (if map_option wl_count (modules e) = Some 0
        then [El TDiv []
               [El TH3 [] [Txt ''No WASM modules loaded''],
                El TP [] [Txt ''Upload a WASM module via the CLI to enable message transforms''],
                El TCode [] [Txt ''chimera wasm upload my-transform.wasm'']]]
        else [El TDiv [Vis Mobile] (map module_card (module_names e)),
              El TDiv [Vis Desktop] (map module_row (module_names e))])]"

definition wasm_delete_dialog :: "wasm_page \<Rightarrow> wasm_action vnode" where
  "wasm_delete_dialog s =
     El TAlertDialog [Open (truthy_str (wasmTarget s)), OnOpenChange (\<lambda>_. [SetWasmTarget None])]
      [El TAlertDialogContent []
        [El TAlertDialogHeader []
          [El TAlertDialogTitle [] [Txt ''Delete WASM Module''],
           El TAlertDialogDescription []
            [Txt ''Are you sure you want to delete \"'', Txt (case wasmTarget s of Some n \<Rightarrow> n | None \<Rightarrow> ''''),
             Txt ''\"? This will remove the transform from all pipelines.'']],
         El TAlertDialogFooter []
          [El TAlertDialogCancel [] [Txt ''Cancel''], El TAlertDialogAction [OnClick [MutateDeleteModule]] [Txt ''Delete'']]]]"

definition wasm_view :: "wasm_page \<Rightarrow> wasm_env \<Rightarrow> wasm_action vnode" where
  "wasm_view s e =
     (if modulesLoading e then wasm_loading
      else El TDiv []
        [El TDiv [] [El TDiv []
           [El TH1 [] [Txt ''WASM Modules''],
            El TP [] [Txt ''WebAssembly transform modules for publish/consume pipelines'']]],
         modules_card e, wasm_delete_dialog s])"

section \<open>Lemmas\<close>

interpretation module_layout: two_layouts module_card module_row
  by unfold_locales (simp add: module_card_def module_row_def)

lemma wasm_layouts: "buttons_on Mobile (wasm_view s e) = buttons_on Desktop (wasm_view s e)"
  using module_layout.lists_agree [of Mobile "module_names e" Desktop]
  by (simp add: wasm_view_def wasm_loading_def modules_card_def wasm_delete_dialog_def)

end
