(* ===== verification/Processors_Page.thy ===== *)
theory Processors_Page
  imports Forms Responses
begin

text \<open>
  \<^verbatim>\<open>frontend/src/pages/ProcessorsPage.tsx\<close>: the list of topologies with its start, stop and delete
  buttons, and the details of the chosen one.
\<close>

section \<open>State and mutations\<close>

definition stateColors :: "string \<Rightarrow> badge_variant" where
  "stateColors st = (case map_of [(''running'', VSuccess), (''stopped'', VDefault), (''error'', VDestructive)] st of
     Some v \<Rightarrow> v | None \<Rightarrow> VDefault)"

record processors_page =
  processorTarget :: "string option" \<comment> \<open>\<open>deleteTarget\<close>\<close>
  detailTarget :: "string option"

record processors_env =
  processors :: "ProcessorListResponse option"
  processorsLoading :: bool
  processorDetail :: "ProcessorInfo option"

definition processors_init :: processors_page where
  "processors_init = \<lparr>processorTarget = None, detailTarget = None\<rparr>"

datatype processors_action =
    SetProcessorTarget "string option"
  | SetDetailTarget "string option"
  | MutateDeleteProcessor
  | MutateStart string
  | MutateStop string

fun processors_act :: "processors_action \<Rightarrow> processors_page \<Rightarrow> processors_page" where
  "processors_act (SetProcessorTarget t) s = s\<lparr>processorTarget := t\<rparr>"
| "processors_act (SetDetailTarget t) s = s\<lparr>detailTarget := t\<rparr>"
| "processors_act MutateDeleteProcessor s = s"
| "processors_act (MutateStart n) s = s"
| "processors_act (MutateStop n) s = s"

definition processor_queryFn :: "processors_page \<Rightarrow> api_call option" where
  "processor_queryFn s = (if truthy_str (detailTarget s) then Some (getProcessor (tpl (detailTarget s))) else None)"

definition processor_queryKey :: "processors_page \<Rightarrow> string list" where
  "processor_queryKey s = [''processor-detail'', tpl (detailTarget s)]"

definition processor_delete_mutationFn :: "processors_page \<Rightarrow> api_call" where
  "processor_delete_mutationFn closure = deleteProcessor (tpl (processorTarget closure))"

definition processor_delete_onSuccess :: "processors_page \<Rightarrow> processors_page \<Rightarrow> processors_page \<times> effect list" where
  "processor_delete_onSuccess closure s =
     (s\<lparr>processorTarget := None\<rparr>,
      [Toast ToastSuccess (''Processor \"'' @ tpl (processorTarget closure) @ ''\" deleted''), Invalidate [''processors'']])"

definition processor_delete_onError :: "string option \<Rightarrow> processors_page \<Rightarrow> processors_page \<times> effect list" where
  "processor_delete_onError msg s = (s, [error_toast msg ''Failed to delete processor''])"

definition start_mutationFn :: "string \<Rightarrow> api_call" where
  "start_mutationFn n = startProcessor n"

definition start_onSuccess :: "string \<Rightarrow> processors_page \<Rightarrow> processors_page \<times> effect list" where
  "start_onSuccess n s = (s, [Toast ToastSuccess (''Processor \"'' @ n @ ''\" started''), Invalidate [''processors'']])"

definition start_onError :: "string option \<Rightarrow> processors_page \<Rightarrow> processors_page \<times> effect list" where
  "start_onError msg s = (s, [error_toast msg ''Failed to start processor''])"

definition stop_mutationFn :: "string \<Rightarrow> api_call" where
  "stop_mutationFn n = stopProcessor n"

definition stop_onSuccess :: "string \<Rightarrow> processors_page \<Rightarrow> processors_page \<times> effect list" where
  "stop_onSuccess n s = (s, [Toast ToastSuccess (''Processor \"'' @ n @ ''\" stopped''), Invalidate [''processors'']])"

definition stop_onError :: "string option \<Rightarrow> processors_page \<Rightarrow> processors_page \<times> effect list" where
  "stop_onError msg s = (s, [error_toast msg ''Failed to stop processor''])"

definition close_processor_delete :: "processors_page \<Rightarrow> processors_page" where
  "close_processor_delete s = s\<lparr>processorTarget := None\<rparr>"

definition confirm_delete_processor :: "(processors_page \<Rightarrow> processors_page \<Rightarrow> processors_page) \<Rightarrow> processors_page \<Rightarrow> processors_page \<times> effect list" where
  "confirm_delete_processor pick s =
     (let s' = close_processor_delete s in (s', [Call (processor_delete_mutationFn (pick s s'))]))"

interpretation processor_delete: confirm_delete processorTarget close_processor_delete deleteProcessor confirm_delete_processor
  by unfold_locales
    (simp_all add: confirm_delete_processor_def close_processor_delete_def processor_delete_mutationFn_def Let_def)

section \<open>View\<close>

definition processors_loading :: "processors_action vnode" where
  "processors_loading = El TDiv [] [El TSkeleton [] [], El TCard [] [El TCardContent [] [El TSkeleton [] []]]]"

definition processor_card :: "string \<Rightarrow> processors_action vnode" where
  "processor_card n = El TDiv [Key n]
     [El TDiv [] [El TDiv [] [El TSpan [] [Txt n]], El TBadge [Variant VSecondary] [Txt ''Processor'']],
      El TDiv []
       [El TButton [Variant VGhost, OnClick [SetDetailTarget (Some n)], AriaLabel (''View processor '' @ n)] [Txt ''View''],
        El TButton [Variant VGhost, OnClick [MutateStart n], AriaLabel (''Start processor '' @ n)] [Txt ''Start''],
        El TButton [Variant VGhost, OnClick [MutateStop n], AriaLabel (''Stop processor '' @ n)] [Txt ''Stop''],
        El TButton [Variant VGhost, OnClick [SetProcessorTarget (Some n)], AriaLabel (''Delete processor '' @ n)] [Txt ''Delete'']]]"

definition processor_row :: "string \<Rightarrow> processors_action vnode" where
  "processor_row n = El TDiv [Key n]
     [El TDiv [] [El TDiv [] [El TSpan [] [Txt n], El TBadge [Variant VSecondary] [Txt ''Processor'']]],
      El TDiv []
       [El TButton [Variant VGhost, OnClick [SetDetailTarget (Some n)], AriaLabel (''View processor '' @ n)] [],
        El TButton [Variant VGhost, OnClick [MutateStart n], AriaLabel (''Start processor '' @ n)] [],
        El TButton [Variant VGhost, OnClick [MutateStop n], AriaLabel (''Stop processor '' @ n)] [],
        El TButton [Variant VGhost, OnClick [SetProcessorTarget (Some n)], AriaLabel (''Delete processor '' @ n)] []]]"

definition topology_names :: "processors_env \<Rightarrow> string list" where
  "topology_names e = (case processors e of Some d \<Rightarrow> pl_topologies d | None \<Rightarrow> [])"

definition processors_card :: "processors_env \<Rightarrow> processors_action vnode" where
  "processors_card e = El TCard []
     [El TCardHeader []
       [El TCardTitle [] [Txt (show_int (case processors e of Some d \<Rightarrow> pl_count d | None \<Rightarrow> 0)), Txt '' Processors''],
        El TCardDescription [] [Txt ''Active stream processing topologies'']],
      El TCardContent []
       (if map_option pl_count (processors e) = Some 0
        then [El TDiv []
               [El TH3 [] [Txt ''No processors configured''],
                El TP [] [Txt ''Create a processing topology via the CLI to enable stream transforms''],
                El TCode [] [Txt ''chimera processor create my-topology'']]]
        else [El TDiv [Vis Mobile] (map processor_card (topology_names e)),
              El TDiv [Vis Desktop] (map processor_row (topology_names e))])]"

definition processor_detail_card :: "processors_page \<Rightarrow> ProcessorInfo \<Rightarrow> processors_action vnode" where
  "processor_detail_card s d = El TCard []
     [El TCardHeader []
       [El TCardTitle [] (case detailTarget s of Some n \<Rightarrow> [Txt n] | None \<Rightarrow> []),
        El TCardDescription []
         [El TBadge [Variant (stateColors (p_state d))] [Txt (p_state d)],
          Txt (show_int (p_operators d)), Txt '' operator(s)'']],
      El TCardContent []
       [El TDiv []
         [El TDiv [] [El TP [] [Txt ''Source Topic''], El TP [] [Txt (p_source_topic d)]],
          El TDiv [] [El TP [] [Txt ''Sink Topic''], El TP [] [Txt (p_sink_topic d)]],
          El TDiv [] [El TP [] [Txt ''Parallelism''], El TP [] [Txt (show_int (p_parallelism d))]],
          El TDiv [] [El TP [] [Txt ''Operators''], El TP [] [Txt (show_int (p_operators d))]]]]]"

definition processor_delete_dialog :: "processors_page \<Rightarrow> processors_action vnode" where
  "processor_delete_dialog s =
     El TAlertDialog [Open (truthy_str (processorTarget s)), OnOpenChange (\<lambda>_. [SetProcessorTarget None])]
      [El TAlertDialogContent []
        [El TAlertDialogHeader []
          [El TAlertDialogTitle [] [Txt ''Delete Processor''],
           El TAlertDialogDescription []
            [Txt ''Are you sure you want to delete \"'', Txt (case processorTarget s of Some n \<Rightarrow> n | None \<Rightarrow> ''''),
             Txt ''\"? This will stop and remove the topology.'']],
         El TAlertDialogFooter []
          [El TAlertDialogCancel [] [Txt ''Cancel''], El TAlertDialogAction [OnClick [MutateDeleteProcessor]] [Txt ''Delete'']]]]"

definition processors_view :: "processors_page \<Rightarrow> processors_env \<Rightarrow> processors_action vnode" where
  "processors_view s e =
     (if processorsLoading e then processors_loading
      else El TDiv []
        ([El TDiv [] [El TDiv []
            [El TH1 [] [Txt ''Stream Processors''],
             El TP [] [Txt ''Stream processing topologies for real-time data transforms'']]],
          processors_card e]
         @ (case processorDetail e of Some d \<Rightarrow> [processor_detail_card s d] | None \<Rightarrow> [])
         @ [processor_delete_dialog s]))"

section \<open>Lemmas\<close>

interpretation processor_layout: two_layouts processor_card processor_row
  by unfold_locales (simp add: processor_card_def processor_row_def)

lemma buttons_processor_detail [simp]: "buttons_on sc (processor_detail_card s d) = []"
  by (cases "detailTarget s") (simp_all add: processor_detail_card_def)

lemma processors_layouts: "buttons_on Mobile (processors_view s e) = buttons_on Desktop (processors_view s e)"
  using processor_layout.lists_agree [of Mobile "topology_names e" Desktop]
  by (cases "processorDetail e")
    (simp_all add: processors_view_def processors_loading_def processors_card_def processor_delete_dialog_def)


lemma actions_processors:
  "SetDetailTarget None \<notin> actions (processor_card n)" "SetDetailTarget None \<notin> actions (processor_row n)"
  "SetDetailTarget None \<notin> actions (processor_delete_dialog s)"
  by (simp_all add: processor_card_def processor_row_def processor_delete_dialog_def)

lemma actions_detail_card: "SetDetailTarget None \<notin> actions (processor_detail_card s d)"
  by (cases "detailTarget s") (simp_all add: processor_detail_card_def)

lemma detail_never_closed: "SetDetailTarget None \<notin> actions (processors_view s e)"
proof (cases "processorDetail e")
  case None
  then show ?thesis
    by (auto simp: processors_view_def processors_loading_def processors_card_def actions_processors actions_detail_card)
next
  case (Some d)
  then show ?thesis
    by (auto simp: processors_view_def processors_loading_def processors_card_def actions_processors actions_detail_card)
qed

section \<open>Properties\<close>

text \<open>Starting, stopping or deleting a processor refreshes the list of processors but never the
  details card, whose state badge keeps showing what it showed before; and no handler of the page
  closes the details card again.\<close>

theorem processors_detail_stale:
  "refreshes (snd (start_onSuccess n s)) [''processors''] \<and> \<not> refreshes (snd (start_onSuccess n s)) (processor_queryKey t) \<and>
   refreshes (snd (stop_onSuccess n s)) [''processors''] \<and> \<not> refreshes (snd (stop_onSuccess n s)) (processor_queryKey t) \<and>
   refreshes (snd (processor_delete_onSuccess c s)) [''processors''] \<and>
   \<not> refreshes (snd (processor_delete_onSuccess c s)) (processor_queryKey t) \<and>
   SetDetailTarget None \<notin> actions (processors_view s e)"
  using detail_never_closed [of s e]
  by (simp add: refreshes_def start_onSuccess_def stop_onSuccess_def processor_delete_onSuccess_def processor_queryKey_def)

end
