(* ===== verification/Consumers_Page.thy ===== *)
theory Consumers_Page
  imports Forms Responses
begin

text \<open>
  \<^verbatim>\<open>frontend/src/pages/ConsumersPage.tsx\<close>: the consumer groups, their filter and the dialog with the
  members and assignments of one group.  Rendering reads \<open>m.partitions.length\<close> of every member
  without a guard; a member whose \<open>partitions\<close> is \<open>null\<close> makes it throw, which is the result
  \<open>None\<close> of the view.
\<close>

section \<open>State\<close>

record consumers_page =
  groupSearch :: string \<comment> \<open>\<open>search\<close>\<close>
  detailGroup :: "string option"

record consumers_env =
  consumerData :: "ConsumerGroupInfo option"
  consumersLoading :: bool
  groupDetail :: "ConsumerGroupDetail option"
  debouncedGroup :: string

definition consumers_init :: consumers_page where
  "consumers_init = \<lparr>groupSearch = '''', detailGroup = None\<rparr>"

datatype consumers_action = SetGroupSearch string | SetDetailGroup "string option"

fun consumers_act :: "consumers_action \<Rightarrow> consumers_page \<Rightarrow> consumers_page" where
  "consumers_act (SetGroupSearch q) s = s\<lparr>groupSearch := q\<rparr>"
| "consumers_act (SetDetailGroup g) s = s\<lparr>detailGroup := g\<rparr>"

definition group_queryFn :: "consumers_page \<Rightarrow> api_call option" where
  "group_queryFn s = (if truthy_str (detailGroup s) then Some (getConsumerGroupDetail (tpl (detailGroup s))) else None)"

definition filtered_groups :: "consumers_env \<Rightarrow> string list" where
  "filtered_groups e = (case Option.bind (consumerData e) cg_groups of
     Some gs \<Rightarrow> filter (\<lambda>g. str_includes (toLowerCase g) (toLowerCase (debouncedGroup e))) gs | None \<Rightarrow> [])"

section \<open>View\<close>

definition consumers_loading :: "consumers_action vnode" where
  "consumers_loading = El TDiv []
     [El TSkeleton [] [], El TCard [] [El TCardContent [] (map (\<lambda>i. El TSkeleton [Key (show_nat i)] []) [1, 2, 3])]]"

definition consumers_stats :: "consumers_env \<Rightarrow> consumers_action vnode" where
  "consumers_stats e = El TDiv []
     [El TCard [] [El TCardHeader [] [El TCardTitle [] [Txt ''Total Groups'']],
       El TCardContent [] [El TDiv [] [Txt (show_int (case consumerData e of Some d \<Rightarrow> cg_count d | None \<Rightarrow> 0))]]],
      El TCard [] [El TCardHeader [] [El TCardTitle [] [Txt ''Matching'']],
       El TCardContent [] [El TDiv [] [Txt (show_nat (length (filtered_groups e)))]]]]"

definition group_card :: "string \<Rightarrow> consumers_action vnode" where
  "group_card g = El TDiv [Key g]
     [El TDiv [] [El TDiv [] [El TSpan [] [Txt g]], El TBadge [Variant VSecondary] [Txt ''Active'']],
      El TButton [Variant VGhost, OnClick [SetDetailGroup (Some g)], AriaLabel (''View consumer group '' @ g)] [Txt ''View Details'']]"

definition group_row :: "string \<Rightarrow> consumers_action vnode" where
  "group_row g = El TDiv [Key g]
     [El TDiv [] [El TSpan [] [Txt g], El TBadge [Variant VSecondary] [Txt ''Active'']],
      El TButton [Variant VGhost, OnClick [SetDetailGroup (Some g)], AriaLabel (''View consumer group '' @ g)] []]"

definition groups_card :: "consumers_page \<Rightarrow> consumers_env \<Rightarrow> consumers_action vnode" where
  "groups_card s e = El TCard []
     [El TCardHeader []
       [El TCardTitle [] [Txt ''Consumer Groups''],
        El TCardDescription [] [Txt ''Active consumer groups across all topics''],
        El TDiv [] [El TInput [Value (groupSearch s), OnChange (\<lambda>v. [SetGroupSearch v])] []]],
      El TCardContent []
       (if map_option cg_count (consumerData e) = Some 0
        then [El TDiv []
               [El TH3 [] [Txt ''No consumer groups''],
                El TP [] [Txt ''Consumer groups appear when clients connect and subscribe''],
                El TCode [] [Txt ''chimera consume --topic my-topic'']]]
        else if filtered_groups e = [] \<and> groupSearch s \<noteq> []
        then [El TDiv [] [El TP [] [Txt ''No groups matching \"'', Txt (groupSearch s), Txt ''\"'']]]
        else [El TDiv [Vis Mobile] (map group_card (filtered_groups e)),
              El TDiv [Vis Desktop] (map group_row (filtered_groups e))])]"

text \<open>\<open>m.partitions.length\<close> throws for \<open>null\<close>.\<close>

definition member_item :: "ConsumerMember \<Rightarrow> consumers_action vnode option" where
  "member_item m = map_option (\<lambda>ps. El TDiv [Key (cm_id m)]
     [El TSpan [] [Txt (cm_id m)], El TBadge [Variant VOutline] [Txt (show_nat (length ps)), Txt '' partition(s)'']])
     (cm_partitions m)"

definition members_list :: "ConsumerGroupDetail \<Rightarrow> consumers_action vnode option" where
  "members_list d =
     (if gd_members d = [] then Some (El TP [] [Txt ''No active members''])
      else map_option (El TDiv []) (those (map member_item (gd_members d))))"

text \<open>\<open>partitions.sort((a, b) => a - b)\<close>: one badge per assigned partition, in numeric order.\<close>

definition partition_badges :: "int list \<Rightarrow> consumers_action vnode list" where
  "partition_badges ps = map (\<lambda>p. El TBadge [Key (show_int p), Variant VOutline] [Txt (show_int p)]) (sort ps)"

definition assignment_row :: "string \<times> int list \<Rightarrow> consumers_action vnode" where
  "assignment_row a = El TTableRow [Key (fst a)]
     [El TTableCell [] [Txt (fst a)], El TTableCell [] [El TDiv [] (partition_badges (snd a))]]"

definition assignments_table :: "ConsumerGroupDetail \<Rightarrow> consumers_action vnode" where
  "assignments_table d = El TDiv []
     [El TH3 [] [Txt ''Partition Assignments''],
      El TTable []
       [El TTableHeader [] [El TTableRow [] [El TTableHead [] [Txt ''Member''], El TTableHead [] [Txt ''Assigned Partitions'']]],
        El TTableBody [] (map assignment_row (gd_assignments d))]]"

definition group_body :: "ConsumerGroupDetail \<Rightarrow> consumers_action vnode option" where
  "group_body d = do {
     ms \<leftarrow> members_list d;
     Some (El TDiv [] ([El TDiv [] [El TH3 [] [Txt ''Members''], ms]] @ guard (gd_assignments d \<noteq> []) [assignments_table d])) }"

definition group_description :: "ConsumerGroupDetail \<Rightarrow> string" where
  "group_description d = show_nat (length (gd_members d)) @ '' member(s), '' @
     show_nat (length (gd_assignments d)) @ '' assignment(s)''"

definition group_dialog :: "consumers_page \<Rightarrow> consumers_env \<Rightarrow> consumers_action vnode option" where
  "group_dialog s e = do {
     body \<leftarrow> (case groupDetail e of None \<Rightarrow> Some [] | Some d \<Rightarrow> map_option (\<lambda>b. [b]) (group_body d));
     Some (El TDialog [Open (truthy_str (detailGroup s)), OnOpenChange (\<lambda>open. guard (\<not> open) [SetDetailGroup None])]
       [El TDialogContent []
         ([El TDialogHeader []
            [El TDialogTitle [] (case detailGroup s of Some g \<Rightarrow> [Txt g] | None \<Rightarrow> []),
             El TDialogDescription [] (case groupDetail e of Some d \<Rightarrow> [Txt (group_description d)] | None \<Rightarrow> [])]]
          @ body @ [El TDialogFooter [] [El TButton [Variant VOutline, OnClick [SetDetailGroup None]] [Txt ''Close'']]])]) }"

definition consumers_view :: "consumers_page \<Rightarrow> consumers_env \<Rightarrow> consumers_action vnode option" where
  "consumers_view s e =
     (if consumersLoading e then Some consumers_loading
      else do {
        dialog \<leftarrow> group_dialog s e;
        Some (El TDiv []
          [El TDiv [] [El TDiv [] [El TH1 [] [Txt ''Consumers''], El TP [] [Txt ''Consumer groups and assignments'']]],
           consumers_stats e, groups_card s e, dialog]) })"

section \<open>Lemmas\<close>

interpretation group_layout: two_layouts group_card group_row
  by unfold_locales (simp add: group_card_def group_row_def)

lemma those_None_iff: "those xs = None \<longleftrightarrow> None \<in> set xs"
  by (induction xs) (auto split: option.splits)

lemma those_Some_iff: "those xs = Some ys \<longleftrightarrow> xs = map Some ys"
  by (induction xs arbitrary: ys) (auto split: option.splits)

lemma consumers_view_fails:
  "consumers_view s e = None \<longleftrightarrow>
     \<not> consumersLoading e \<and> (\<exists>d m. groupDetail e = Some d \<and> m \<in> set (gd_members d) \<and> cm_partitions m = None)"
  by (cases "groupDetail e")
    (auto simp: consumers_view_def group_dialog_def group_body_def members_list_def member_item_def those_None_iff
      Option.bind_eq_None_conv)

lemma buttons_member_item: "member_item m = Some v \<Longrightarrow> buttons_on sc v = []"
  by (auto simp: member_item_def)

lemma buttons_members: "members_list d = Some v \<Longrightarrow> buttons_on sc v = []"
proof -
  have "those (map member_item ms) = Some vs \<Longrightarrow> concat (map (buttons_on sc) vs) = []" for ms vs
    by (induction ms arbitrary: vs) (auto simp: buttons_member_item split: option.splits)
  then show "members_list d = Some v \<Longrightarrow> buttons_on sc v = []"
    by (auto simp: members_list_def split: if_splits)
qed

lemma buttons_assignments [simp]: "buttons_on sc (assignments_table d) = []"
  by (simp add: assignments_table_def assignment_row_def partition_badges_def comp_def)

lemma buttons_group_dialog: "group_dialog s e = Some v \<Longrightarrow> buttons_on sc v = []"
  by (cases "detailGroup s"; cases "groupDetail e")
    (auto simp: group_dialog_def group_body_def guard_def bind_eq_Some_conv dest: buttons_members)

lemma consumers_layouts:
  assumes "consumers_view s e = Some v"
  shows "buttons_on Mobile v = buttons_on Desktop v"
proof (cases "consumersLoading e")
  case True
  with assms show ?thesis by (auto simp: consumers_view_def consumers_loading_def)
next
  case False
  with assms group_layout.lists_agree [of Mobile "filtered_groups e" Desktop] show ?thesis
    by (auto simp: consumers_view_def groups_card_def consumers_stats_def bind_eq_Some_conv buttons_group_dialog)
qed

end
