(* ===== verification/Cluster_Page.thy ===== *)
theory Cluster_Page
  imports Forms Responses
begin

text \<open>\<^verbatim>\<open>frontend/src/pages/ClusterPage.tsx\<close>: the members of the cluster.  The page has no state.\<close>

definition memberColors :: "string \<Rightarrow> badge_variant" where
  "memberColors st = (case map_of [(''Alive'', VSuccess), (''Suspect'', VWarning), (''Dead'', VDestructive)] st of
     Some v \<Rightarrow> v | None \<Rightarrow> VDefault)"

record cluster_env =
  cluster :: "ClusterResponse option"
  clusterLoading :: bool
  health :: "HealthResponse option"

definition cluster_loading :: "unit vnode" where
  "cluster_loading = El TDiv [] [El TSkeleton [] [], El TCard [] [El TCardContent [] [El TSkeleton [] []]]]"

definition address :: "MemberInfo \<Rightarrow> 'm vnode list" where
  "address m = [Txt (m_addr m), Txt '':'', Txt (show_int (m_port m))]"

definition member_card :: "MemberInfo \<Rightarrow> unit vnode" where
  "member_card m = El TDiv [Key (m_id m)]
     [El TDiv [] [El TDiv [] [El TSpan [] [Txt (m_id m)]], El TBadge [Variant (memberColors (m_state m))] [Txt (m_state m)]],
      El TP [] (address m)]"

definition member_row :: "MemberInfo \<Rightarrow> unit vnode" where
  "member_row m = El TDiv [Key (m_id m)]
     [El TDiv [] [El TSpan [] [Txt (m_id m)], El TSpan [] (address m)],
      El TBadge [Variant (memberColors (m_state m))] [Txt (m_state m)]]"

definition member_list :: "ClusterResponse \<Rightarrow> MemberInfo list" where
  "member_list c = (case cl_members c of Some ms \<Rightarrow> ms | None \<Rightarrow> [])"

definition single_node_card :: "unit vnode" where
  "single_node_card = El TCard []
     [El TCardHeader [] [El TCardTitle [] [Txt ''Single-Node Mode''],
        El TCardDescription [] [Txt ''This broker is running standalone without clustering'']],
      El TCardContent [] [El TDiv [] [El TP [] [Txt ''Enable clustering via the config to see cluster members here'']]]]"

definition cluster_cards :: "cluster_env \<Rightarrow> ClusterResponse \<Rightarrow> unit vnode" where
  "cluster_cards e c = El TFragment []
     [El TDiv []
       [El TCard [] [El TCardHeader [] [El TCardTitle [] [Txt ''Members'']],
          El TCardContent [] [El TP [] [Txt (show_int (cl_alive_count c))]]],
        El TCard [] [El TCardHeader [] [El TCardTitle [] [Txt ''Leader'']],
          El TCardContent [] [El TP [] [Txt (case cl_leader_id c of Some l \<Rightarrow> l | None \<Rightarrow> ''N/A'')]]],
        El TCard [] [El TCardHeader [] [El TCardTitle [] [Txt ''This Node'']],
          El TCardContent [] [El TP [] [Txt (case health e of Some h \<Rightarrow> h_name h | None \<Rightarrow> ''N/A'')]]]],
      El TCard []
       [El TCardHeader [] [El TCardTitle [] [Txt ''Members'']],
        El TCardContent []
         [El TDiv [Vis Mobile] (map member_card (member_list c)),
          El TDiv [Vis Desktop] (map member_row (member_list c))]]]"

definition cluster_view :: "cluster_env \<Rightarrow> unit vnode" where
  "cluster_view e =
     (if clusterLoading e then cluster_loading
      else El TDiv []
        ([El TDiv [] [El TDiv []
            [El TH1 [] [Txt ''Cluster''],
             El TP [] [Txt (if map_option cl_mode (cluster e) = Some ''cluster'' then ''Clustered mode'' else ''Single-node mode'')]]]]
         @ guard (map_option cl_mode (cluster e) = Some ''single-node'') [single_node_card]
         @ (case cluster e of Some c \<Rightarrow> guard (cl_mode c = ''cluster'') [cluster_cards e c] | None \<Rightarrow> [])))"

interpretation member_layout: two_layouts member_card member_row
  by unfold_locales (simp add: member_card_def member_row_def address_def)

end
