(* ===== verification/Overview_Page.thy ===== *)
theory Overview_Page
  imports Cluster_Page
begin

text \<open>
  \<^verbatim>\<open>frontend/src/pages/OverviewPage.tsx\<close>: the health badge, the four counters, the chart of the last
  samples, the cluster members and the Raft state.
\<close>

section \<open>Formatting bytes\<close>

text \<open>
  \<open>toFixed(1)\<close> picks the integer \<open>n\<close> for which \<open>n / 10\<close> is closest to the quotient, the larger one of
  two; the quotient by a power of two is exact.  \<open>parseFloat\<close> and the conversion back to a string
  drop a decimal of zero.  The index comes from \<open>Math.log\<close>, whose value is
  implementation-approximated, and is a parameter.  \<open>sizes[i]\<close> beyond the list is \<open>undefined\<close>.
\<close>

definition toFixed1 :: "nat \<Rightarrow> nat \<Rightarrow> nat" where
  "toFixed1 b d = (20 * b + d) div (2 * d)"

definition show_tenths :: "nat \<Rightarrow> string" where
  "show_tenths n = show_nat (n div 10) @ (if n mod 10 = 0 then '''' else ''.'' @ [digit_char (n mod 10)])"

definition byte_sizes :: "string list" where
  "byte_sizes = [''B'', ''KB'', ''MB'', ''GB'', ''TB'']"

definition formatBytes :: "(nat \<Rightarrow> nat) \<Rightarrow> nat \<Rightarrow> string" where
  "formatBytes log_index bytes =
     (if bytes = 0 then ''0 B''
      else let i = log_index bytes in
        show_tenths (toFixed1 bytes (1024 ^ i)) @ '' '' @ (if i < length byte_sizes then byte_sizes ! i else ''undefined''))"

definition log_exact :: "(nat \<Rightarrow> nat) \<Rightarrow> nat \<Rightarrow> bool" where
  "log_exact log_index b \<longleftrightarrow> 1024 ^ log_index b \<le> b \<and> b < 1024 ^ Suc (log_index b)"

section \<open>State: the chart\<close>

record ChartPoint =
  cp_time :: string
  cp_topics :: nat
  cp_consumers :: int

record overview_env =
  ovHealth :: "HealthResponse option"
  ovTopics :: "TopicInfo list option"
  ovConsumers :: "ConsumerGroupInfo option"
  ovCluster :: "ClusterResponse option"
  ovLoading :: bool  \<comment> \<open>one of the four queries is loading\<close>
  timeLabel :: string \<comment> \<open>the local time of the render\<close>

record overview_page =
  chartData :: "ChartPoint list"
  chartDeps :: "(nat option \<times> int option) option" \<comment> \<open>dependencies of the last run of the effect\<close>

definition overview_init :: overview_page where
  "overview_init = \<lparr>chartData = [], chartDeps = None\<rparr>"

definition chart_deps :: "overview_env \<Rightarrow> nat option \<times> int option" where
  "chart_deps e = (map_option length (ovTopics e), map_option cg_count (ovConsumers e))"

definition chart_sample :: "overview_env \<Rightarrow> ChartPoint list" where
  "chart_sample e = (case (ovTopics e, ovConsumers e) of
     (Some ts, Some c) \<Rightarrow> [\<lparr>cp_time = timeLabel e, cp_topics = length ts, cp_consumers = cg_count c\<rparr>] | _ \<Rightarrow> [])"

text \<open>The effect runs after a render whose dependencies differ from those of its last run.\<close>

definition chart_effect :: "overview_env \<Rightarrow> overview_page \<Rightarrow> overview_page" where
  "chart_effect e s =
     (if chartDeps s = Some (chart_deps e) then s
      else s\<lparr>chartDeps := Some (chart_deps e),
             chartData := (if chart_sample e = [] then chartData s else slice_last 20 (chartData s @ chart_sample e))\<rparr>)"

definition chart_run :: "overview_env list \<Rightarrow> overview_page \<Rightarrow> overview_page" where
  "chart_run es s = fold chart_effect es s"

text \<open>Reference: the samples of all renders whose dependencies changed.\<close>

fun chart_samples :: "(nat option \<times> int option) option \<Rightarrow> overview_env list \<Rightarrow> ChartPoint list" where
  "chart_samples d [] = []"
| "chart_samples d (e # es) =
     (if d = Some (chart_deps e) then [] else chart_sample e) @ chart_samples (Some (chart_deps e)) es"

section \<open>View\<close>

definition statusColor :: "HealthResponse option \<Rightarrow> badge_variant" where
  "statusColor h = (if map_option h_status h = Some ''healthy'' then VSuccess
     else if map_option h_status h = Some ''draining'' then VWarning else VDestructive)"

definition overviewColors :: "string \<Rightarrow> badge_variant" where
  "overviewColors st = (if st = ''Alive'' then VSuccess else if st = ''Suspect'' then VWarning else VDestructive)"

definition StatsCard :: "string \<Rightarrow> string \<Rightarrow> unit vnode" where
  "StatsCard label val = El TCard []
     [El TCardHeader [] [El TCardTitle [] [Txt label]], El TCardContent [] [El TDiv [] [Txt val]]]"

definition overview_loading :: "unit vnode" where
  "overview_loading = El TDiv []
     [El TDiv [] [El TSkeleton [] [], El TSkeleton [] []],
      El TDiv [] (map (\<lambda>i. El TCard [Key (show_nat i)]
        [El TCardHeader [] [El TSkeleton [] []], El TCardContent [] [El TSkeleton [] []]]) [1, 2, 3, 4])]"

definition health_txt :: "(HealthResponse \<Rightarrow> string) \<Rightarrow> overview_env \<Rightarrow> unit vnode list" where
  "health_txt f e = (case ovHealth e of Some h \<Rightarrow> [Txt (f h)] | None \<Rightarrow> [])"

definition overview_header :: "overview_env \<Rightarrow> unit vnode" where
  "overview_header e = El TDiv []
     [El TDiv []
       [El TH1 [] [Txt ''Overview''],
        El TP [] (health_txt h_name e @ [Txt '' - ''] @ health_txt h_version e @ [Txt '' - ''] @ health_txt h_uptime e)],
      El TDiv []
       ([El TBadge [Variant (statusColor (ovHealth e))] [Txt (case ovHealth e of Some h \<Rightarrow> h_status h | None \<Rightarrow> ''unknown'')]]
        @ guard (Option.bind (ovHealth e) h_mode = Some ''single-node'') [El TBadge [Variant VSecondary] [Txt ''Single Node'']]
        @ (case ovCluster e of
             Some c \<Rightarrow> guard (cl_mode c = ''cluster'')
               [El TBadge [Variant VSecondary] [Txt ''Cluster - '', Txt (show_int (cl_alive_count c)), Txt '' alive'']]
           | None \<Rightarrow> []))]"

definition total_partitions :: "overview_env \<Rightarrow> int" where
  "total_partitions e = (case ovTopics e of Some ts \<Rightarrow> foldl (\<lambda>sum t. sum + ti_partitions t) 0 ts | None \<Rightarrow> 0)"

definition stats_grid :: "(nat \<Rightarrow> nat) \<Rightarrow> overview_env \<Rightarrow> unit vnode" where
  "stats_grid log_index e = El TDiv []
     [StatsCard ''Topics'' (show_nat (case ovTopics e of Some ts \<Rightarrow> length ts | None \<Rightarrow> 0)),
      StatsCard ''Consumer Groups'' (show_int (case ovConsumers e of Some c \<Rightarrow> cg_count c | None \<Rightarrow> 0)),
      StatsCard ''Storage (Hot)'' (case Option.bind (ovHealth e) h_storage of
        Some st \<Rightarrow> formatBytes log_index (nat (ss_hot_size_bytes st)) | None \<Rightarrow> ''N/A''),
      StatsCard ''Partitions'' (show_int (total_partitions e))]"

definition chart_card :: "overview_page \<Rightarrow> unit vnode" where
  "chart_card s = El TCard []
     [El TCardHeader []
       [El TCardTitle [] [Txt ''Resources Over Time''],
        El TCardDescription [] [Txt ''Topics and consumer groups sampled every 10-15s'']],
      El TCardContent []
       [if chartData s = [] then El TDiv [] [Txt ''Collecting data points...'']
        else El TChart [] (map (\<lambda>p. El TTooltip [Value (cp_time p)]
               [Txt (show_nat (cp_topics p)), Txt (show_int (cp_consumers p))]) (chartData s))]]"

definition overview_member :: "MemberInfo \<Rightarrow> unit vnode" where
  "overview_member m = El TDiv [Key (m_id m)]
     [El TDiv [] [El TSpan [] [Txt (m_id m)], El TSpan [] (address m)],
      El TBadge [Variant (overviewColors (m_state m))] [Txt (m_state m)]]"

definition cluster_health :: "ClusterResponse \<Rightarrow> unit vnode" where
  "cluster_health c = El TCard []
     [El TCardHeader [] [El TCardTitle [] [Txt ''Cluster Health'']],
      El TCardContent []
       [El TDiv [] (map overview_member (member_list c) @
         guard (cl_members c = Some []) [El TP [] [Txt ''No cluster members - running in single-node mode'']])]]"

definition raft_card :: "RaftInfo \<Rightarrow> unit vnode" where
  "raft_card r = El TCard []
     [El TCardHeader [] [El TCardTitle [] [Txt ''Raft State'']],
      El TCardContent []
       [El TDiv []
         [El TDiv [] [El TP [] [Txt ''State''], El TP [] [Txt (rf_state r)]],
          El TDiv [] [El TP [] [Txt ''Term''], El TP [] [Txt (show_int (rf_term r))]],
          El TDiv [] [El TP [] [Txt ''Leader''], El TP [] [Txt (if rf_is_leader r then ''This node'' else rf_leader_id r)]],
          El TDiv [] [El TP [] [Txt ''Commit Index''], El TP [] [Txt (show_int (rf_commit_index r))]]]]]"

definition overview_view :: "(nat \<Rightarrow> nat) \<Rightarrow> overview_page \<Rightarrow> overview_env \<Rightarrow> unit vnode" where
  "overview_view log_index s e =
     (if ovLoading e then overview_loading
      else El TDiv []
        ([overview_header e, stats_grid log_index e, chart_card s]
         @ (case ovCluster e of Some c \<Rightarrow> [cluster_health c] | None \<Rightarrow> [])
         @ (case Option.bind (ovHealth e) h_raft of Some r \<Rightarrow> [raft_card r] | None \<Rightarrow> [])))"


section \<open>Lemmas\<close>

lemma slice_last_absorb: "slice_last n (slice_last n xs @ ys) = slice_last n (xs @ ys)"
  by (cases "length xs \<le> n") (auto simp: slice_last_def add.commute)

lemma slice_last_short [simp]: "length xs \<le> n \<Longrightarrow> slice_last n xs = xs"
  by (simp add: slice_last_def)

lemma last_slice_last: "0 < n \<Longrightarrow> xs \<noteq> [] \<Longrightarrow> slice_last n xs \<noteq> [] \<and> last (slice_last n xs) = last xs"
  by (cases xs) (auto simp: slice_last_def)

lemma chart_run_simps [simp]: "chart_run [] s = s" "chart_run (e # es) s = chart_run es (chart_effect e s)"
  by (simp_all add: chart_run_def)

lemma chart_effect_deps [simp]: "chartDeps (chart_effect e s) = Some (chart_deps e)"
  by (simp add: chart_effect_def)

lemma chart_effect_data:
  assumes "length (chartData s) \<le> 20"
  shows "chartData (chart_effect e s) =
    slice_last 20 (chartData s @ (if chartDeps s = Some (chart_deps e) then [] else chart_sample e))"
  using assms by (simp add: chart_effect_def)

lemma chart_run_data:
  "length (chartData s) \<le> 20 \<Longrightarrow>
   chartData (chart_run es s) = slice_last 20 (chartData s @ chart_samples (chartDeps s) es)"
proof (induction es arbitrary: s)
  case (Cons e es)
  then have "length (chartData (chart_effect e s)) \<le> 20" by (simp add: chart_effect_data)
  with Cons show ?case
    by (simp add: chart_effect_data slice_last_absorb del: append_assoc) (simp add: slice_last_absorb)
qed simp

text \<open>The last point of the chart shows the counts the effect last ran with.\<close>

definition chart_current :: "overview_page \<Rightarrow> bool" where
  "chart_current s \<longleftrightarrow> (\<forall>n c. chartDeps s = Some (Some n, Some c) \<longrightarrow>
     chartData s \<noteq> [] \<and> cp_topics (last (chartData s)) = n \<and> cp_consumers (last (chartData s)) = c)"

lemma chart_effect_current: "chart_current s \<Longrightarrow> chart_current (chart_effect e s)"
  by (cases "ovTopics e"; cases "ovConsumers e")
    (auto simp: chart_current_def chart_effect_def chart_deps_def chart_sample_def last_slice_last)

lemma chart_run_current: "chart_current s \<Longrightarrow> chart_current (chart_run es s)"
  by (induction es arbitrary: s) (simp_all add: chart_effect_current)

lemma chart_run_deps: "es \<noteq> [] \<Longrightarrow> chartDeps (chart_run es s) = Some (chart_deps (last es))"
  by (induction es arbitrary: s) auto

lemma toFixed1_close:
  assumes "0 < d"
  shows "2 * d * toFixed1 b d \<le> 20 * b + d" "20 * b < 2 * d * toFixed1 b d + d"
proof -
  have "2 * d * toFixed1 b d + (20 * b + d) mod (2 * d) = 20 * b + d"
    unfolding toFixed1_def by (rule mult_div_mod_eq)
  moreover have "(20 * b + d) mod (2 * d) < 2 * d" using assms by simp
  ultimately show "2 * d * toFixed1 b d \<le> 20 * b + d" "20 * b < 2 * d * toFixed1 b d + d" by linarith+
qed

section \<open>Properties\<close>

text \<open>The chart of the overview holds the last twenty samples, in order, of the renders in which the
  number of topics or of consumer groups differs from the render before.\<close>

theorem chart_holds_last_samples:
  "chartData (chart_run es overview_init) = slice_last 20 (chart_samples None es)"
  using chart_run_data [of overview_init es] by (simp add: overview_init_def)

text \<open>Whenever both counts are known, the last point of the chart shows the current ones.\<close>

lemma chart_last_point_current:
  assumes "es \<noteq> []" and "ovTopics (last es) = Some ts" and "ovConsumers (last es) = Some c"
  shows "chartData (chart_run es overview_init) \<noteq> [] \<and>
    cp_topics (last (chartData (chart_run es overview_init))) = length ts \<and>
    cp_consumers (last (chartData (chart_run es overview_init))) = cg_count c"
proof -
  have "chart_current (chart_run es overview_init)"
    by (rule chart_run_current) (simp add: chart_current_def overview_init_def)
  with assms chart_run_deps [of es overview_init] show ?thesis by (simp add: chart_current_def chart_deps_def)
qed

text \<open>For every positive size below 1024 TB whose logarithm is computed with the right integer part,
  the formatted text is a number with at most one decimal between 1 and 1024 and a unit, and
  differs from the true size by at most a twentieth of the unit.\<close>

theorem formatBytes_accurate:
  assumes "0 < b" and "b < 1024 ^ 5" and "log_exact log_index b"
  shows "\<exists>i n. i < 5 \<and> formatBytes log_index b = show_tenths n @ '' '' @ byte_sizes ! i \<and> 10 \<le> n \<and> n \<le> 10240 \<and>
    2 * 1024 ^ i * n \<le> 20 * b + 1024 ^ i \<and> 20 * b < 2 * 1024 ^ i * n + 1024 ^ i"
proof -
  define i where "i = log_index b"
  define n where "n = toFixed1 b (1024 ^ i)"
  have lo: "1024 ^ i \<le> b" and hi: "b < 1024 * 1024 ^ i" using assms(3) by (simp_all add: log_exact_def i_def)
  have "(1024::nat) ^ i < 1024 ^ 5" using lo assms(2) by linarith
  then have "i < 5" by (rule power_less_imp_less_exp [rotated]) simp
  have close: "2 * 1024 ^ i * n \<le> 20 * b + 1024 ^ i" "20 * b < 2 * 1024 ^ i * n + 1024 ^ i"
    using toFixed1_close [of "1024 ^ i" b] by (simp_all add: n_def)
  have "1024 ^ i * (2 * n + 1) = 2 * 1024 ^ i * n + 1024 ^ i" by (simp add: algebra_simps)
  then have "1024 ^ i * 20 < 1024 ^ i * (2 * n + 1)" using close(2) lo by linarith
  then have "20 < 2 * n + 1" using mult_less_cancel1 by blast
  then have "10 \<le> n" by simp
  have "1024 ^ i * (2 * n) = 2 * 1024 ^ i * n" by (simp add: algebra_simps)
  then have "1024 ^ i * (2 * n) < 1024 ^ i * 20481" using close(1) hi by linarith
  then have "2 * n < 20481" using mult_less_cancel1 by blast
  then have "n \<le> 10240" by simp
  have "formatBytes log_index b = show_tenths n @ '' '' @ byte_sizes ! i"
    using assms(1) \<open>i < 5\<close> by (simp add: formatBytes_def Let_def n_def i_def byte_sizes_def)
  with \<open>i < 5\<close> \<open>10 \<le> n\<close> \<open>n \<le> 10240\<close> close show ?thesis by blast
qed

theorem formatBytes_accurate_witness:
  "log_exact (\<lambda>_. 1) 1536 \<and> formatBytes (\<lambda>_. 1) 1536 = ''1.5 KB'' \<and>
   (\<exists>i n. i < 5 \<and> formatBytes (\<lambda>_. 1) 1536 = show_tenths n @ '' '' @ byte_sizes ! i)"
proof -
  have l: "log_exact (\<lambda>_. 1) 1536" by (simp add: log_exact_def)
  have "formatBytes (\<lambda>_. 1) 1536 = ''1.5 KB''"
    by (simp add: formatBytes_def toFixed1_def show_tenths_def byte_sizes_def show_nat.simps [of "Suc 0"] digit_char_def)
  with l formatBytes_accurate [OF _ _ l] show ?thesis by auto
qed

lemma member_colours_agree:
  "overviewColors st = memberColors st \<longleftrightarrow> st \<in> {''Alive'', ''Suspect'', ''Dead''}"
  by (auto simp: overviewColors_def memberColors_def)

end
