(* ===== verification/Hooks.thy ===== *)
theory Hooks
  imports Web
begin

text \<open>
  \<^verbatim>\<open>frontend/src/hooks/\<close>: the React hooks of the dashboard.  A hook is the state React keeps for
  it and one function per thing that can happen to the component: a render with new arguments, a
  call of the returned setter, a timer that fires.  Effects run after the render that changed
  their dependencies, their cleanup before the next run.  Time is in milliseconds; a timer fires
  at or after its deadline, never before.
\<close>

section \<open>use-debounce.ts\<close>

record 'v debounce =
  current :: 'v
  debounced :: 'v
  timer :: "(nat \<times> 'v) option"
  clock :: nat
  changed_at :: nat \<comment> \<open>when the current value was first rendered; read by no operation\<close>

datatype 'v debounce_event = Render 'v | Wait nat | Fire

definition useDebounce :: "nat \<Rightarrow> 'v \<Rightarrow> 'v debounce" where
  "useDebounce delay v = \<lparr>current = v, debounced = v, timer = Some (delay, v), clock = 0, changed_at = 0\<rparr>"

definition debounce_step :: "nat \<Rightarrow> 'v debounce_event \<Rightarrow> 'v debounce \<Rightarrow> 'v debounce" where
  "debounce_step delay ev s = (case ev of
      Render v \<Rightarrow> (if v = current s then s
        else s\<lparr>current := v, timer := Some (clock s + delay, v), changed_at := clock s\<rparr>)
    | Wait n \<Rightarrow> s\<lparr>clock := clock s + n\<rparr>
    | Fire \<Rightarrow> (case timer s of
        Some (d, v) \<Rightarrow> if d \<le> clock s then s\<lparr>debounced := v, timer := None\<rparr> else s
      | None \<Rightarrow> s))"

definition debounce_run :: "nat \<Rightarrow> 'v debounce_event list \<Rightarrow> 'v debounce \<Rightarrow> 'v debounce" where
  "debounce_run delay evs s = fold (debounce_step delay) evs s"

text \<open>A pending timer carries the current value and its full delay; with no timer pending the
  debounced value is the current one.\<close>

definition debounce_inv :: "nat \<Rightarrow> 'v debounce \<Rightarrow> bool" where
  "debounce_inv delay s \<longleftrightarrow> changed_at s \<le> clock s \<and>
     (case timer s of
        Some (d, v) \<Rightarrow> v = current s \<and> d = changed_at s + delay
      | None \<Rightarrow> debounced s = current s \<and> changed_at s + delay \<le> clock s)"

section \<open>use-local-storage.ts\<close>

definition useLocalStorage :: "string \<Rightarrow> json \<Rightarrow> web_storage \<Rightarrow> json" where
  "useLocalStorage key initialValue ls =
     (case getItem ls key of
        None \<Rightarrow> initialValue
      | Some item \<Rightarrow>
          if truthy_str item
          then (case JSON_parse (the item) of Some v \<Rightarrow> v | None \<Rightarrow> initialValue)
          else initialValue)"

definition setValue :: "string \<Rightarrow> (json \<Rightarrow> json) \<Rightarrow> json \<times> web_storage \<Rightarrow> json \<times> web_storage" where
  "setValue key upd s = (case s of (prev, ls) \<Rightarrow>
     (let nxt = upd prev
      in (nxt, (case setItem ls key (JSON_stringify nxt) of Some ls' \<Rightarrow> ls' | None \<Rightarrow> ls))))"

section \<open>use-theme.ts\<close>

definition THEME_KEY :: string where "THEME_KEY = ''chimera-theme''"

definition class_add :: "string \<Rightarrow> string list \<Rightarrow> string list" where
  "class_add c cs = (if c \<in> set cs then cs else cs @ [c])"

definition class_remove :: "string list \<Rightarrow> string list \<Rightarrow> string list" where
  "class_remove rs cs = filter (\<lambda>c. c \<notin> set rs) cs"

definition resolve_theme :: "bool \<Rightarrow> string \<Rightarrow> string" where
  "resolve_theme prefersDark t =
     (if t = ''system'' then (if prefersDark then ''dark'' else ''light'') else t)"

definition applyTheme :: "bool \<Rightarrow> string \<Rightarrow> string list \<Rightarrow> string list" where
  "applyTheme prefersDark t cs = class_add (resolve_theme prefersDark t) (class_remove [''light'', ''dark''] cs)"

record theme_state =
  theme :: string
  classes :: "string list"
  prefers_dark :: bool
  subscribed :: bool
  local_storage :: web_storage

definition as_theme :: "json \<Rightarrow> string option" where
  "as_theme v = (case v of JStr s \<Rightarrow> Some s | _ \<Rightarrow> None)"

text \<open>The effects of a render in which the theme changed (or of the first render): apply the
  class, subscribe to the media query exactly for \<open>system\<close>.\<close>

definition theme_effects :: "theme_state \<Rightarrow> theme_state" where
  "theme_effects s = s\<lparr>classes := applyTheme (prefers_dark s) (theme s) (classes s),
                       subscribed := (theme s = ''system'')\<rparr>"

definition mount_theme :: "string list \<Rightarrow> bool \<Rightarrow> web_storage \<Rightarrow> theme_state option" where
  "mount_theme cs dark ls =
     (case as_theme (useLocalStorage THEME_KEY (JStr ''system'') ls) of
        None \<Rightarrow> None
      | Some t \<Rightarrow> Some (theme_effects \<lparr>theme = t, classes = cs, prefers_dark = dark, subscribed = False, local_storage = ls\<rparr>))"

definition setTheme :: "string \<Rightarrow> theme_state \<Rightarrow> theme_state" where
  "setTheme t s =
     (let s' = s\<lparr>theme := t, local_storage := snd (setValue THEME_KEY (\<lambda>_. JStr t) (JStr (theme s), local_storage s))\<rparr>
      in if t = theme s then s' else theme_effects s')"

definition media_change :: "bool \<Rightarrow> theme_state \<Rightarrow> theme_state" where
  "media_change dark s =
     (let s' = s\<lparr>prefers_dark := dark\<rparr>
      in if subscribed s then s'\<lparr>classes := applyTheme dark ''system'' (classes s')\<rparr> else s')"

datatype theme_event = Pick string | Media bool

definition theme_step :: "theme_event \<Rightarrow> theme_state \<Rightarrow> theme_state" where
  "theme_step ev s = (case ev of Pick t \<Rightarrow> setTheme t s | Media b \<Rightarrow> media_change b s)"

definition theme_class :: "string \<Rightarrow> bool" where
  "theme_class c \<longleftrightarrow> c = ''light'' \<or> c = ''dark''"

definition is_theme :: "string \<Rightarrow> bool" where
  "is_theme t \<longleftrightarrow> t = ''light'' \<or> t = ''dark'' \<or> t = ''system''"

text \<open>The document shows exactly the resolved theme.\<close>

definition theme_inv :: "theme_state \<Rightarrow> bool" where
  "theme_inv s \<longleftrightarrow> is_theme (theme s) \<and> (subscribed s \<longleftrightarrow> theme s = ''system'') \<and>
     filter theme_class (classes s) = [resolve_theme (prefers_dark s) (theme s)]"

text \<open>The inline script of \<^verbatim>\<open>index.html\<close>, which runs before the first paint.  It adds the stored text as a
  class; a text with white space makes \<open>classList.add\<close> throw, which is caught.\<close>

definition flash_prevention :: "bool \<Rightarrow> web_storage \<Rightarrow> string list \<Rightarrow> string list" where
  "flash_prevention prefersDark ls cs = (case getItem ls THEME_KEY of
     None \<Rightarrow> cs
   | Some th \<Rightarrow>
      (if \<not> truthy_str th \<or> th = Some ''system'' then class_add (if prefersDark then ''dark'' else ''light'') cs
       else if list_ex is_ws (the th) then cs else class_add (the th) cs))"

section \<open>use-route-prefetch.ts\<close>

definition routeImporters :: "(string \<times> string) list" where
  "routeImporters =
     [(''/'', ''OverviewPage''), (''/topics'', ''TopicsPage''), (''/consumers'', ''ConsumersPage''),
      (''/cluster'', ''ClusterPage''), (''/schemas'', ''SchemasPage''), (''/dlq'', ''DLQPage''),
      (''/wasm'', ''WASMPage''), (''/processors'', ''ProcessorsPage'')]"

record prefetch =
  loaded :: "string set"
  imports_done :: "string list"

definition prefetchRoute :: "string \<Rightarrow> prefetch \<Rightarrow> prefetch" where
  "prefetchRoute path s =
     (if path \<in> loaded s then s
      else (let s' = s\<lparr>loaded := insert path (loaded s)\<rparr>
            in case map_of routeImporters path of
                 Some m \<Rightarrow> s'\<lparr>imports_done := imports_done s' @ [m]\<rparr>
               | None \<Rightarrow> s'))"

text \<open>One navigation link: the timer id in its React state, the browser's pending timers.\<close>

record hover =
  hover_timer :: "nat option"
  pending :: "(nat \<times> nat) list" \<comment> \<open>timer id and deadline\<close>
  next_id :: nat
  now :: nat
  pre :: prefetch

datatype hover_event = MouseEnter | MouseLeave | Pass nat | Timeout nat

definition onMouseEnter :: "nat \<Rightarrow> hover \<Rightarrow> hover" where
  "onMouseEnter delayMs s =
     s\<lparr>pending := pending s @ [(next_id s, now s + delayMs)], hover_timer := Some (next_id s), next_id := Suc (next_id s)\<rparr>"

definition onMouseLeave :: "hover \<Rightarrow> hover" where
  "onMouseLeave s =
     s\<lparr>pending := (case hover_timer s of Some t \<Rightarrow> filter (\<lambda>p. fst p \<noteq> t) (pending s) | None \<Rightarrow> pending s),
       hover_timer := None\<rparr>"

definition useRoutePrefetch :: "string \<Rightarrow> nat \<Rightarrow> hover_event \<Rightarrow> hover \<Rightarrow> hover" where
  "useRoutePrefetch path delayMs ev s = (case ev of
      MouseEnter \<Rightarrow> onMouseEnter delayMs s
    | MouseLeave \<Rightarrow> onMouseLeave s
    | Pass n \<Rightarrow> s\<lparr>now := now s + n\<rparr>
    | Timeout i \<Rightarrow> (case map_of (pending s) i of
        Some d \<Rightarrow> if d \<le> now s
          then s\<lparr>pending := filter (\<lambda>p. fst p \<noteq> i) (pending s), pre := prefetchRoute path (pre s)\<rparr> else s
      | None \<Rightarrow> s))"

section \<open>Debounce: lemmas\<close>

lemma debounce_inv_mount: "debounce_inv delay (useDebounce delay v)"
  by (simp add: debounce_inv_def useDebounce_def)

lemma debounce_inv_step: "debounce_inv delay s \<Longrightarrow> debounce_inv delay (debounce_step delay ev s)"
  by (cases ev) (auto simp: debounce_inv_def debounce_step_def split: option.splits)

lemma debounce_inv_run: "debounce_inv delay s \<Longrightarrow> debounce_inv delay (debounce_run delay evs s)"
  unfolding debounce_run_def by (induction evs arbitrary: s) (simp_all add: debounce_inv_step)

lemma debounce_run_append: "debounce_run delay (evs @ evs') s = debounce_run delay evs' (debounce_run delay evs s)"
  by (simp add: debounce_run_def)

lemma debounce_run_Cons: "debounce_run delay (ev # evs) s = debounce_run delay evs (debounce_step delay ev s)"
  by (simp add: debounce_run_def)

section \<open>Local storage: lemmas\<close>

lemma stringify_nonempty: "wf_json v \<Longrightarrow> JSON_stringify v \<noteq> []"
  using starts_stringify [of v] by (simp add: starts_value_def)

lemma useLocalStorage_stored:
  assumes "getItem ls key = Some (Some (JSON_stringify v))" and "wf_json v"
  shows "useLocalStorage key d ls = v"
  using assms by (simp add: useLocalStorage_def truthy_str_def stringify_nonempty JSON_parse_stringify)

section \<open>Theme: lemmas\<close>

lemma resolve_theme_cases: "is_theme t \<Longrightarrow> resolve_theme d t = ''light'' \<or> resolve_theme d t = ''dark''"
  by (auto simp: is_theme_def resolve_theme_def)

lemma applyTheme_shown:
  assumes "is_theme t"
  shows "filter theme_class (applyTheme d t cs) = [resolve_theme d t]"
proof -
  let ?r = "resolve_theme d t"
  have r: "?r = ''light'' \<or> ?r = ''dark''" using assms by (rule resolve_theme_cases)
  have "filter theme_class (class_remove [''light'', ''dark''] cs) = []"
    by (auto simp: class_remove_def filter_empty_conv theme_class_def)
  moreover have "?r \<notin> set (class_remove [''light'', ''dark''] cs)"
    using r by (auto simp: class_remove_def)
  ultimately show ?thesis using r by (auto simp: applyTheme_def class_add_def theme_class_def)
qed

lemma applyTheme_others:
  assumes "is_theme t"
  shows "filter (\<lambda>c. \<not> theme_class c) (applyTheme d t cs) = filter (\<lambda>c. \<not> theme_class c) cs"
  using resolve_theme_cases [OF assms, of d]
  by (auto simp: applyTheme_def class_add_def class_remove_def theme_class_def intro!: filter_cong)

lemma theme_inv_effects: "is_theme (theme s) \<Longrightarrow> theme_inv (theme_effects s)"
  by (simp add: theme_inv_def theme_effects_def applyTheme_shown)

lemma theme_inv_setTheme: "theme_inv s \<Longrightarrow> is_theme t \<Longrightarrow> theme_inv (setTheme t s)"
  using theme_inv_effects
  by (simp add: setTheme_def Let_def) (simp add: theme_inv_def)

lemma theme_inv_media: "theme_inv s \<Longrightarrow> theme_inv (media_change d s)"
proof (cases "theme s = ''system''")
  case True
  moreover assume "theme_inv s"
  ultimately show ?thesis
    using applyTheme_shown [of "''system''" d "classes s"]
    by (simp add: theme_inv_def media_change_def Let_def is_theme_def)
next
  case False
  moreover assume "theme_inv s"
  ultimately show ?thesis
    by (simp add: theme_inv_def media_change_def Let_def resolve_theme_def)
qed

section \<open>Prefetch: lemmas\<close>

lemma routeImporters_inj: "distinct (map fst routeImporters) \<and> distinct (map snd routeImporters)"
  by (simp add: routeImporters_def)

text \<open>What was imported comes from loaded paths, each once.\<close>

definition prefetch_inv :: "prefetch \<Rightarrow> bool" where
  "prefetch_inv s \<longleftrightarrow> distinct (imports_done s) \<and>
     (\<forall>p m. map_of routeImporters p = Some m \<longrightarrow> (p \<in> loaded s \<longleftrightarrow> m \<in> set (imports_done s)))"

lemma routeImporters_module:
  "map_of routeImporters p = Some m \<Longrightarrow> map_of routeImporters p' = Some m \<Longrightarrow> p = p'"
  using routeImporters_inj
  by (metis map_of_SomeD distinct_map inj_onD prod.inject snd_conv)

lemma prefetch_inv_step: "prefetch_inv s \<Longrightarrow> prefetch_inv (prefetchRoute path s)"
  using routeImporters_module
  by (auto simp: prefetch_inv_def prefetchRoute_def Let_def split: option.split)


section \<open>Properties\<close>

text \<open>Whatever was typed and however late timers ran before, once the input is left alone for the
  delay and the timer has fired, the debounced value is the current value.\<close>

theorem debounce_settles:
  "debounced (debounce_run delay (evs @ [Wait delay, Fire]) (useDebounce delay v)) =
   current (debounce_run delay evs (useDebounce delay v))"
proof -
  let ?s = "debounce_run delay evs (useDebounce delay v)"
  have "debounce_inv delay ?s" by (intro debounce_inv_run debounce_inv_mount)
  then show ?thesis
    by (auto simp: debounce_run_append debounce_run_Cons debounce_inv_def debounce_step_def debounce_run_def [of _ "[]"]
        split: option.splits)
qed

text \<open>The debounced value changes only by a timer, only to the current value, and only when that
  value has been unchanged for the whole delay: a value replaced within the delay never shows.\<close>

theorem debounce_not_early:
  assumes "s = debounce_run delay evs (useDebounce delay v)"
    and "debounced (debounce_step delay ev s) \<noteq> debounced s"
  shows "ev = Fire \<and> debounced (debounce_step delay ev s) = current s \<and> changed_at s + delay \<le> clock s"
proof -
  have "debounce_inv delay s" unfolding assms(1) by (intro debounce_inv_run debounce_inv_mount)
  with assms(2) show ?thesis
    by (cases ev) (auto simp: debounce_inv_def debounce_step_def split: option.splits if_splits)
qed

theorem debounce_not_early_witness:
  "current (debounce_run 300 [Render ''o'', Wait 100, Render ''or'', Wait 300] (useDebounce 300 '''')) = ''or'' \<and>
   debounced (debounce_step 300 Fire (debounce_run 300 [Render ''o'', Wait 100, Render ''or'', Wait 300] (useDebounce 300 ''''))) = ''or''"
proof -
  let ?s = "debounce_run 300 [Render ''o'', Wait 100, Render ''or'', Wait 300] (useDebounce 300 '''')"
  have c: "current ?s = ''or''" by code_simp
  moreover have "debounced (debounce_step 300 Fire ?s) \<noteq> debounced ?s" by code_simp
  from debounce_not_early [OF refl this] have "debounced (debounce_step 300 Fire ?s) = current ?s" by blast
  ultimately show ?thesis by simp
qed

text \<open>A setting written through the hook is the setting read by the next mount, for any updater,
  as long as the storage takes it.\<close>

theorem local_storage_round_trip:
  assumes "accessible ls" and "quota_left ls" and "wf_json (upd prev)"
  shows "useLocalStorage key d (snd (setValue key upd (prev, ls))) = upd prev \<and>
         fst (setValue key upd (prev, ls)) = upd prev"
proof -
  obtain ls' where put: "setItem ls key (JSON_stringify (upd prev)) = Some ls'"
    using assms by (simp add: setItem_def)
  have "getItem ls' key = Some (Some (JSON_stringify (upd prev)))"
    using ws.get_put [OF put] by simp
  then have "useLocalStorage key d ls' = upd prev" using assms(3) by (rule useLocalStorage_stored)
  then show ?thesis by (simp add: setValue_def Let_def put)
qed

theorem local_storage_round_trip_witness:
  "useLocalStorage THEME_KEY (JStr ''system'')
     (snd (setValue THEME_KEY (\<lambda>_. JStr ''dark'') (JStr ''system'', \<lparr>items = Map.empty, accessible = True, quota_left = True\<rparr>)))
   = JStr ''dark''"
  using local_storage_round_trip
    [of "\<lparr>items = Map.empty, accessible = True, quota_left = True\<rparr>" "\<lambda>_. JStr ''dark''" "JStr ''system''" THEME_KEY "JStr ''system''"]
  by simp

text \<open>Whatever themes are picked and however the system preference changes, the document element
  carries exactly one of the classes \<open>light\<close> and \<open>dark\<close>, the one the chosen theme resolves to.\<close>

theorem theme_class_invariant:
  assumes "mount_theme cs dark ls = Some s0" and "is_theme (theme s0)"
    and "list_all (\<lambda>ev. case ev of Pick t \<Rightarrow> is_theme t | Media _ \<Rightarrow> True) evs"
  shows "theme_inv (fold theme_step evs s0)"
proof -
  obtain r where "s0 = theme_effects r"
    using assms(1) by (auto simp: mount_theme_def split: option.splits)
  then have "theme_inv s0" using assms(2) theme_inv_effects [of r] by (simp add: theme_effects_def)
  with assms(3) show ?thesis
  proof (induction evs arbitrary: s0)
    case (Cons ev evs)
    then show ?case
      by (cases ev) (simp_all add: theme_step_def theme_inv_setTheme theme_inv_media)
  qed simp
qed

theorem theme_class_invariant_witness:
  "theme_inv (fold theme_step [Pick ''dark'', Media False, Pick ''system'', Media True]
     (the (mount_theme [''no-js'', ''light''] False \<lparr>items = Map.empty, accessible = True, quota_left = True\<rparr>)))"
proof -
  let ?ls = "\<lparr>items = Map.empty, accessible = True, quota_left = True\<rparr> :: web_storage"
  obtain s0 where m: "mount_theme [''no-js'', ''light''] False ?ls = Some s0" and t: "theme s0 = ''system''"
    by (simp add: mount_theme_def useLocalStorage_def getItem_def truthy_str_def as_theme_def theme_effects_def)
  have "is_theme (theme s0)" by (simp add: t is_theme_def)
  from theme_class_invariant [OF m this, of "[Pick ''dark'', Media False, Pick ''system'', Media True]"] m
  show ?thesis by (simp add: is_theme_def)
qed

text \<open>A theme chosen in the menu is stored in JSON syntax, and the script that should apply it before
  the first paint adds the quoted text as a class: the document has neither the class \<open>light\<close> nor the
  class \<open>dark\<close> until the application has mounted.\<close>

theorem flash_prevention_misses_theme:
  assumes "is_theme t" and "accessible (local_storage s)" and "quota_left (local_storage s)"
  shows "filter theme_class (flash_prevention dark (local_storage (setTheme t s)) []) = []"
proof -
  have "getItem (local_storage (setTheme t s)) THEME_KEY = Some (Some (JSON_stringify (JStr t)))"
    using assms(2, 3) by (simp add: setTheme_def setValue_def theme_effects_def setItem_def getItem_def Let_def)
  moreover have "JSON_stringify (JStr t) \<noteq> ''system'' \<and> JSON_stringify (JStr t) \<noteq> ''light'' \<and> JSON_stringify (JStr t) \<noteq> ''dark''"
    by (simp add: quote_str_def)
  ultimately show ?thesis
    by (simp add: flash_prevention_def class_add_def theme_class_def truthy_str_def quote_str_def)
qed

theorem flash_prevention_misses_theme_witness:
  "is_theme ''dark'' \<and>
   filter theme_class (flash_prevention True (local_storage (setTheme ''dark''
     \<lparr>theme = ''system'', classes = [], prefers_dark = True, subscribed = True,
      local_storage = \<lparr>items = Map.empty, accessible = True, quota_left = True\<rparr>\<rparr>)) []) = []"
  using flash_prevention_misses_theme [of "''dark''" "\<lparr>theme = ''system'', classes = [], prefers_dark = True, subscribed = True,
      local_storage = \<lparr>items = Map.empty, accessible = True, quota_left = True\<rparr>\<rparr>" True]
  by (simp add: is_theme_def)

text \<open>However often links are hovered, each page chunk is imported at most once, and the imported
  chunks are exactly those of the known routes that were prefetched.\<close>

lemma prefetch_imports_once:
  "distinct (imports_done (fold prefetchRoute paths \<lparr>loaded = {}, imports_done = []\<rparr>)) \<and>
   set (imports_done (fold prefetchRoute paths \<lparr>loaded = {}, imports_done = []\<rparr>)) =
     {m. \<exists>p. p \<in> set paths \<and> map_of routeImporters p = Some m}"
proof -
  have gen: "prefetch_inv s \<Longrightarrow> prefetch_inv (fold prefetchRoute paths s) \<and>
      set (imports_done (fold prefetchRoute paths s)) =
        set (imports_done s) \<union> {m. \<exists>p. p \<in> set paths \<and> map_of routeImporters p = Some m}" for s
  proof (induction paths arbitrary: s)
    case (Cons p paths)
    have "set (imports_done (prefetchRoute p s)) = set (imports_done s) \<union> {m. map_of routeImporters p = Some m}"
      using Cons.prems by (auto simp: prefetchRoute_def prefetch_inv_def Let_def split: option.splits)
    with Cons.IH [OF prefetch_inv_step [OF Cons.prems], of p] show ?case by auto
  qed simp
  show ?thesis
    using gen [of "\<lparr>loaded = {}, imports_done = []\<rparr>"] by (simp add: prefetch_inv_def)
qed

text \<open>A pointer that leaves a link before the delay is over causes no import: no timer of the
  visit is left, whatever other timers are pending.\<close>

lemma hover_leave_cancels:
  assumes "list_all (\<lambda>p. fst p < next_id s) (pending s)"
  shows "pending (fold (useRoutePrefetch path delay) [MouseEnter, Pass n, MouseLeave] s) = pending s \<and>
         pre (fold (useRoutePrefetch path delay) [MouseEnter, Pass n, MouseLeave] s) = pre s"
proof -
  have "filter (\<lambda>p. fst p \<noteq> next_id s) (pending s) = pending s"
    using assms by (auto simp: filter_id_conv list_all_iff)
  then show ?thesis by (simp add: useRoutePrefetch_def onMouseEnter_def onMouseLeave_def)
qed

end
