(* ===== verification/Login_Page.thy ===== *)
theory Login_Page
  imports Forms
begin

text \<open>
  \<^verbatim>\<open>frontend/src/pages/LoginPage.tsx\<close>.  \<open>handleSubmit\<close> is asynchronous: \<open>submit_start\<close> is what it does
  up to the \<open>fetch\<close>, \<open>submit_finish\<close> what it does once the \<open>fetch\<close> has settled, with the token of
  the render that was submitted.  The session is the storage, the auth store and the location.
\<close>

section \<open>State and submission\<close>

record login_page =
  tokenField :: string \<comment> \<open>\<open>token\<close>\<close>
  loginError :: string \<comment> \<open>\<open>error\<close>\<close>
  loginLoading :: bool \<comment> \<open>\<open>loading\<close>\<close>

definition login_init :: login_page where
  "login_init = \<lparr>tokenField = '''', loginError = '''', loginLoading = False\<rparr>"

datatype login_action = SetToken string | HandleSubmit

record session =
  ses_storage :: web_storage
  ses_auth :: auth_state
  ses_location :: string

definition auth_failed :: string where
  "auth_failed = ''Authentication failed - check your token and try again.''"

definition not_reached :: string where
  "not_reached = ''Could not reach the server.''"

definition submit_start :: "login_page \<Rightarrow> login_page" where
  "submit_start p = p\<lparr>loginError := '''', loginLoading := True\<rparr>"

definition submit_fetch :: "fetcher \<Rightarrow> string \<Rightarrow> fetch_outcome" where
  "submit_fetch fetch tok = fetch ''/v1/health/detailed'' [(''headers'', Hdrs [(''Authorization'', ''Bearer '' @ tok)])]"

definition submit_finish :: "string \<Rightarrow> fetch_outcome \<Rightarrow> login_page \<times> session \<Rightarrow> login_page \<times> session" where
  "submit_finish tok outcome ps = (case ps of (p, ses) \<Rightarrow>
     (case outcome of
        Network_error \<Rightarrow> (p\<lparr>loginError := not_reached, loginLoading := False\<rparr>, ses)
      | Response st reason b \<Rightarrow>
          (if \<not> res_ok st then (p\<lparr>loginError := auth_failed, loginLoading := False\<rparr>, ses)
           else (case login tok (ses_storage ses, ses_auth ses) of
               None \<Rightarrow> (p\<lparr>loginError := not_reached, loginLoading := False\<rparr>, ses)
             | Some (ss, a) \<Rightarrow> (p\<lparr>loginLoading := False\<rparr>,
                 ses\<lparr>ses_storage := ss, ses_auth := a, ses_location := ''/''\<rparr>)))))"

definition handleSubmit :: "fetcher \<Rightarrow> login_page \<times> session \<Rightarrow> login_page \<times> session" where
  "handleSubmit fetch ps =
     submit_finish (tokenField (fst ps)) (submit_fetch fetch (tokenField (fst ps))) (submit_start (fst ps), snd ps)"

section \<open>View\<close>

definition login_view :: "login_page \<Rightarrow> login_action vnode" where
  "login_view p = El TDiv []
     [El TCard []
       [El TCardHeader [] [El TCardTitle [] [Txt ''ChimeraMQ''], El TCardDescription [] [Txt ''Enter your access token to continue'']],
        El TCardContent []
         [El TForm [OnSubmit [HandleSubmit]]
           ([El TDiv []
              [El TLabel [] [Txt ''Access Token''],
               El TInput [Value (tokenField p), OnChange (\<lambda>v. [SetToken v])] []]]
            @ guard (loginError p \<noteq> []) [El TP [] [Txt (loginError p)]]
            @ [El TButton [Disabled (loginLoading p \<or> tokenField p = [])]
                [Txt (if loginLoading p then ''Authenticating...'' else ''Sign In'')]])]]]"

section \<open>Properties\<close>

text \<open>A submitted login ends in one of two ways.  Either the server accepted the token, the token was
  stored, the session is authenticated with exactly that token and the user is on the start page;
  or the page shows one of its two error messages and the session is as it was before.  The form
  is enabled again in both cases.\<close>

theorem login_submit_outcome:
  "let (p', ses') = handleSubmit fetch (p, ses) in
     \<not> loginLoading p' \<and> tokenField p' = tokenField p \<and>
     ((\<exists>st reason b. submit_fetch fetch (tokenField p) = Response st reason b \<and> res_ok st) \<and>
        token (ses_auth ses') = Some (tokenField p) \<and> isAuthenticated (ses_auth ses') \<and>
        getItem (ses_storage ses') TOKEN_KEY = Some (Some (tokenField p)) \<and>
        ses_location ses' = ''/'' \<and> loginError p' = ''''
      \<or> ses' = ses \<and> loginError p' \<in> {auth_failed, not_reached})"
proof (cases "submit_fetch fetch (tokenField p)")
  case Network_error
  then show ?thesis by (simp add: handleSubmit_def submit_finish_def submit_start_def)
next
  case (Response st reason b)
  then show ?thesis
    by (cases "setItem (ses_storage ses) TOKEN_KEY (tokenField p)")
      (auto simp: handleSubmit_def submit_finish_def submit_start_def login_def setItem_def getItem_def split: if_splits)
qed

text \<open>A token the server accepts but the browser cannot store is reported as an unreachable server,
  and the user stays signed out.\<close>

lemma login_storage_failure_message:
  assumes "submit_fetch fetch (tokenField p) = Response st reason b" and "res_ok st"
    and "\<not> (accessible (ses_storage ses) \<and> quota_left (ses_storage ses))"
  shows "loginError (fst (handleSubmit fetch (p, ses))) = not_reached \<and> snd (handleSubmit fetch (p, ses)) = ses"
  using assms by (auto simp: handleSubmit_def submit_finish_def submit_start_def login_def setItem_def)

definition full_session :: session where
  "full_session = \<lparr>ses_storage = \<lparr>items = Map.empty, accessible = True, quota_left = False\<rparr>,
     ses_auth = \<lparr>token = None, userId = None, roles = JArr [], isAuthenticated = False\<rparr>, ses_location = ''/login''\<rparr>"

end
