(* ===== verification/App_Shell.thy ===== *)
theory App_Shell
  imports Hooks Login_Page
begin

text \<open>
  The frame around the pages: \<^verbatim>\<open>App.tsx\<close>, \<^verbatim>\<open>components/layout\<close> (\<^verbatim>\<open>AppLayout\<close>, \<^verbatim>\<open>Sidebar\<close>, \<^verbatim>\<open>Header\<close>) and
  \<^verbatim>\<open>components/shared\<close> (\<^verbatim>\<open>AuthGuard\<close>, \<^verbatim>\<open>ErrorBoundary\<close>, \<^verbatim>\<open>SkipToContent\<close>, \<^verbatim>\<open>ThemeToggle\<close>).  Which route a
  location matches is decided by \<^verbatim>\<open>react-router\<close>, which is not part of the repository: it is the
  parameter \<open>matches\<close>, a function of the route's path and the location; \<open>matches_static\<close> states
  what is documented for paths without parameters.  The breakpoint of the sidebar is \<^verbatim>\<open>md\<close>, that of the
  pages \<^verbatim>\<open>sm\<close>; both are represented by the two screens of a tree.
\<close>

section \<open>Routes\<close>

datatype page = OverviewPage | TopicsPage | ConsumersPage | ClusterPage | SchemasPage | DLQPage | WASMPage | ProcessorsPage

fun page_module :: "page \<Rightarrow> string" where
  "page_module OverviewPage = ''OverviewPage''"
| "page_module TopicsPage = ''TopicsPage''"
| "page_module ConsumersPage = ''ConsumersPage''"
| "page_module ClusterPage = ''ClusterPage''"
| "page_module SchemasPage = ''SchemasPage''"
| "page_module DLQPage = ''DLQPage''"
| "page_module WASMPage = ''WASMPage''"
| "page_module ProcessorsPage = ''ProcessorsPage''"

text \<open>The children of the route \<open>/\<close>, with their full paths; the first one is the index route.\<close>

definition app_routes :: "(string \<times> page) list" where
  "app_routes =
     [(''/'', OverviewPage), (''/topics'', TopicsPage), (''/consumers'', ConsumersPage), (''/cluster'', ClusterPage),
      (''/schemas'', SchemasPage), (''/dlq'', DLQPage), (''/wasm'', WASMPage), (''/processors'', ProcessorsPage)]"

definition login_path :: string where "login_path = ''/login''"

datatype app_screen =
    ShowLogin
  | ShowPage page    \<comment> \<open>the page inside \<open>AppLayout\<close>\<close>
  | Navigate string  \<comment> \<open>\<open><Navigate to=... replace />\<close>\<close>
  | NoRoute          \<comment> \<open>nothing but the toaster\<close>

definition AuthGuard :: "auth_state \<Rightarrow> app_screen \<Rightarrow> app_screen" where
  "AuthGuard st children = (if \<not> isAuthenticated st then Navigate login_path else children)"

definition App :: "(string \<Rightarrow> string \<Rightarrow> bool) \<Rightarrow> auth_state \<Rightarrow> string \<Rightarrow> app_screen" where
  "App matches st loc =
     (if matches login_path loc then ShowLogin
      else case find (\<lambda>(p, pg). matches p loc) app_routes of
        Some (p, pg) \<Rightarrow> AuthGuard st (ShowPage pg)
      | None \<Rightarrow> NoRoute)"

definition matches_static :: "(string \<Rightarrow> string \<Rightarrow> bool) \<Rightarrow> bool" where
  "matches_static matches \<longleftrightarrow>
     (\<forall>p \<in> insert login_path (fst ` set app_routes). \<forall>q \<in> insert login_path (fst ` set app_routes). matches p q \<longleftrightarrow> p = q)"

definition PageFallback :: "unit vnode" where
  "PageFallback = El TDiv []
     [El TSkeleton [] [], El TDiv [] (map (\<lambda>i. El TSkeleton [Key (show_nat i)] []) [1, 2, 3, 4])]"

section \<open>The theme menu\<close>

text \<open>\<open>iconMap[theme]\<close> is undefined for a value outside its three keys, and rendering an undefined
  component throws.\<close>

definition iconMap :: "string \<Rightarrow> string option" where
  "iconMap t = map_of [(''light'', ''Sun''), (''dark'', ''Moon''), (''system'', ''Monitor'')] t"

datatype shell_action =
    SetSidebarOpen bool
  | SetCollapsed bool
  | GoTo string
  | SignOut
  | SetTheme string
  | ResetError

definition ThemeToggle :: "string \<Rightarrow> shell_action vnode option" where
  "ThemeToggle t = map_option (\<lambda>icon. El TTooltip []
     [El TDropdownMenu []
       [El TButton [AriaLabel ''Switch theme''] [El TSpan [Key icon] []],
        El TDropdownMenuItem [OnClick [SetTheme ''light''], Checked (t = ''light'')] [Txt ''Light''],
        El TDropdownMenuItem [OnClick [SetTheme ''dark''], Checked (t = ''dark'')] [Txt ''Dark''],
        El TDropdownMenuItem [OnClick [SetTheme ''system''], Checked (t = ''system'')] [Txt ''System'']],
      Txt ''Switch theme'']) (iconMap t)"

section \<open>Sidebar, header and layout\<close>

definition navItems :: "(string \<times> string) list" where
  "navItems =
     [(''/'', ''Overview''), (''/topics'', ''Topics''), (''/consumers'', ''Consumers''), (''/cluster'', ''Cluster''),
      (''/schemas'', ''Schemas''), (''/dlq'', ''DLQ''), (''/wasm'', ''WASM''), (''/processors'', ''Processors'')]"

definition NavIcon :: "string \<Rightarrow> bool \<Rightarrow> shell_action vnode" where
  "NavIcon label collapsed = (if \<not> collapsed then El TSpan [] [] else El TTooltip [] [El TSpan [] [], Txt label])"

definition LogoutButton :: "bool \<Rightarrow> shell_action vnode" where
  "LogoutButton collapsed = El TButton [Variant VGhost, OnClick [SignOut], AriaLabel ''Sign out'']
     (guard (\<not> collapsed) [El TSpan [] [Txt ''Sign Out'']])"

definition nav_link :: "bool \<Rightarrow> string \<times> string \<Rightarrow> shell_action vnode" where
  "nav_link collapsed i = El TNavLink [Key (fst i), Value (fst i), OnClick [GoTo (fst i), SetSidebarOpen False]]
     [NavIcon (snd i) collapsed, El TSpan [] [Txt (snd i)]]"

definition Sidebar :: "bool \<Rightarrow> app_state \<Rightarrow> auth_state \<Rightarrow> shell_action vnode" where
  "Sidebar opened app st = El TFragment []
     (guard opened [El TDiv [Vis Mobile, OnClick [SetSidebarOpen False]] []] @
      [El TAside [AriaLabel ''Sidebar'', Open opened]
        [El TDiv []
          (guard (\<not> sidebarCollapsed app)
             [El TDiv [] [El TSpan [] [Txt ''ChimeraMQ''], El TSpan [] [Txt ''Three Heads. One Binary.'']]]
           @ [El TDiv []
               [El TButton [Variant VGhost, Vis Desktop, OnClick [SetCollapsed (\<not> sidebarCollapsed app)],
                            AriaLabel (if sidebarCollapsed app then ''Expand sidebar'' else ''Collapse sidebar'')] [],
                El TButton [Vis Mobile, OnClick [SetSidebarOpen False], AriaLabel ''Close sidebar''] []]]),
         El TNav [AriaLabel ''Main navigation''] (map (nav_link (sidebarCollapsed app)) navItems),
         El TDiv [] (guard (isAuthenticated st) [El TDiv [] [LogoutButton (sidebarCollapsed app)]])]])"

definition Header :: "string \<Rightarrow> shell_action vnode option" where
  "Header t = map_option (\<lambda>toggle. El THeader []
     [El TButton [Vis Mobile, OnClick [SetSidebarOpen True], AriaLabel ''Open sidebar''] [], El TDiv [] [], toggle])
     (ThemeToggle t)"

record shell =
  sidebarOpen :: bool
  shell_app :: app_state
  shell_session :: session
  shell_theme :: theme_state

text \<open>The layout around the page of the current route.\<close>

definition AppLayout :: "shell \<Rightarrow> shell_action vnode option \<Rightarrow> shell_action vnode option" where
  "AppLayout s outlet = (case (Header (theme (shell_theme s)), outlet) of
     (Some h, Some page) \<Rightarrow> Some (El TDiv []
        [Sidebar (sidebarOpen s) (shell_app s) (ses_auth (shell_session s)),
         El TDiv [] [h, El TMain [Value ''main-content''] [page]]])
   | _ \<Rightarrow> None)"

definition SkipToContent :: "shell_action vnode" where
  "SkipToContent = El TA [Value ''#main-content''] [Txt ''Skip to main content'']"

text \<open>The handlers.  \<open>logout()\<close> may throw when the storage is not accessible; then the handler ends
  there and the location stays.\<close>

fun shell_act :: "shell_action \<Rightarrow> shell \<Rightarrow> shell" where
  "shell_act (SetSidebarOpen b) s = s\<lparr>sidebarOpen := b\<rparr>"
| "shell_act (SetCollapsed b) s = s\<lparr>shell_app := setSidebarCollapsed b (shell_app s)\<rparr>"
| "shell_act (GoTo p) s = s\<lparr>shell_session := (shell_session s)\<lparr>ses_location := p\<rparr>\<rparr>"
| "shell_act SignOut s =
     (case logout (ses_storage (shell_session s), ses_auth (shell_session s)) of
        None \<Rightarrow> s
      | Some (ss, a) \<Rightarrow> s\<lparr>shell_session := \<lparr>ses_storage = ss, ses_auth = a, ses_location = login_path\<rparr>\<rparr>)"
| "shell_act (SetTheme t) s = s\<lparr>shell_theme := setTheme t (shell_theme s)\<rparr>"
| "shell_act ResetError s = s"

section \<open>The error boundary\<close>

record boundary =
  hasError :: bool
  error :: "string option"

definition boundary_init :: boundary where
  "boundary_init = \<lparr>hasError = False, error = None\<rparr>"

definition getDerivedStateFromError :: "string option \<Rightarrow> boundary" where
  "getDerivedStateFromError msg = \<lparr>hasError = True, error = msg\<rparr>"

definition error_card :: "boundary \<Rightarrow> shell_action vnode" where
  "error_card b = El TDiv []
     [El TCard []
       [El TCardHeader [] [El TCardTitle [] [Txt ''Something went wrong'']],
        El TCardContent []
         [El TP [] [Txt (case error b of Some m \<Rightarrow> m | None \<Rightarrow> ''An unexpected error occurred'')],
          El TButton [Variant VOutline, OnClick [ResetError]] [Txt ''Try again'']]]]"

text \<open>One render of the boundary: \<open>Inl msg\<close> are children that throw.  React then derives the error
  state and renders again.\<close>

definition ErrorBoundary :: "string option + shell_action vnode \<Rightarrow> boundary \<Rightarrow> boundary \<times> shell_action vnode" where
  "ErrorBoundary children b =
     (if hasError b then (b, error_card b)
      else case children of
        Inr v \<Rightarrow> (b, v)
      | Inl msg \<Rightarrow> (let b' = getDerivedStateFromError msg in (b', error_card b')))"

definition boundary_reset :: "boundary \<Rightarrow> boundary" where
  "boundary_reset b = \<lparr>hasError = False, error = None\<rparr>"


section \<open>Lemmas\<close>

lemma App_guarded: "\<not> isAuthenticated st \<Longrightarrow> App matches st loc \<in> {ShowLogin, Navigate login_path, NoRoute}"
  by (auto simp: App_def AuthGuard_def split: option.split)

lemma find_key: "distinct (map fst xs) \<Longrightarrow> (p, v) \<in> set xs \<Longrightarrow> find (\<lambda>(q, w). q = p) xs = Some (p, v)"
  by (induction xs) (auto simp: rev_image_eqI)

lemma App_static:
  assumes "matches_static matches" and "(p, pg) \<in> set app_routes"
  shows "App matches st p = AuthGuard st (ShowPage pg)"
proof -
  have p: "p \<in> insert login_path (fst ` set app_routes)" using assms(2) by (simp add: rev_image_eqI)
  have m: "q \<in> insert login_path (fst ` set app_routes) \<Longrightarrow> matches q p \<longleftrightarrow> q = p" for q
    using assms(1) p unfolding matches_static_def by blast
  have "\<not> matches login_path p" using m assms(2) by (auto simp: app_routes_def login_path_def)
  moreover have "(case x of (q, g) \<Rightarrow> matches q p) = (case x of (q, g) \<Rightarrow> q = p)" if "x \<in> set app_routes" for x
    using m [of "fst x"] that by (cases x) (simp add: rev_image_eqI)
  then have "find (\<lambda>(q, g). matches q p) app_routes = find (\<lambda>(q, g). q = p) app_routes"
    by (intro find_cong refl) simp
  moreover have "distinct (map fst app_routes)" by (simp add: app_routes_def)
  then have "find (\<lambda>(q, g). q = p) app_routes = Some (p, pg)" using assms(2) by (rule find_key)
  ultimately show ?thesis by (simp add: App_def)
qed

lemma App_login: "matches_static matches \<Longrightarrow> App matches st login_path = ShowLogin"
  by (simp add: App_def matches_static_def)

lemma matches_static_eq: "matches_static (=)"
  by (simp add: matches_static_def)

lemma logout_some:
  "accessible ss \<Longrightarrow> \<exists>ss' a'. logout (ss, a) = Some (ss', a') \<and> \<not> isAuthenticated a' \<and> token a' = None"
  by (simp add: logout_def removeItem_def)

section \<open>Properties\<close>

text \<open>C8: Without a signed-in user no route of the dashboard shows a page: the location shows the login
  form, redirects to it, or matches nothing, whatever the router's matching is; and with the
  documented matching the target of the redirect shows the login form.\<close>

theorem pages_need_login:
  assumes "\<not> isAuthenticated st"
  shows "App matches st loc \<notin> range ShowPage \<and> (matches_static matches \<longrightarrow> App matches st login_path = ShowLogin)"
  using App_guarded [OF assms, of matches loc] App_login by auto

theorem pages_need_login_witness:
  "\<not> isAuthenticated (ses_auth full_session) \<and> App (=) (ses_auth full_session) ''/topics'' \<notin> range ShowPage"
proof -
  have "\<not> isAuthenticated (ses_auth full_session)" by (simp add: full_session_def)
  with pages_need_login [OF this, of "(=)" "''/topics''"] show ?thesis by blast
qed

text \<open>Every entry of the navigation leads a signed-in user to a page, hovering it prefetches the chunk
  of that very page, different entries lead to different pages, and every page has an entry.\<close>

theorem navigation_consistent:
  assumes "matches_static matches" and "isAuthenticated st"
  shows "map (\<lambda>(p, l). App matches st p) navItems = map (\<lambda>(p, pg). ShowPage pg) app_routes \<and>
    map (\<lambda>(p, l). map_of routeImporters p) navItems = map (\<lambda>(p, pg). Some (page_module pg)) app_routes \<and>
    distinct (map snd app_routes) \<and> set (map snd app_routes) = UNIV"
proof -
  have "App matches st p = ShowPage pg" if "(p, pg) \<in> set app_routes" for p pg
    using App_static [OF assms(1) that, of st] assms(2) by (simp add: AuthGuard_def)
  then have "map (\<lambda>(p, l). App matches st p) navItems = map (\<lambda>(p, pg). ShowPage pg) app_routes"
    by (simp add: navItems_def app_routes_def)
  moreover have "map (\<lambda>(p, l). map_of routeImporters p) navItems = map (\<lambda>(p, pg). Some (page_module pg)) app_routes"
    by (simp add: navItems_def app_routes_def routeImporters_def)
  moreover have "set (map snd app_routes) = UNIV"
    unfolding app_routes_def by (auto intro: page.exhaust)
  ultimately show ?thesis by (simp add: app_routes_def)
qed

theorem navigation_consistent_witness:
  "matches_static (=) \<and> length navItems = 8 \<and>
   map (\<lambda>(p, l). App (=) (useAuthStore \<lparr>items = [TOKEN_KEY \<mapsto> ''t''], accessible = True, quota_left = True\<rparr>) p) navItems =
     map (\<lambda>(p, pg). ShowPage pg) app_routes"
proof -
  let ?st = "useAuthStore \<lparr>items = [TOKEN_KEY \<mapsto> ''t''], accessible = True, quota_left = True\<rparr>"
  have "isAuthenticated ?st"
    by (simp add: useAuthStore_def loadStored_def getItem_def truthy_str_def TOKEN_KEY_def USER_KEY_def ROLES_KEY_def)
  from navigation_consistent [OF matches_static_eq this] matches_static_eq show ?thesis by (simp add: navItems_def)
qed

text \<open>Signing out with an accessible storage ends on the login page, without a token, whatever the
  shell's state was; the pages are then closed.\<close>

theorem sign_out_locks:
  assumes "matches_static matches" and "accessible (ses_storage (shell_session s))"
  shows "App matches (ses_auth (shell_session (shell_act SignOut s))) (ses_location (shell_session (shell_act SignOut s))) = ShowLogin \<and>
    token (ses_auth (shell_session (shell_act SignOut s))) = None \<and>
    App matches (ses_auth (shell_session (shell_act SignOut s))) loc \<notin> range ShowPage"
proof -
  obtain ss' a' where "logout (ses_storage (shell_session s), ses_auth (shell_session s)) = Some (ss', a')"
    "\<not> isAuthenticated a'" "token a' = None"
    using logout_some [OF assms(2), of "ses_auth (shell_session s)"] by blast
  then show ?thesis using App_guarded [of a' matches loc] App_login [OF assms(1), of a'] by auto
qed

definition shell_ex :: shell where
  "shell_ex = \<lparr>sidebarOpen = False, shell_app = useAppState, shell_session = full_session,
     shell_theme = \<lparr>theme = ''dark'', classes = [], prefers_dark = False, subscribed = False,
       local_storage = ses_storage full_session\<rparr>\<rparr>"

theorem sign_out_locks_witness:
  "accessible (ses_storage (shell_session shell_ex)) \<and>
   App (=) (ses_auth (shell_session (shell_act SignOut shell_ex))) ''/dlq'' \<notin> range ShowPage"
proof -
  have a: "accessible (ses_storage (shell_session shell_ex))" by (simp add: shell_ex_def full_session_def)
  from sign_out_locks [OF matches_static_eq a] a show ?thesis by blast
qed

text \<open>The page header renders exactly for the three known themes.  The stored theme is not validated:
  any other string in the storage is taken over at start, the header throws, and with it the whole
  layout.\<close>

theorem stored_theme_decides_layout:
  assumes "getItem ls THEME_KEY = Some (Some (JSON_stringify (JStr t)))"
  shows "\<exists>th. mount_theme cs dark ls = Some th \<and> theme th = t \<and>
    (AppLayout (s\<lparr>shell_theme := th\<rparr>) (Some v) = None \<longleftrightarrow> t \<notin> {''light'', ''dark'', ''system''})"
proof -
  have "useLocalStorage THEME_KEY (JStr ''system'') ls = JStr t"
    using assms JSON_parse_stringify [of "JStr t"]
    by (simp add: useLocalStorage_def truthy_str_def quote_str_def)
  then show ?thesis
    by (auto simp: mount_theme_def as_theme_def theme_effects_def AppLayout_def Header_def ThemeToggle_def iconMap_def)
qed

theorem stored_theme_decides_layout_witness:
  "\<exists>th. mount_theme [] False \<lparr>items = [THEME_KEY \<mapsto> JSON_stringify (JStr ''blue'')], accessible = True, quota_left = True\<rparr> = Some th \<and>
     AppLayout (shell_ex\<lparr>shell_theme := th\<rparr>) (Some SkipToContent) = None"
proof -
  let ?ls = "\<lparr>items = [THEME_KEY \<mapsto> JSON_stringify (JStr ''blue'')], accessible = True, quota_left = True\<rparr>"
  have g: "getItem ?ls THEME_KEY = Some (Some (JSON_stringify (JStr ''blue'')))" by (simp add: getItem_def)
  from stored_theme_decides_layout [OF g, of "[]" False shell_ex SkipToContent] show ?thesis by auto
qed

text \<open>The error boundary always renders: the children when they render, otherwise the error card
  with the message of the exception; trying again shows the children once they render and the
  card again as long as they do not.\<close>

lemma error_boundary_contains:
  "snd (ErrorBoundary children boundary_init) =
     (case children of Inr v \<Rightarrow> v | Inl msg \<Rightarrow> error_card \<lparr>hasError = True, error = msg\<rparr>) \<and>
   snd (ErrorBoundary later (boundary_reset (fst (ErrorBoundary children boundary_init)))) =
     (case later of Inr v \<Rightarrow> v | Inl msg \<Rightarrow> error_card \<lparr>hasError = True, error = msg\<rparr>) \<and>
   (children = Inl msg' \<longrightarrow> snd (ErrorBoundary later (fst (ErrorBoundary children boundary_init))) =
     error_card \<lparr>hasError = True, error = msg'\<rparr>)"
  by (auto simp: ErrorBoundary_def boundary_init_def boundary_reset_def getDerivedStateFromError_def Let_def split: sum.split)

end
