(* ===== verification/Ui.thy ===== *)
theory Ui
  imports Prelude
begin

text \<open>
  \<^verbatim>\<open>frontend/src/components/ui\<close> and \<^verbatim>\<open>lib/utils.ts\<close>: the wrappers that give elements and Radix primitives
  their classes.  A wrapper is a function from the ref, the properties and the children it is given
  to the element it renders.  Properties are objects, association lists with distinct keys; a
  property that is not given is absent.  A JSX spread writes the remaining properties over the attributes before it,
  which is \<open>spread\<close>; the properties a wrapper takes apart by name are removed from the rest.

  \<open>clsx\<close>, \<open>twMerge\<close> and \<open>cva\<close> are third-party functions, the fields of \<open>ui_lib\<close>; \<open>lib_ok\<close> states what their
  documentation promises of \<open>clsx\<close> and \<open>cva\<close>, and \<open>lib_doc\<close> meets it.
\<close>

section \<open>Elements\<close>

datatype uval = UStr string | UNum int | UBool bool | UFun nat

type_synonym props = "(string \<times> uval) list"

datatype unode = UTxt string | UEl string props "unode list"

datatype class_value = CStr string | CFalse | CUndefined

record cva_config =
  cva_variants :: "(string \<times> (string \<times> string) list) list"
  cva_defaults :: "(string \<times> string) list"

record ui_lib =
  lib_clsx :: "class_value list \<Rightarrow> string"
  lib_twMerge :: "string \<Rightarrow> string"
  lib_cva :: "string \<Rightarrow> cva_config \<Rightarrow> props \<Rightarrow> string"

type_synonym ui_component = "ui_lib \<Rightarrow> uval option \<Rightarrow> props \<Rightarrow> unode list \<Rightarrow> unode"

definition cn :: "ui_lib \<Rightarrow> class_value list \<Rightarrow> string" where
  "cn L inputs = lib_twMerge L (lib_clsx L inputs)"

text \<open>Taking properties apart: \<open>({ className, x = d, ...props })\<close>.\<close>

definition omit :: "string list \<Rightarrow> props \<Rightarrow> props" where
  "omit ks p = filter (\<lambda>(k, v). k \<notin> set ks) p"

definition or_default :: "props \<Rightarrow> string \<Rightarrow> uval \<Rightarrow> uval" where
  "or_default p k d = (case map_of p k of Some v \<Rightarrow> v | None \<Rightarrow> d)"

definition className :: "props \<Rightarrow> class_value" where
  "className p = (case map_of p ''className'' of Some (UStr s) \<Rightarrow> CStr s | _ \<Rightarrow> CUndefined)"

definition cond_class :: "bool \<Rightarrow> string \<Rightarrow> class_value" where
  "cond_class b s = (if b then CStr s else CFalse)"

definition inset_class :: "props \<Rightarrow> class_value" where
  "inset_class p = (case map_of p ''inset'' of Some (UBool b) \<Rightarrow> cond_class b ''pl-8'' | _ \<Rightarrow> CUndefined)"

text \<open>\<open><t attrs {...rest}>cs</t>\<close>\<close>

definition attr_opt :: "string \<Rightarrow> uval option \<Rightarrow> props" where
  "attr_opt k v = (case v of Some x \<Rightarrow> [(k, x)] | None \<Rightarrow> [])"

definition jsx :: "string \<Rightarrow> props \<Rightarrow> props \<Rightarrow> unode list \<Rightarrow> unode" where
  "jsx t attrs others cs = UEl t (spread attrs others) cs"

definition class_attr :: "ui_lib \<Rightarrow> class_value list \<Rightarrow> string \<times> uval" where
  "class_attr L cs = (''className'', UStr (cn L cs))"

definition fixed :: "string \<Rightarrow> string \<Rightarrow> unode list \<Rightarrow> unode" where
  "fixed t c cs = UEl t [(''className'', UStr c)] cs"

text \<open>Most wrappers add a class to one element and pass everything on.\<close>

definition styled :: "string \<Rightarrow> string \<Rightarrow> ui_component" where
  "styled t c L r p cs = jsx t (attr_opt ''ref'' r @ [class_attr L [CStr c, className p]]) (omit [''className''] p) cs"

definition slotted :: "string \<Rightarrow> string \<Rightarrow> string \<Rightarrow> ui_component" where
  "slotted t slot c L r p cs = jsx t [(''data-slot'', UStr slot), class_attr L [CStr c, className p]] (omit [''className''] p) cs"

section \<open>Start of the application\<close>

text \<open>\<^verbatim>\<open>main.tsx\<close>: the options of the query client and the tree mounted at the element with the identifier \<open>root\<close>.\<close>

record query_options =
  staleTime :: nat
  retry :: nat
  refetchOnWindowFocus :: bool

definition queryClient :: query_options where
  "queryClient = \<lparr>staleTime = 30000, retry = 1, refetchOnWindowFocus = False\<rparr>"

definition main_tree :: "string \<times> unode" where
  "main_tree = (''root'', UEl ''StrictMode'' []
     [UEl ''QueryClientProvider'' [(''client'', UFun 0)] [UEl ''BrowserRouter'' [] [UEl ''App'' [] []]]])"

section \<open>Buttons and badges\<close>

definition button_config :: cva_config where
  "button_config =
     \<lparr>cva_variants =
       [(''variant'',
         [(''default'', ''bg-accent text-accent-foreground hover:bg-accent-hover''),
          (''destructive'', ''bg-error text-white hover:bg-error/90''),
          (''outline'', ''border border-border bg-background hover:bg-background-muted''),
          (''secondary'', ''bg-background-muted text-foreground hover:bg-background-muted/80''),
          (''ghost'', ''hover:bg-background-muted''),
          (''link'', ''text-accent underline-offset-4 hover:underline'')]),
        (''size'',
         [(''default'', ''h-10 px-4 py-2''),
          (''sm'', ''h-8 rounded-md px-3 text-xs''),
          (''lg'', ''h-12 rounded-md px-8''),
          (''icon'', ''h-10 w-10'')])],
      cva_defaults = [(''variant'', ''default''), (''size'', ''default'')]\<rparr>"

definition button_base :: string where
  "button_base = ''inline-flex items-center justify-center gap-2 whitespace-nowrap rounded-md text-sm font-medium transition-colors focus-visible:outline-none focus-visible:ring-2 focus-visible:ring-ring focus-visible:ring-offset-2 disabled:pointer-events-none disabled:opacity-50''"

definition buttonVariants :: "ui_lib \<Rightarrow> props \<Rightarrow> string" where
  "buttonVariants L = lib_cva L button_base button_config"

definition Button :: ui_component where
  "Button L r p cs =
     jsx (if map_of p ''asChild'' = Some (UBool True) then ''Slot'' else ''button'')
       ([(''className'', UStr (cn L [CStr (buttonVariants L (filter (\<lambda>(k, v). k \<in> {''variant'', ''size'', ''className''}) p))]))] @ attr_opt ''ref'' r)
       (omit [''className'', ''variant'', ''size'', ''asChild''] p) cs"

definition badge_config :: cva_config where
  "badge_config =
     \<lparr>cva_variants =
       [(''variant'',
         [(''default'', ''border-transparent bg-accent/10 text-accent''),
          (''secondary'', ''border-transparent bg-background-muted text-foreground''),
          (''success'', ''border-transparent bg-success/10 text-success''),
          (''warning'', ''border-transparent bg-warning/10 text-warning''),
          (''destructive'', ''border-transparent bg-error/10 text-error''),
          (''outline'', ''text-foreground'')])],
      cva_defaults = [(''variant'', ''default'')]\<rparr>"

definition badgeVariants :: "ui_lib \<Rightarrow> props \<Rightarrow> string" where
  "badgeVariants L = lib_cva L
     ''inline-flex items-center rounded-full border px-2.5 py-0.5 text-xs font-semibold transition-colors''
     badge_config"

definition Badge :: ui_component where
  "Badge L r p cs = jsx ''div''
     [class_attr L [CStr (badgeVariants L (filter (\<lambda>(k, v). k = ''variant'') p)), className p]]
     (omit [''className'', ''variant''] p) cs"

section \<open>Cards, tables, form elements\<close>

definition Card :: ui_component where
  "Card = styled ''div'' ''rounded-lg border border-border bg-surface shadow-sm''"

definition CardHeader :: ui_component where
  "CardHeader = styled ''div'' ''flex flex-col space-y-1.5 p-6''"

definition CardTitle :: ui_component where
  "CardTitle = styled ''h3'' ''text-lg font-semibold leading-none tracking-tight''"

definition CardDescription :: ui_component where
  "CardDescription = styled ''p'' ''text-sm text-text-secondary''"

definition CardContent :: ui_component where
  "CardContent = styled ''div'' ''p-6 pt-0''"

definition CardFooter :: ui_component where
  "CardFooter = styled ''div'' ''flex items-center p-6 pt-0''"

definition Table :: ui_component where
  "Table L r p cs = fixed ''div'' ''relative w-full overflow-auto''
     [styled ''table'' ''w-full caption-bottom text-sm'' L r p cs]"

definition TableHeader :: ui_component where
  "TableHeader = styled ''thead'' ''[&_tr]:border-b''"

definition TableBody :: ui_component where
  "TableBody = styled ''tbody'' ''[&_tr:last-child]:border-0''"

definition TableFooter :: ui_component where
  "TableFooter = styled ''tfoot'' ''border-t bg-background-muted/50 font-medium''"

definition TableRow :: ui_component where
  "TableRow = styled ''tr'' ''border-b border-border transition-colors hover:bg-background-muted/50''"

definition TableHead :: ui_component where
  "TableHead = styled ''th'' ''h-12 px-4 text-left align-middle font-medium text-text-secondary [&:has([role=checkbox])]:pr-0''"

definition TableCell :: ui_component where
  "TableCell = styled ''td'' ''px-4 py-3 align-middle [&:has([role=checkbox])]:pr-0''"

definition TableCaption :: ui_component where
  "TableCaption = styled ''caption'' ''mt-4 text-sm text-text-muted''"

definition Input :: ui_component where
  "Input L r p cs = jsx ''input''
     (attr_opt ''type'' (map_of p ''type'') @ [class_attr L
       [CStr ''flex h-10 w-full rounded-md border border-border bg-background px-3 py-2 text-sm text-foreground placeholder:text-text-muted focus-visible:outline-none focus-visible:ring-2 focus-visible:ring-ring focus-visible:ring-offset-2 disabled:cursor-not-allowed disabled:opacity-50'',
        className p]] @ attr_opt ''ref'' r)
     (omit [''className'', ''type''] p) cs"

definition Label :: ui_component where
  "Label = styled ''LabelPrimitive.Root'' ''text-sm font-medium leading-none peer-disabled:cursor-not-allowed peer-disabled:opacity-70''"

definition Separator :: ui_component where
  "Separator L r p cs =
     (let orientation = or_default p ''orientation'' (UStr ''horizontal''); decorative = or_default p ''decorative'' (UBool True)
      in jsx ''SeparatorPrimitive.Root''
        (attr_opt ''ref'' r @ [(''decorative'', decorative), (''orientation'', orientation),
         class_attr L [CStr ''shrink-0 bg-border'',
           CStr (if orientation = UStr ''horizontal'' then ''horizontal'' else ''h-[1px] w-full''), className p]])
        (omit [''className'', ''orientation'', ''decorative''] p) cs)"

definition Skeleton :: ui_component where
  "Skeleton L r p cs = jsx ''div'' [class_attr L [CStr ''animate-pulse rounded-md bg-background-muted'', className p]] (omit [''className''] p) cs"

definition Switch :: ui_component where
  "Switch = styled ''SwitchPrimitives.Root''
     ''peer inline-flex h-6 w-11 shrink-0 cursor-pointer items-center rounded-full border-2 border-transparent transition-colors focus-visible:outline-none focus-visible:ring-2 focus-visible:ring-ring focus-visible:ring-offset-2 focus-visible:ring-offset-background disabled:cursor-not-allowed disabled:opacity-50 data-[state=checked]:bg-accent data-[state=unchecked]:bg-border''"

definition SwitchThumb :: ui_component where
  "SwitchThumb = styled ''SwitchPrimitives.Thumb''
     ''pointer-events-none block h-5 w-5 rounded-full bg-surface shadow-lg ring-0 transition-transform data-[state=checked]:translate-x-5 data-[state=unchecked]:translate-x-0''"

definition Textarea :: ui_component where
  "Textarea = slotted ''textarea'' ''textarea''
     ''flex field-sizing-content min-h-16 w-full rounded-md border border-input bg-transparent px-3 py-2 text-base shadow-xs transition-[color,box-shadow] outline-none placeholder:text-muted-foreground focus-visible:border-ring focus-visible:ring-[3px] focus-visible:ring-ring/50 disabled:cursor-not-allowed disabled:opacity-50 aria-invalid:border-destructive aria-invalid:ring-destructive/20 md:text-sm dark:bg-input/30 dark:aria-invalid:ring-destructive/40''"

section \<open>Tabs, tooltips, scroll areas\<close>

definition Tabs :: string where "Tabs = ''TabsPrimitive.Root''"

definition TabsList :: ui_component where
  "TabsList = styled ''TabsPrimitive.List''
     ''inline-flex h-10 items-center justify-center rounded-md bg-background-muted p-1 text-text-muted''"

definition TabsTrigger :: ui_component where
  "TabsTrigger = styled ''TabsPrimitive.Trigger''
     ''inline-flex items-center justify-center whitespace-nowrap rounded-sm px-3 py-1.5 text-sm font-medium ring-offset-background transition-all focus-visible:outline-none focus-visible:ring-2 focus-visible:ring-ring focus-visible:ring-offset-2 disabled:pointer-events-none disabled:opacity-50 data-[state=active]:bg-surface data-[state=active]:text-foreground data-[state=active]:shadow-sm''"

definition TabsContent :: ui_component where
  "TabsContent = styled ''TabsPrimitive.Content''
     ''mt-2 ring-offset-background focus-visible:outline-none focus-visible:ring-2 focus-visible:ring-ring focus-visible:ring-offset-2''"

definition tooltip_aliases :: "(string \<times> string) list" where
  "tooltip_aliases = [(''TooltipProvider'', ''TooltipPrimitive.Provider''), (''Tooltip'', ''TooltipPrimitive.Root''),
     (''TooltipTrigger'', ''TooltipPrimitive.Trigger'')]"

definition TooltipContent :: ui_component where
  "TooltipContent L r p cs = jsx ''TooltipPrimitive.Content''
     (attr_opt ''ref'' r @ [(''sideOffset'', or_default p ''sideOffset'' (UNum 4)), class_attr L
       [CStr ''z-tooltip overflow-hidden rounded-md bg-surface border border-border px-3 py-1.5 text-sm text-foreground shadow-md animate-in fade-in-0 zoom-in-95 data-[state=closed]:animate-out data-[state=closed]:fade-out-0 data-[state=closed]:zoom-out-95 data-[side=bottom]:slide-in-from-top-2 data-[side=left]:slide-in-from-right-2 data-[side=right]:slide-in-from-left-2 data-[side=top]:slide-in-from-bottom-2'',
        className p]])
     (omit [''className'', ''sideOffset''] p) cs"

definition ScrollBar :: ui_component where
  "ScrollBar L r p cs =
     (let orientation = or_default p ''orientation'' (UStr ''vertical'')
      in jsx ''ScrollAreaPrimitive.ScrollAreaScrollbar''
        (attr_opt ''ref'' r @ [(''orientation'', orientation), class_attr L
          [CStr ''flex touch-none select-none transition-colors'',
           cond_class (orientation = UStr ''vertical'') ''h-full w-2.5 border-l border-l-transparent p-[1px]'',
           cond_class (orientation = UStr ''horizontal'') ''h-2.5 flex-col border-t border-t-transparent p-[1px]'', className p]])
        (omit [''className'', ''orientation''] p)
        [fixed ''ScrollAreaPrimitive.ScrollAreaThumb'' ''relative flex-1 rounded-full bg-border'' []])"

definition ScrollArea :: ui_component where
  "ScrollArea L r p cs = jsx ''ScrollAreaPrimitive.Root''
     (attr_opt ''ref'' r @ [class_attr L [CStr ''relative overflow-hidden'', className p]])
     (omit [''className''] p)
     [fixed ''ScrollAreaPrimitive.Viewport'' ''h-full w-full rounded-[inherit]'' cs, ScrollBar L None [] [],
      UEl ''ScrollAreaPrimitive.Corner'' [] []]"

section \<open>Dialogs and sheets\<close>

definition dialog_aliases :: "(string \<times> string) list" where
  "dialog_aliases = [(''Dialog'', ''DialogPrimitive.Root''), (''DialogTrigger'', ''DialogPrimitive.Trigger''),
     (''DialogPortal'', ''DialogPrimitive.Portal''), (''DialogClose'', ''DialogPrimitive.Close'')]"

definition DialogOverlay :: ui_component where
  "DialogOverlay = styled ''DialogPrimitive.Overlay''
     ''fixed inset-0 z-overlay bg-background/80 backdrop-blur-sm data-[state=open]:animate-in data-[state=closed]:animate-out data-[state=closed]:fade-out-0 data-[state=open]:fade-in-0''"

definition DialogContent :: ui_component where
  "DialogContent L r p cs = UEl ''DialogPrimitive.Portal'' []
     [DialogOverlay L None [] [],
      styled ''DialogPrimitive.Content''
        ''fixed left-1/2 top-1/2 z-modal w-full max-w-lg -translate-x-1/2 -translate-y-1/2 gap-4 border border-border bg-surface p-6 shadow-lg duration-200 data-[state=open]:animate-in data-[state=closed]:animate-out data-[state=closed]:fade-out-0 data-[state=open]:fade-in-0 data-[state=closed]:zoom-out-95 data-[state=open]:zoom-in-95 data-[state=closed]:slide-out-to-left-1/2 data-[state=closed]:slide-out-to-top-[48%] data-[state=open]:slide-in-from-left-1/2 data-[state=open]:slide-in-from-top-[48%] sm:rounded-lg''
        L r p (cs @ [fixed ''DialogPrimitive.Close''
          ''absolute right-4 top-4 rounded-sm opacity-70 ring-offset-surface transition-opacity hover:opacity-100 focus:outline-none focus:ring-2 focus:ring-ring focus:ring-offset-2 disabled:pointer-events-none''
          [fixed ''X'' ''h-4 w-4'' [], fixed ''span'' ''sr-only'' [UTxt ''Close'']]])]"

definition DialogHeader :: ui_component where
  "DialogHeader L r = styled ''div'' ''flex flex-col space-y-1.5 text-center sm:text-left'' L None"

definition DialogFooter :: ui_component where
  "DialogFooter L r = styled ''div'' ''flex flex-col-reverse sm:flex-row sm:justify-end sm:space-x-2'' L None"

definition DialogTitle :: ui_component where
  "DialogTitle = styled ''DialogPrimitive.Title'' ''text-lg font-semibold leading-none tracking-tight''"

definition DialogDescription :: ui_component where
  "DialogDescription = styled ''DialogPrimitive.Description'' ''text-sm text-text-muted''"

definition alert_dialog_aliases :: "(string \<times> string) list" where
  "alert_dialog_aliases = [(''AlertDialog'', ''AlertDialogPrimitive.Root''), (''AlertDialogTrigger'', ''AlertDialogPrimitive.Trigger''),
     (''AlertDialogPortal'', ''AlertDialogPrimitive.Portal'')]"

definition AlertDialogOverlay :: ui_component where
  "AlertDialogOverlay = styled ''AlertDialogPrimitive.Overlay''
     ''fixed inset-0 z-overlay bg-background/80 backdrop-blur-sm data-[state=open]:animate-in data-[state=closed]:animate-out data-[state=closed]:fade-out-0 data-[state=open]:fade-in-0''"

definition AlertDialogContent :: ui_component where
  "AlertDialogContent L r p cs = UEl ''AlertDialogPrimitive.Portal'' []
     [AlertDialogOverlay L None [] [],
      styled ''AlertDialogPrimitive.Content''
        ''fixed left-1/2 top-1/2 z-modal w-full max-w-lg -translate-x-1/2 -translate-y-1/2 gap-4 border border-border bg-surface p-6 shadow-lg duration-200 data-[state=open]:animate-in data-[state=closed]:animate-out data-[state=closed]:fade-out-0 data-[state=open]:fade-in-0 data-[state=closed]:zoom-out-95 data-[state=open]:zoom-in-95 data-[state=closed]:slide-out-to-left-1/2 data-[state=closed]:slide-out-to-top-[48%] data-[state=open]:slide-in-from-left-1/2 data-[state=open]:slide-in-from-top-[48%] sm:rounded-lg''
        L r p cs]"

definition AlertDialogHeader :: ui_component where
  "AlertDialogHeader L r = styled ''div'' ''flex flex-col space-y-2 text-center sm:text-left'' L None"

definition AlertDialogFooter :: ui_component where
  "AlertDialogFooter L r = styled ''div'' ''flex flex-col-reverse sm:flex-row sm:justify-end sm:space-x-2'' L None"

definition AlertDialogTitle :: ui_component where
  "AlertDialogTitle = styled ''AlertDialogPrimitive.Title'' ''text-lg font-semibold''"

definition AlertDialogDescription :: ui_component where
  "AlertDialogDescription = styled ''AlertDialogPrimitive.Description'' ''text-sm text-text-muted''"

definition AlertDialogAction :: ui_component where
  "AlertDialogAction L r p cs = jsx ''AlertDialogPrimitive.Action''
     (attr_opt ''ref'' r @ [class_attr L [CStr (buttonVariants L []), className p]]) (omit [''className''] p) cs"

definition AlertDialogCancel :: ui_component where
  "AlertDialogCancel L r p cs = jsx ''AlertDialogPrimitive.Cancel''
     (attr_opt ''ref'' r @ [class_attr L [CStr (buttonVariants L [(''variant'', UStr ''outline'')]), CStr ''mt-2 sm:mt-0'', className p]])
     (omit [''className''] p) cs"

definition sheet_aliases :: "(string \<times> string) list" where
  "sheet_aliases = [(''Sheet'', ''SheetPrimitive.Root''), (''SheetTrigger'', ''SheetPrimitive.Trigger''),
     (''SheetClose'', ''SheetPrimitive.Close''), (''SheetPortal'', ''SheetPrimitive.Portal'')]"

definition SheetOverlay :: ui_component where
  "SheetOverlay = styled ''SheetPrimitive.Overlay''
     ''fixed inset-0 z-overlay bg-background/80 backdrop-blur-sm data-[state=open]:animate-in data-[state=closed]:animate-out data-[state=closed]:fade-out-0 data-[state=open]:fade-in-0''"

definition sheet_config :: cva_config where
  "sheet_config =
     \<lparr>cva_variants =
       [(''side'',
         [(''top'', ''inset-x-0 top-0 border-b data-[state=closed]:slide-out-to-top data-[state=open]:slide-in-from-top''),
          (''bottom'', ''inset-x-0 bottom-0 border-t data-[state=closed]:slide-out-to-bottom data-[state=open]:slide-in-from-bottom''),
          (''left'', ''inset-y-0 left-0 h-full w-64 border-r data-[state=closed]:slide-out-to-left data-[state=open]:slide-in-from-left sm:max-w-sm''),
          (''right'', ''inset-y-0 right-0 h-full w-64 border-l data-[state=closed]:slide-out-to-right data-[state=open]:slide-in-from-right sm:max-w-sm'')])],
      cva_defaults = [(''side'', ''right'')]\<rparr>"

definition sheetVariants :: "ui_lib \<Rightarrow> props \<Rightarrow> string" where
  "sheetVariants L = lib_cva L
     ''fixed z-modal gap-4 bg-surface p-6 shadow-lg transition ease-in-out data-[state=closed]:duration-300 data-[state=open]:duration-500 data-[state=open]:animate-in data-[state=closed]:animate-out''
     sheet_config"

definition SheetContent :: ui_component where
  "SheetContent L r p cs = UEl ''SheetPrimitive.Portal'' []
     [SheetOverlay L None [] [],
      jsx ''SheetPrimitive.Content''
        (attr_opt ''ref'' r @ [class_attr L [CStr (sheetVariants L [(''side'', or_default p ''side'' (UStr ''right''))]), className p]])
        (omit [''side'', ''className''] p)
        (cs @ [fixed ''SheetPrimitive.Close''
          ''absolute right-4 top-4 rounded-sm opacity-70 ring-offset-surface transition-opacity hover:opacity-100 focus:outline-none focus:ring-2 focus:ring-ring focus:ring-offset-2 disabled:pointer-events-none''
          [fixed ''X'' ''h-4 w-4'' [], fixed ''span'' ''sr-only'' [UTxt ''Close'']]])]"

definition SheetHeader :: ui_component where
  "SheetHeader L r = styled ''div'' ''flex flex-col space-y-2 text-center sm:text-left'' L None"

definition SheetFooter :: ui_component where
  "SheetFooter L r = styled ''div'' ''flex flex-col-reverse sm:flex-row sm:justify-end sm:space-x-2'' L None"

definition SheetTitle :: ui_component where
  "SheetTitle = styled ''SheetPrimitive.Title'' ''text-lg font-semibold text-foreground''"

definition SheetDescription :: ui_component where
  "SheetDescription = styled ''SheetPrimitive.Description'' ''text-sm text-text-muted''"

section \<open>Menus\<close>

definition dropdown_menu_aliases :: "(string \<times> string) list" where
  "dropdown_menu_aliases = [(''DropdownMenu'', ''DropdownMenuPrimitive.Root''), (''DropdownMenuTrigger'', ''DropdownMenuPrimitive.Trigger''),
     (''DropdownMenuGroup'', ''DropdownMenuPrimitive.Group''), (''DropdownMenuPortal'', ''DropdownMenuPrimitive.Portal''),
     (''DropdownMenuSub'', ''DropdownMenuPrimitive.Sub''), (''DropdownMenuRadioGroup'', ''DropdownMenuPrimitive.RadioGroup'')]"

definition DropdownMenuContent :: ui_component where
  "DropdownMenuContent L r p cs = UEl ''DropdownMenuPrimitive.Portal'' []
     [jsx ''DropdownMenuPrimitive.Content''
       (attr_opt ''ref'' r @ [(''sideOffset'', or_default p ''sideOffset'' (UNum 4)), class_attr L
         [CStr ''z-dropdown overflow-y-auto rounded-md border border-border bg-surface p-1 shadow-md data-[state=open]:animate-in data-[state=closed]:animate-out data-[state=closed]:fade-out-0 data-[state=open]:fade-in-0 data-[state=closed]:zoom-out-95 data-[state=open]:zoom-in-95 data-[side=bottom]:slide-in-from-top-2 data-[side=left]:slide-in-from-right-2 data-[side=right]:slide-in-from-left-2 data-[side=top]:slide-in-from-bottom-2'',
          className p]])
       (omit [''className'', ''sideOffset''] p) cs]"

definition DropdownMenuItem :: ui_component where
  "DropdownMenuItem L r p cs = jsx ''DropdownMenuPrimitive.Item''
     (attr_opt ''ref'' r @ [class_attr L
       [CStr ''relative flex cursor-default select-none items-center gap-2 rounded-sm px-2 py-1.5 text-sm outline-none transition-colors focus:bg-background-muted focus:text-foreground data-[disabled]:pointer-events-none data-[disabled]:opacity-50'',
        inset_class p, className p]])
     (omit [''className'', ''inset''] p) cs"

definition DropdownMenuLabel :: ui_component where
  "DropdownMenuLabel L r p cs = jsx ''DropdownMenuPrimitive.Label''
     (attr_opt ''ref'' r @ [class_attr L [CStr ''px-2 py-1.5 text-sm font-semibold'', inset_class p, className p]])
     (omit [''className'', ''inset''] p) cs"

definition DropdownMenuSeparator :: ui_component where
  "DropdownMenuSeparator = styled ''DropdownMenuPrimitive.Separator'' ''-mx-1 my-1 h-px bg-border''"

definition DropdownMenuSubTrigger :: ui_component where
  "DropdownMenuSubTrigger L r p cs = jsx ''DropdownMenuPrimitive.SubTrigger''
     (attr_opt ''ref'' r @ [class_attr L
       [CStr ''flex cursor-default select-none items-center rounded-sm px-2 py-1.5 text-sm outline-none focus:bg-background-muted data-[state=open]:bg-background-muted'',
        inset_class p, className p]])
     (omit [''className'', ''inset''] p) (cs @ [fixed ''ChevronRight'' ''ml-auto h-4 w-4'' []])"

definition DropdownMenuSubContent :: ui_component where
  "DropdownMenuSubContent = styled ''DropdownMenuPrimitive.SubContent''
     ''z-dropdown overflow-y-auto rounded-md border border-border bg-surface p-1 shadow-md data-[state=open]:animate-in data-[state=closed]:animate-out data-[state=closed]:fade-out-0 data-[state=open]:fade-in-0 data-[state=closed]:zoom-out-95 data-[state=open]:zoom-in-95''"

definition DropdownMenuCheckboxItem :: ui_component where
  "DropdownMenuCheckboxItem L r p cs = jsx ''DropdownMenuPrimitive.CheckboxItem''
     (attr_opt ''ref'' r @ [class_attr L
       [CStr ''relative flex cursor-default select-none items-center rounded-sm py-1.5 pl-8 pr-2 text-sm outline-none transition-colors focus:bg-background-muted focus:text-foreground data-[disabled]:pointer-events-none data-[disabled]:opacity-50'',
        className p]] @ attr_opt ''checked'' (map_of p ''checked''))
     (omit [''className'', ''checked''] p)
     (fixed ''span'' ''absolute left-2 flex h-3.5 w-3.5 items-center justify-center''
        [UEl ''DropdownMenuPrimitive.ItemIndicator'' [] [fixed ''Check'' ''h-4 w-4'' []]] # cs)"

definition DropdownMenuRadioItem :: ui_component where
  "DropdownMenuRadioItem L r p cs = styled ''DropdownMenuPrimitive.RadioItem''
     ''relative flex cursor-default select-none items-center rounded-sm py-1.5 pl-8 pr-2 text-sm outline-none transition-colors focus:bg-background-muted focus:text-foreground data-[disabled]:pointer-events-none data-[disabled]:opacity-50''
     L r p
     (fixed ''span'' ''absolute left-2 flex h-3.5 w-3.5 items-center justify-center''
        [UEl ''DropdownMenuPrimitive.ItemIndicator'' [] [fixed ''Circle'' ''h-2 w-2 fill-current'' []]] # cs)"

definition DropdownMenuShortcut :: ui_component where
  "DropdownMenuShortcut L r = styled ''span'' ''ml-auto text-xs tracking-widest opacity-60'' L None"

section \<open>Selects\<close>

text \<open>These wrappers have no \<open>forwardRef\<close>; a ref is one of their properties.\<close>

definition Select :: ui_component where
  "Select L r p cs = jsx ''SelectPrimitive.Root'' [(''data-slot'', UStr ''select'')] p cs"

definition SelectGroup :: ui_component where
  "SelectGroup L r p cs = jsx ''SelectPrimitive.Group'' [(''data-slot'', UStr ''select-group'')] p cs"

definition SelectValue :: ui_component where
  "SelectValue L r p cs = jsx ''SelectPrimitive.Value'' [(''data-slot'', UStr ''select-value'')] p cs"

definition SelectTrigger :: ui_component where
  "SelectTrigger L r p cs = jsx ''SelectPrimitive.Trigger''
     [(''data-slot'', UStr ''select-trigger''), (''data-size'', or_default p ''size'' (UStr ''default'')), class_attr L
       [CStr ''flex w-fit items-center justify-between gap-2 rounded-md border border-input bg-transparent px-3 py-2 text-sm whitespace-nowrap shadow-xs transition-[color,box-shadow] outline-none focus-visible:border-ring focus-visible:ring-[3px] focus-visible:ring-ring/50 disabled:cursor-not-allowed disabled:opacity-50 aria-invalid:border-destructive aria-invalid:ring-destructive/20 data-[placeholder]:text-muted-foreground data-[size=default]:h-9 data-[size=sm]:h-8 *:data-[slot=select-value]:line-clamp-1 *:data-[slot=select-value]:flex *:data-[slot=select-value]:items-center *:data-[slot=select-value]:gap-2 dark:bg-input/30 dark:hover:bg-input/50 dark:aria-invalid:ring-destructive/40 [&_svg]:pointer-events-none [&_svg]:shrink-0 [&_svg:not([class*='size-'])]:size-4 [&_svg:not([class*='text-'])]:text-muted-foreground'',
        className p]]
     (omit [''className'', ''size''] p)
     (cs @ [UEl ''SelectPrimitive.Icon'' [(''asChild'', UBool True)] [fixed ''ChevronDownIcon'' ''size-4 opacity-50'' []]])"

definition SelectLabel :: ui_component where
  "SelectLabel = slotted ''SelectPrimitive.Label'' ''select-label'' ''px-2 py-1.5 text-xs text-muted-foreground''"

definition SelectItem :: ui_component where
  "SelectItem L r p cs = slotted ''SelectPrimitive.Item'' ''select-item''
     ''relative flex w-full cursor-default items-center gap-2 rounded-sm py-1.5 pr-8 pl-2 text-sm outline-hidden select-none focus:bg-accent focus:text-accent-foreground data-[disabled]:pointer-events-none data-[disabled]:opacity-50 [&_svg]:pointer-events-none [&_svg]:shrink-0 [&_svg:not([class*='size-'])]:size-4 [&_svg:not([class*='text-'])]:text-muted-foreground *:[span]:last:flex *:[span]:last:items-center *:[span]:last:gap-2''
     L r p
     [UEl ''span'' [(''data-slot'', UStr ''select-item-indicator''), (''className'', UStr ''absolute right-2 flex size-3.5 items-center justify-center'')]
        [UEl ''SelectPrimitive.ItemIndicator'' [] [fixed ''CheckIcon'' ''size-4'' []]],
      UEl ''SelectPrimitive.ItemText'' [] cs]"

definition SelectSeparator :: ui_component where
  "SelectSeparator = slotted ''SelectPrimitive.Separator'' ''select-separator'' ''pointer-events-none -mx-1 my-1 h-px bg-border''"

definition SelectScrollUpButton :: ui_component where
  "SelectScrollUpButton L r p cs = slotted ''SelectPrimitive.ScrollUpButton'' ''select-scroll-up-button'' ''flex cursor-default items-center justify-center py-1''
     L r p [fixed ''ChevronUpIcon'' ''size-4'' []]"

definition SelectScrollDownButton :: ui_component where
  "SelectScrollDownButton L r p cs = slotted ''SelectPrimitive.ScrollDownButton'' ''select-scroll-down-button'' ''flex cursor-default items-center justify-center py-1''
     L r p [fixed ''ChevronDownIcon'' ''size-4'' []]"

definition SelectContent :: ui_component where
  "SelectContent L r p cs =
     (let position = or_default p ''position'' (UStr ''item-aligned''); align = or_default p ''align'' (UStr ''center'')
      in UEl ''SelectPrimitive.Portal'' []
        [jsx ''SelectPrimitive.Content''
          [(''data-slot'', UStr ''select-content''), class_attr L
             [CStr ''relative z-50 max-h-(--radix-select-content-available-height) min-w-[8rem] origin-(--radix-select-content-transform-origin) overflow-x-hidden overflow-y-auto rounded-md border bg-popover text-popover-foreground shadow-md data-[side=bottom]:slide-in-from-top-2 data-[side=left]:slide-in-from-right-2 data-[side=right]:slide-in-from-left-2 data-[side=top]:slide-in-from-bottom-2 data-[state=closed]:animate-out data-[state=closed]:fade-out-0 data-[state=closed]:zoom-out-95 data-[state=open]:animate-in data-[state=open]:fade-in-0 data-[state=open]:zoom-in-95'',
              cond_class (position = UStr ''popper'')
                ''data-[side=bottom]:translate-y-1 data-[side=left]:-translate-x-1 data-[side=right]:translate-x-1 data-[side=top]:-translate-y-1'',
              className p], (''position'', position), (''align'', align)]
          (omit [''className'', ''position'', ''align''] p)
          [SelectScrollUpButton L None [] [],
           UEl ''SelectPrimitive.Viewport''
             [class_attr L [CStr ''p-1'', cond_class (position = UStr ''popper'')
                ''h-[var(--radix-select-trigger-height)] w-full min-w-[var(--radix-select-trigger-width)] scroll-my-1'']] cs,
           SelectScrollDownButton L None [] []]])"

section \<open>Reading a rendered element\<close>

fun elements :: "unode \<Rightarrow> (string \<times> props \<times> unode list) list" where
  "elements (UTxt s) = []"
| "elements (UEl t a cs) = (t, a, cs) # concat (map elements cs)"

fun utexts :: "unode \<Rightarrow> string list" where
  "utexts (UTxt s) = [s]"
| "utexts (UEl t a cs) = concat (map utexts cs)"

section \<open>What the packages promise\<close>

text \<open>\<open>clsx\<close> joins the truthy classes with blanks; a class list made by \<open>cva\<close> has the base, the class of
  each variant, chosen by the property or else by the default, and the given class, in this order.\<close>

fun clsx_doc :: "class_value list \<Rightarrow> string" where
  "clsx_doc [] = []"
| "clsx_doc (CStr s # xs) = (if s = [] then clsx_doc xs else if clsx_doc xs = [] then s else s @ '' '' @ clsx_doc xs)"
| "clsx_doc (_ # xs) = clsx_doc xs"

definition variant_class :: "cva_config \<Rightarrow> props \<Rightarrow> string \<times> (string \<times> string) list \<Rightarrow> class_value" where
  "variant_class cfg p v =
     (case (case map_of p (fst v) of Some (UStr s) \<Rightarrow> Some s | _ \<Rightarrow> map_of (cva_defaults cfg) (fst v)) of
        Some s \<Rightarrow> (case map_of (snd v) s of Some c \<Rightarrow> CStr c | None \<Rightarrow> CUndefined)
      | None \<Rightarrow> CUndefined)"

definition lib_ok :: "ui_lib \<Rightarrow> bool" where
  "lib_ok L \<longleftrightarrow> lib_clsx L = clsx_doc \<and>
     lib_cva L = (\<lambda>base cfg p. clsx_doc (CStr base # map (variant_class cfg p) (cva_variants cfg) @ [className p]))"

definition lib_doc :: ui_lib where
  "lib_doc = \<lparr>lib_clsx = clsx_doc, lib_twMerge = (\<lambda>s. s),
     lib_cva = (\<lambda>base cfg p. clsx_doc (CStr base # map (variant_class cfg p) (cva_variants cfg) @ [className p]))\<rparr>"

section \<open>Lemmas\<close>

lemma clsx_doc_append: "clsx_doc (xs @ ys) = (if clsx_doc xs = [] then clsx_doc ys else if clsx_doc ys = [] then clsx_doc xs
   else clsx_doc xs @ '' '' @ clsx_doc ys)"
  by (induction xs rule: clsx_doc.induct) simp_all

text \<open>The classes end with those the caller gave.\<close>

definition caller_last :: "ui_lib \<Rightarrow> props \<Rightarrow> string \<Rightarrow> bool" where
  "caller_last L p s \<longleftrightarrow> (\<forall>c. className p = CStr c \<and> c \<noteq> [] \<longrightarrow> (\<exists>pre. s = lib_twMerge L (pre @ '' '' @ c)))"

lemma clsx_caller_last:
  "clsx_doc xs \<noteq> [] \<Longrightarrow> className p = CStr c \<Longrightarrow> c \<noteq> [] \<Longrightarrow> clsx_doc (xs @ [className p]) = clsx_doc xs @ '' '' @ c"
  by (simp add: clsx_doc_append)

lemma cn_caller_last:
  assumes "lib_ok L" "b \<noteq> []"
  shows "caller_last L p (cn L (CStr b # xs @ [className p]))"
  unfolding caller_last_def
proof (intro allI impI, elim conjE)
  fix c
  assume c: "className p = CStr c" "c \<noteq> []"
  have "clsx_doc (CStr b # xs) \<noteq> []"
    using assms(2) by simp
  from clsx_caller_last [OF this c] have "cn L (CStr b # xs @ [className p]) = lib_twMerge L (clsx_doc (CStr b # xs) @ '' '' @ c)"
    using assms(1) by (simp add: cn_def lib_ok_def)
  then show "\<exists>pre. cn L (CStr b # xs @ [className p]) = lib_twMerge L (pre @ '' '' @ c)"
    by blast
qed

lemmas cn_caller_last_0 = cn_caller_last [where xs = "[]", simplified]
lemmas cn_caller_last_1 = cn_caller_last [where xs = "[x]" for x, simplified]
lemmas cn_caller_last_2 = cn_caller_last [where xs = "[x, y]" for x y, simplified]

lemma variants_nonempty: "lib_ok L \<Longrightarrow> buttonVariants L q \<noteq> [] \<and> badgeVariants L q \<noteq> [] \<and> sheetVariants L q \<noteq> []"
  by (simp add: lib_ok_def button_base_def buttonVariants_def badgeVariants_def sheetVariants_def)

section \<open>Forwarding\<close>

text \<open>A wrapper of the element \<open>t\<close> that takes the properties \<open>own\<close> apart: \<open>t\<close> receives every other property
  as given, its classes end with those of the caller, and it has the caller's children among its own.\<close>

definition forwards :: "ui_lib \<Rightarrow> props \<Rightarrow> unode list \<Rightarrow> string \<Rightarrow> string list \<Rightarrow> unode \<Rightarrow> bool" where
  "forwards L p cs t own n \<longleftrightarrow> (\<exists>a cs'. (t, a, cs') \<in> set (elements n) \<and>
     (\<forall>k. k \<notin> set own \<and> map_of p k \<noteq> None \<longrightarrow> map_of a k = map_of p k) \<and>
     (''className'' \<in> set own \<longrightarrow> (\<exists>s. map_of a ''className'' = Some (UStr s) \<and> caller_last L p s)) \<and>
     (\<exists>pre post. concat (map utexts cs') = pre @ concat (map utexts cs) @ post))"

lemma map_of_omit: "map_of (omit own p) k = (if k \<in> set own then None else map_of p k)"
  by (induction p) (auto simp: omit_def)

lemma distinct_omit: "distinct (map fst p) \<Longrightarrow> distinct (map fst (omit own p))"
  by (simp add: omit_def distinct_map_filter)

lemma forwards_jsx:
  assumes "distinct (map fst p)"
    and "''className'' \<in> set own \<Longrightarrow> \<exists>s. map_of attrs ''className'' = Some (UStr s) \<and> caller_last L p s"
    and "concat (map utexts cs') = pre @ concat (map utexts cs) @ post"
  shows "forwards L p cs t own (jsx t attrs (omit own p) cs')"
proof -
  have look: "map_of (spread attrs (omit own p)) k = (case map_of (omit own p) k of None \<Rightarrow> map_of attrs k | Some v \<Rightarrow> Some v)" for k
    by (rule map_of_spread_distinct) (rule distinct_omit [OF assms(1)])
  show ?thesis
    unfolding forwards_def jsx_def
    by (intro exI [of _ "spread attrs (omit own p)"] exI [of _ cs'] conjI)
      (use assms(2,3) in \<open>auto simp: look map_of_omit split: option.split\<close>)
qed

lemma forwards_inside: "forwards L p cs t own n \<Longrightarrow> n \<in> set ms \<Longrightarrow> forwards L p cs t own (UEl t' a ms)"
proof -
  assume "n \<in> set ms"
  then have "set (elements n) \<subseteq> set (elements (UEl t' a ms))"
    by auto
  then show "forwards L p cs t own n \<Longrightarrow> ?thesis"
    unfolding forwards_def by blast
qed

lemma forwards_second: "forwards L p cs t own n \<Longrightarrow> forwards L p cs t own (UEl t' a [m, n])"
  by (erule forwards_inside) simp

lemma forwards_only: "forwards L p cs t own n \<Longrightarrow> forwards L p cs t own (UEl t' a [n])"
  by (erule forwards_inside) simp

lemma map_of_attr_opt [simp]: "map_of (attr_opt k v) k' = (if k' = k then v else None)"
  by (cases v) (simp_all add: attr_opt_def)

lemma forwards_styled:
  assumes "lib_ok L" "distinct (map fst p)" "c \<noteq> []" "concat (map utexts cs') = pre @ concat (map utexts cs) @ post"
  shows "forwards L p cs t [''className''] (styled t c L r p cs')"
  unfolding styled_def
  by (rule forwards_jsx [OF assms(2) _ assms(4)]) (simp add: class_attr_def map_add_def cn_caller_last_0 assms(1,3))

lemma forwards_slotted:
  assumes "lib_ok L" "distinct (map fst p)" "c \<noteq> []" "concat (map utexts cs') = pre @ concat (map utexts cs) @ post"
  shows "forwards L p cs t [''className''] (slotted t slot c L r p cs')"
  unfolding slotted_def
  by (rule forwards_jsx [OF assms(2) _ assms(4)]) (simp add: class_attr_def map_add_def cn_caller_last_0 assms(1,3))

lemmas forwards_styled' = forwards_styled [where pre = "[]" and post = "[]" and cs' = cs and cs = cs for cs, simplified]
lemmas forwards_slotted' = forwards_slotted [where pre = "[]" and post = "[]" and cs' = cs and cs = cs for cs, simplified]

text \<open>The wrappers with the element each of them is for and the properties it takes apart.\<close>

definition basic_wrappers :: "(string \<times> string list \<times> ui_component) list" where
  "basic_wrappers =
     [(''div'', [''className''], Card), (''div'', [''className''], CardHeader), (''h3'', [''className''], CardTitle),
      (''p'', [''className''], CardDescription), (''div'', [''className''], CardContent), (''div'', [''className''], CardFooter),
      (''table'', [''className''], Table), (''thead'', [''className''], TableHeader), (''tbody'', [''className''], TableBody),
      (''tfoot'', [''className''], TableFooter), (''tr'', [''className''], TableRow), (''th'', [''className''], TableHead),
      (''td'', [''className''], TableCell), (''caption'', [''className''], TableCaption),
      (''LabelPrimitive.Root'', [''className''], Label), (''div'', [''className''], Skeleton),
      (''SwitchPrimitives.Root'', [''className''], Switch), (''SwitchPrimitives.Thumb'', [''className''], SwitchThumb),
      (''textarea'', [''className''], Textarea), (''TabsPrimitive.List'', [''className''], TabsList),
      (''TabsPrimitive.Trigger'', [''className''], TabsTrigger), (''TabsPrimitive.Content'', [''className''], TabsContent),
      (''div'', [''className'', ''variant''], Badge), (''input'', [''className'', ''type''], Input),
      (''SeparatorPrimitive.Root'', [''className'', ''orientation'', ''decorative''], Separator),
      (''TooltipPrimitive.Content'', [''className'', ''sideOffset''], TooltipContent),
      (''ScrollAreaPrimitive.Root'', [''className''], ScrollArea)]"

definition overlay_wrappers :: "(string \<times> string list \<times> ui_component) list" where
  "overlay_wrappers =
     [(''DialogPrimitive.Overlay'', [''className''], DialogOverlay), (''DialogPrimitive.Content'', [''className''], DialogContent),
      (''div'', [''className''], DialogHeader), (''div'', [''className''], DialogFooter),
      (''DialogPrimitive.Title'', [''className''], DialogTitle), (''DialogPrimitive.Description'', [''className''], DialogDescription),
      (''AlertDialogPrimitive.Overlay'', [''className''], AlertDialogOverlay),
      (''AlertDialogPrimitive.Content'', [''className''], AlertDialogContent),
      (''div'', [''className''], AlertDialogHeader), (''div'', [''className''], AlertDialogFooter),
      (''AlertDialogPrimitive.Title'', [''className''], AlertDialogTitle),
      (''AlertDialogPrimitive.Description'', [''className''], AlertDialogDescription),
      (''AlertDialogPrimitive.Action'', [''className''], AlertDialogAction),
      (''AlertDialogPrimitive.Cancel'', [''className''], AlertDialogCancel),
      (''SheetPrimitive.Overlay'', [''className''], SheetOverlay), (''SheetPrimitive.Content'', [''side'', ''className''], SheetContent),
      (''div'', [''className''], SheetHeader), (''div'', [''className''], SheetFooter),
      (''SheetPrimitive.Title'', [''className''], SheetTitle), (''SheetPrimitive.Description'', [''className''], SheetDescription)]"

definition menu_wrappers :: "(string \<times> string list \<times> ui_component) list" where
  "menu_wrappers =
     [(''DropdownMenuPrimitive.Content'', [''className'', ''sideOffset''], DropdownMenuContent),
      (''DropdownMenuPrimitive.Item'', [''className'', ''inset''], DropdownMenuItem),
      (''DropdownMenuPrimitive.Label'', [''className'', ''inset''], DropdownMenuLabel),
      (''DropdownMenuPrimitive.Separator'', [''className''], DropdownMenuSeparator),
      (''DropdownMenuPrimitive.SubTrigger'', [''className'', ''inset''], DropdownMenuSubTrigger),
      (''DropdownMenuPrimitive.SubContent'', [''className''], DropdownMenuSubContent),
      (''DropdownMenuPrimitive.CheckboxItem'', [''className'', ''checked''], DropdownMenuCheckboxItem),
      (''DropdownMenuPrimitive.RadioItem'', [''className''], DropdownMenuRadioItem),
      (''span'', [''className''], DropdownMenuShortcut),
      (''SelectPrimitive.Root'', [], Select), (''SelectPrimitive.Group'', [], SelectGroup), (''SelectPrimitive.Value'', [], SelectValue),
      (''SelectPrimitive.Trigger'', [''className'', ''size''], SelectTrigger),
      (''SelectPrimitive.Content'', [''className'', ''position'', ''align''], SelectContent),
      (''SelectPrimitive.Label'', [''className''], SelectLabel), (''SelectPrimitive.Item'', [''className''], SelectItem),
      (''SelectPrimitive.Separator'', [''className''], SelectSeparator)]"

abbreviation (input) meets where
  "meets L r p cs x \<equiv> forwards L p cs (fst x) (fst (snd x)) (snd (snd x) L r p cs)"

lemmas text_lists = concat.simps list.map utexts.simps append_Nil append_Nil2 append_Cons append_assoc

lemma omit_nothing: "omit [] p = p"
  by (simp add: omit_def)

lemma basic_forward:
  assumes "lib_ok L" "distinct (map fst p)"
  shows "list_all (\<lambda>x. meets L r p cs x) basic_wrappers"
proof -
  note plain = forwards_styled' [OF assms] forwards_slotted' [OF assms]
  note defs = Card_def CardHeader_def CardTitle_def CardDescription_def CardContent_def CardFooter_def
    TableHeader_def TableBody_def TableFooter_def TableRow_def TableHead_def TableCell_def TableCaption_def
    Label_def Switch_def SwitchThumb_def Textarea_def TabsList_def TabsTrigger_def TabsContent_def
  have "forwards L p cs ''table'' [''className''] (Table L r p cs)"
    unfolding Table_def fixed_def by (rule forwards_only, rule plain(1)) simp
  moreover have "forwards L p cs ''div'' [''className''] (Skeleton L r p cs)"
    unfolding Skeleton_def
    by (rule forwards_jsx [OF assms(2), where pre = "[]" and post = "[]"]) (simp_all add: class_attr_def cn_caller_last_0 assms(1))
  moreover have "forwards L p cs ''div'' [''className'', ''variant''] (Badge L r p cs)"
    unfolding Badge_def
    by (rule forwards_jsx [OF assms(2), where pre = "[]" and post = "[]"])
      (simp_all add: class_attr_def cn_caller_last_0 assms(1) variants_nonempty)
  moreover have "forwards L p cs ''input'' [''className'', ''type''] (Input L r p cs)"
    unfolding Input_def
    by (rule forwards_jsx [OF assms(2), where pre = "[]" and post = "[]"])
      (simp_all add: class_attr_def map_add_def cn_caller_last_0 assms(1))
  moreover have "forwards L p cs ''SeparatorPrimitive.Root'' [''className'', ''orientation'', ''decorative''] (Separator L r p cs)"
    unfolding Separator_def Let_def
    by (rule forwards_jsx [OF assms(2), where pre = "[]" and post = "[]"])
      (simp_all add: class_attr_def map_add_def cn_caller_last_1 assms(1))
  moreover have "forwards L p cs ''TooltipPrimitive.Content'' [''className'', ''sideOffset''] (TooltipContent L r p cs)"
    unfolding TooltipContent_def
    by (rule forwards_jsx [OF assms(2), where pre = "[]" and post = "[]"])
      (simp_all add: class_attr_def map_add_def cn_caller_last_0 assms(1))
  moreover have "forwards L p cs ''ScrollAreaPrimitive.Root'' [''className''] (ScrollArea L r p cs)"
    unfolding ScrollArea_def
    by (rule forwards_jsx [OF assms(2), where pre = "[]" and post = "[]"])
      (simp_all add: class_attr_def map_add_def cn_caller_last_0 assms(1) fixed_def ScrollBar_def Let_def jsx_def)
  ultimately show ?thesis
    unfolding basic_wrappers_def list.pred_inject fst_conv snd_conv defs by (intro conjI plain TrueI) simp_all
qed

lemma overlay_forward:
  assumes "lib_ok L" "distinct (map fst p)"
  shows "list_all (\<lambda>x. meets L r p cs x) overlay_wrappers"
proof -
  note plain = forwards_styled' [OF assms]
  note defs = DialogOverlay_def DialogHeader_def DialogFooter_def DialogTitle_def DialogDescription_def
    AlertDialogOverlay_def AlertDialogHeader_def AlertDialogFooter_def AlertDialogTitle_def AlertDialogDescription_def
    SheetOverlay_def SheetHeader_def SheetFooter_def SheetTitle_def SheetDescription_def
  have "forwards L p cs ''DialogPrimitive.Content'' [''className''] (DialogContent L r p cs)"
    unfolding DialogContent_def
    by (rule forwards_second, rule forwards_styled [OF assms, where pre = "[]" and post = "[''Close'']"]) (simp_all add: fixed_def)
  moreover have "forwards L p cs ''AlertDialogPrimitive.Content'' [''className''] (AlertDialogContent L r p cs)"
    unfolding AlertDialogContent_def by (rule forwards_second, rule plain) simp
  moreover have "forwards L p cs ''AlertDialogPrimitive.Action'' [''className''] (AlertDialogAction L r p cs)"
    unfolding AlertDialogAction_def
    by (rule forwards_jsx [OF assms(2), where pre = "[]" and post = "[]"])
      (simp_all add: class_attr_def map_add_def cn_caller_last_0 assms(1) variants_nonempty)
  moreover have "forwards L p cs ''AlertDialogPrimitive.Cancel'' [''className''] (AlertDialogCancel L r p cs)"
    unfolding AlertDialogCancel_def
    by (rule forwards_jsx [OF assms(2), where pre = "[]" and post = "[]"])
      (simp_all add: class_attr_def map_add_def cn_caller_last_1 assms(1) variants_nonempty)
  moreover have "forwards L p cs ''SheetPrimitive.Content'' [''side'', ''className''] (SheetContent L r p cs)"
    unfolding SheetContent_def
    by (rule forwards_second, rule forwards_jsx [OF assms(2), where pre = "[]" and post = "[''Close'']"])
      (simp_all add: class_attr_def map_add_def cn_caller_last_0 assms(1) variants_nonempty fixed_def)
  ultimately show ?thesis
    unfolding overlay_wrappers_def list.pred_inject fst_conv snd_conv defs by (intro conjI plain TrueI) simp_all
qed

lemma menu_forward:
  assumes "lib_ok L" "distinct (map fst p)"
  shows "list_all (\<lambda>x. meets L r p cs x) menu_wrappers"
proof -
  note plain = forwards_styled' [OF assms] forwards_slotted' [OF assms]
  note bare = forwards_jsx [OF assms(2), where own = "[]" and pre = "[]" and post = "[]", unfolded omit_nothing]
  note cls = class_attr_def map_add_def cn_caller_last_0 cn_caller_last_1 assms(1)
  have content: "forwards L p cs ''DropdownMenuPrimitive.Content'' [''className'', ''sideOffset''] (DropdownMenuContent L r p cs)"
    unfolding DropdownMenuContent_def
    by (rule forwards_only, rule forwards_jsx [OF assms(2), where pre = "[]" and post = "[]"]) (simp_all add: cls)
  have item: "forwards L p cs ''DropdownMenuPrimitive.Item'' [''className'', ''inset''] (DropdownMenuItem L r p cs)"
    unfolding DropdownMenuItem_def
    by (rule forwards_jsx [OF assms(2), where pre = "[]" and post = "[]"]) (simp_all add: cls)
  have label: "forwards L p cs ''DropdownMenuPrimitive.Label'' [''className'', ''inset''] (DropdownMenuLabel L r p cs)"
    unfolding DropdownMenuLabel_def
    by (rule forwards_jsx [OF assms(2), where pre = "[]" and post = "[]"]) (simp_all add: cls)
  have sub: "forwards L p cs ''DropdownMenuPrimitive.SubTrigger'' [''className'', ''inset''] (DropdownMenuSubTrigger L r p cs)"
    unfolding DropdownMenuSubTrigger_def
    by (rule forwards_jsx [OF assms(2), where pre = "[]" and post = "[]"]) (simp_all add: cls fixed_def)
  have check: "forwards L p cs ''DropdownMenuPrimitive.CheckboxItem'' [''className'', ''checked''] (DropdownMenuCheckboxItem L r p cs)"
    unfolding DropdownMenuCheckboxItem_def
    by (rule forwards_jsx [OF assms(2), where pre = "[]" and post = "[]"]) (simp_all add: cls fixed_def)
  have radio: "forwards L p cs ''DropdownMenuPrimitive.RadioItem'' [''className''] (DropdownMenuRadioItem L r p cs)"
    unfolding DropdownMenuRadioItem_def
    by (rule forwards_styled [OF assms, where pre = "[]" and post = "[]"]) (simp_all add: fixed_def)
  have trigger: "forwards L p cs ''SelectPrimitive.Trigger'' [''className'', ''size''] (SelectTrigger L r p cs)"
    unfolding SelectTrigger_def
    by (rule forwards_jsx [OF assms(2), where pre = "[]" and post = "[]"]) (simp_all add: cls fixed_def)
  have select: "forwards L p cs ''SelectPrimitive.Content'' [''className'', ''position'', ''align''] (SelectContent L r p cs)"
    unfolding SelectContent_def Let_def
    by (rule forwards_only, rule forwards_jsx [OF assms(2), where pre = "[]" and post = "[]"])
      (simp_all add: cls fixed_def SelectScrollUpButton_def SelectScrollDownButton_def slotted_def jsx_def)
  have option: "forwards L p cs ''SelectPrimitive.Item'' [''className''] (SelectItem L r p cs)"
    unfolding SelectItem_def
    by (rule forwards_slotted [OF assms, where pre = "[]" and post = "[]"]) (simp_all add: fixed_def)
  note parts = content item label sub check radio trigger select option
  show ?thesis
    unfolding menu_wrappers_def list.pred_inject fst_conv snd_conv DropdownMenuSeparator_def DropdownMenuSubContent_def
      DropdownMenuShortcut_def Select_def SelectGroup_def SelectValue_def SelectLabel_def SelectSeparator_def
    by (intro conjI parts plain bare TrueI) simp_all
qed

lemma button_caller_last:
  assumes "lib_ok L" "className q = className p"
  shows "caller_last L p (cn L [CStr (buttonVariants L q)])"
  unfolding caller_last_def
proof (intro allI impI, elim conjE)
  fix c
  assume c: "className p = CStr c" "c \<noteq> []"
  define xs where "xs = CStr button_base # map (variant_class button_config q) (cva_variants button_config)"
  have xs: "buttonVariants L q = clsx_doc (xs @ [className q])" "clsx_doc xs \<noteq> []"
    using assms(1) by (simp_all add: lib_ok_def buttonVariants_def xs_def button_base_def)
  then have "buttonVariants L q = clsx_doc xs @ '' '' @ c"
    using clsx_caller_last [OF xs(2), of q c] assms(2) c by simp
  then show "\<exists>pre. cn L [CStr (buttonVariants L q)] = lib_twMerge L (pre @ '' '' @ c)"
    using assms(1) by (auto simp: cn_def lib_ok_def)
qed

lemma className_filter:
  "className (filter (\<lambda>(k, v). k \<in> {''variant'', ''size'', ''className''}) p) = className p"
proof -
  have "map_of (filter (\<lambda>(k, v). k \<in> {''variant'', ''size'', ''className''}) p) ''className'' = map_of p ''className''"
    by (induction p) auto
  then show ?thesis
    by (simp add: className_def)
qed

lemma button_forward:
  assumes "lib_ok L" "distinct (map fst p)"
  shows "forwards L p cs (if map_of p ''asChild'' = Some (UBool True) then ''Slot'' else ''button'')
    [''className'', ''variant'', ''size'', ''asChild''] (Button L r p cs)"
  unfolding Button_def
  by (rule forwards_jsx [OF assms(2), where pre = "[]" and post = "[]"])
    (simp_all add: map_add_def button_caller_last [OF assms(1) className_filter, simplified])

section \<open>Properties\<close>

text \<open>No wrapper swallows what it is given: the element or primitive it renders receives every property
  the wrapper does not take apart, with the given value even where the wrapper sets a default of its own, the caller's
  classes come last in the list handed to \<open>twMerge\<close>, and the caller's children are rendered.\<close>

theorem wrappers_forward:
  assumes "lib_ok L" "distinct (map fst p)"
  shows "(\<forall>(t, own, w) \<in> set (basic_wrappers @ overlay_wrappers @ menu_wrappers). forwards L p cs t own (w L r p cs)) \<and>
    forwards L p cs (if map_of p ''asChild'' = Some (UBool True) then ''Slot'' else ''button'')
      [''className'', ''variant'', ''size'', ''asChild''] (Button L r p cs)"
  using basic_forward [OF assms, of cs r] overlay_forward [OF assms, of cs r] menu_forward [OF assms, of cs r] button_forward [OF assms]
  by (auto simp: list_all_iff)

theorem wrappers_forward_witness:
  "forwards lib_doc [(''className'', UStr ''mt-4''), (''onClick'', UFun 1)] [UTxt ''Save''] ''button''
     [''className'', ''variant'', ''size'', ''asChild''] (Button lib_doc None [(''className'', UStr ''mt-4''), (''onClick'', UFun 1)] [UTxt ''Save''])"
  using wrappers_forward [of lib_doc "[(''className'', UStr ''mt-4''), (''onClick'', UFun 1)]" "[UTxt ''Save'']" None]
  by (simp add: lib_ok_def lib_doc_def)

end
