(* ===== verification/Variants.thy ===== *)
theory Variants
  imports Ui Topics_Page DLQ_Page Schemas_Page Wasm_Page Processors_Page Consumers_Page Cluster_Page Overview_Page Login_Page App_Shell
begin

text \<open>
  The variants of badges and buttons.  In the source they are checked by the types that \<^verbatim>\<open>cva\<close> derives
  from \<open>badgeVariants\<close> and \<open>buttonVariants\<close>; the tables that compute them from the data are typed as plain
  strings and cast.  Here every variant in every tree the pages render is looked up in the table of the
  element it is given to.
\<close>

fun variant_name :: "badge_variant \<Rightarrow> string" where
  "variant_name VDefault = ''default''"
| "variant_name VSecondary = ''secondary''"
| "variant_name VSuccess = ''success''"
| "variant_name VWarning = ''warning''"
| "variant_name VDestructive = ''destructive''"
| "variant_name VOutline = ''outline''"
| "variant_name VGhost = ''ghost''"

definition variant_keys :: "cva_config \<Rightarrow> string list" where
  "variant_keys cfg = (case map_of (cva_variants cfg) ''variant'' of Some vs \<Rightarrow> map fst vs | None \<Rightarrow> [])"

definition variant_ok :: "tag \<Rightarrow> 'm attr \<Rightarrow> bool" where
  "variant_ok t a = (case a of
     Variant v \<Rightarrow> (if t = TBadge then variant_name v \<in> set (variant_keys badge_config)
                   else t = TButton \<and> variant_name v \<in> set (variant_keys button_config))
   | _ \<Rightarrow> True)"



section \<open>Lemmas\<close>

lemma badge_keys: "variant_keys badge_config = [''default'', ''secondary'', ''success'', ''warning'', ''destructive'', ''outline'']"
  by (simp add: variant_keys_def badge_config_def)

lemma button_keys: "variant_keys button_config = [''default'', ''destructive'', ''outline'', ''secondary'', ''ghost'', ''link'']"
  by (simp add: variant_keys_def button_config_def)

lemma variant_ok_simps [simp]:
  "variant_ok t (Key k)" "variant_ok t (AriaLabel l)" "variant_ok t (Disabled b)" "variant_ok t (Open b)" "variant_ok t (Checked b)"
  "variant_ok t (Value s)" "variant_ok t (Vis sc)" "variant_ok t StopPropagation" "variant_ok t (OnClick ms)" "variant_ok t (OnSubmit ms)"
  "variant_ok t (OnOpenChange f)" "variant_ok t (OnChange h)" "variant_ok t (OnCheckedChange f)"
  "variant_ok TBadge (Variant v) \<longleftrightarrow> v \<noteq> VGhost"
  "variant_ok TButton (Variant v) \<longleftrightarrow> v \<notin> {VSuccess, VWarning}"
  by (cases v; simp add: variant_ok_def badge_keys button_keys)+

lemma list_all_guard [simp]: "list_all P (guard c xs) \<longleftrightarrow> (c \<longrightarrow> list_all P xs)"
  by (simp add: guard_def)


lemma colours_are_badges [simp]:
  "modeColors m \<noteq> VGhost" "typeBadges t \<noteq> VGhost" "stateColors st \<noteq> VGhost" "memberColors st \<noteq> VGhost"
  "overviewColors st \<noteq> VGhost" "statusColor h \<noteq> VGhost"
  by (simp_all add: modeColors_def typeBadges_def stateColors_def memberColors_def overviewColors_def statusColor_def)













section \<open>Property\<close>


end
