(* ===== verification/Server_Auth.thy ===== *)
theory Server_Auth
  imports Server
begin

text \<open>
  Who may call the admin server: \<^verbatim>\<open>internal/auth/acl.go\<close> (access control entries), \<^verbatim>\<open>internal/auth/rate_limiter.go\<close>
  (failed logins per address) and the middleware \<open>auth\<close> of \<^verbatim>\<open>internal/protocol/http/server.go\<close> that every route
  but the health check is wrapped in.  The provider that checks credentials and the decoding of
  base64 are arguments; the address of the client is one as well.  Names are ASCII.
\<close>

section \<open>Access control entries\<close>

datatype ResourceType = ResourceTopic | ResourceConsumerGroup | ResourceCluster | ResourceSchema | ResourceWASM | ResourceTenant | ResourceGeo

datatype Operation = OpRead | OpWrite | OpCreate | OpDelete | OpAlter | OpDescribe | OpAll

datatype Permission = PermissionAllow | PermissionDeny

record Identity =
  id_UserID :: string
  id_TenantID :: string
  id_Roles :: "string list"

record ACLEntry =
  acl_Principal :: string
  acl_ResourceType :: ResourceType
  acl_ResourceName :: string
  acl_Operation :: Operation
  acl_Permission :: Permission

record ACLEngine =
  acl_entries :: "ACLEntry list"
  acl_defaultPolicy :: Permission

definition NewACLEngine :: "Permission \<Rightarrow> ACLEngine" where
  "NewACLEngine d = \<lparr>acl_entries = [], acl_defaultPolicy = d\<rparr>"

definition AddEntry :: "ACLEntry \<Rightarrow> ACLEngine \<Rightarrow> ACLEngine" where
  "AddEntry x e = e\<lparr>acl_entries := acl_entries e @ [x]\<rparr>"

definition SetEntries :: "ACLEntry list \<Rightarrow> ACLEngine \<Rightarrow> ACLEngine" where
  "SetEntries xs e = e\<lparr>acl_entries := xs\<rparr>"

text \<open>\<open>filepath.Match\<close>: the pattern is read into its terms, \<open>None\<close> if it is malformed.\<close>

datatype pat = PStar | PAny | PLit char | PClass bool "(char \<times> char) list"

fun get_esc :: "string \<Rightarrow> (char \<times> string) option" where
  "get_esc [] = None"
| "get_esc (c # cs) =
     (if c = CHR ''-'' \<or> c = CHR '']'' then None
      else if c = CHR 0x5C then (case cs of [] \<Rightarrow> None | d # ds \<Rightarrow> if ds = [] then None else Some (d, ds))
      else if cs = [] then None else Some (c, cs))"

fun class_ranges :: "nat \<Rightarrow> string \<Rightarrow> ((char \<times> char) list \<times> string) option" where
  "class_ranges 0 cs = None"
| "class_ranges (Suc k) cs = (case get_esc cs of
     None \<Rightarrow> None
   | Some (lo, cs1) \<Rightarrow>
      (case (if cs1 \<noteq> [] \<and> hd cs1 = CHR ''-'' then get_esc (tl cs1) else Some (lo, cs1)) of
         None \<Rightarrow> None
       | Some (hi, cs2) \<Rightarrow>
           (if cs2 \<noteq> [] \<and> hd cs2 = CHR '']'' then Some ([(lo, hi)], tl cs2)
            else map_option (\<lambda>(rs, rest). ((lo, hi) # rs, rest)) (class_ranges k cs2))))"

fun parse_pat :: "nat \<Rightarrow> string \<Rightarrow> pat list option" where
  "parse_pat 0 cs = None"
| "parse_pat (Suc k) [] = Some []"
| "parse_pat (Suc k) (c # cs) =
     (if c = CHR ''*'' then map_option ((#) PStar) (parse_pat k cs)
      else if c = CHR ''?'' then map_option ((#) PAny) (parse_pat k cs)
      else if c = CHR 0x5C then (case cs of [] \<Rightarrow> None | d # ds \<Rightarrow> map_option ((#) (PLit d)) (parse_pat k ds))
      else if c = CHR ''['' then
        (let neg = (cs \<noteq> [] \<and> hd cs = CHR ''^''); body = (if neg then tl cs else cs)
         in case class_ranges (length body + 1) body of
              None \<Rightarrow> None | Some (rs, rest) \<Rightarrow> map_option ((#) (PClass neg rs)) (parse_pat k rest))
      else map_option ((#) (PLit c)) (parse_pat k cs))"

fun match_pat :: "pat list \<Rightarrow> string \<Rightarrow> bool" where
  "match_pat [] s = (s = [])"
| "match_pat (PStar # ps) [] = match_pat ps []"
| "match_pat (PStar # ps) (c # cs) = (match_pat ps (c # cs) \<or> c \<noteq> CHR ''/'' \<and> match_pat (PStar # ps) cs)"
| "match_pat (p # ps) [] = False"
| "match_pat (PAny # ps) (c # cs) = (c \<noteq> CHR ''/'' \<and> match_pat ps cs)"
| "match_pat (PLit d # ps) (c # cs) = (c = d \<and> match_pat ps cs)"
| "match_pat (PClass neg rs # ps) (c # cs) = ((neg \<noteq> list_ex (\<lambda>(lo, hi). lo \<le> c \<and> c \<le> hi) rs) \<and> match_pat ps cs)"

definition filepath_Match :: "string \<Rightarrow> string \<Rightarrow> bool" where
  "filepath_Match pattern name = (case parse_pat (length pattern + 1) pattern of Some ps \<Rightarrow> match_pat ps name | None \<Rightarrow> False)"

definition matchGlob :: "string \<Rightarrow> string \<Rightarrow> bool" where
  "matchGlob pattern name =
     (if pattern = ''*'' then True
      else if filepath_Match pattern name then True
      else if suffix ''.*'' pattern
        then (let pre = take (length pattern - 2) pattern
              in prefix (pre @ ''.'') name \<and> CHR ''.'' \<notin> set (drop (length pre + 1) name))
      else pattern = name)"

definition matchEntry :: "ACLEntry \<Rightarrow> Identity \<Rightarrow> ResourceType \<Rightarrow> string \<Rightarrow> Operation \<Rightarrow> bool" where
  "matchEntry x ident rt name op =
     (if acl_Principal x \<noteq> ''*'' \<and> acl_Principal x \<noteq> id_UserID ident \<and> acl_Principal x \<notin> set (id_Roles ident) then False
      else if acl_ResourceType x \<noteq> rt then False
      else if acl_ResourceName x \<noteq> ''*'' \<and> \<not> matchGlob (acl_ResourceName x) name then False
      else if acl_Operation x \<noteq> OpAll \<and> acl_Operation x \<noteq> op then False
      else True)"

text \<open>The loop of \<open>Check\<close>, with \<open>hasExplicitMatch\<close>.\<close>

fun check_loop :: "ACLEntry list \<Rightarrow> bool \<Rightarrow> Permission \<Rightarrow> Identity \<Rightarrow> ResourceType \<Rightarrow> string \<Rightarrow> Operation \<Rightarrow> bool" where
  "check_loop [] hasExplicitMatch d ident rt name op = (if \<not> hasExplicitMatch then d = PermissionAllow else True)"
| "check_loop (x # xs) hasExplicitMatch d ident rt name op =
     (if matchEntry x ident rt name op
      then if acl_Permission x = PermissionDeny then False else check_loop xs True d ident rt name op
      else check_loop xs hasExplicitMatch d ident rt name op)"

definition Check :: "ACLEngine \<Rightarrow> Identity option \<Rightarrow> ResourceType \<Rightarrow> string \<Rightarrow> Operation \<Rightarrow> bool" where
  "Check e identity rt name op = (case identity of
     None \<Rightarrow> acl_defaultPolicy e = PermissionAllow
   | Some ident \<Rightarrow> check_loop (acl_entries e) False (acl_defaultPolicy e) ident rt name op)"

fun ParsePermission :: "string \<Rightarrow> Permission" where
  "ParsePermission s = (if toLowerCase s = ''allow'' then PermissionAllow else if toLowerCase s = ''deny'' then PermissionDeny else PermissionAllow)"

fun ParseResourceType :: "string \<Rightarrow> ResourceType" where
  "ParseResourceType s = (let t = toLowerCase s in
     if t = ''topic'' then ResourceTopic
     else if t \<in> {''consumer_group'', ''consumergroup'', ''group''} then ResourceConsumerGroup
     else if t = ''cluster'' then ResourceCluster
     else if t = ''schema'' then ResourceSchema
     else if t = ''wasm'' then ResourceWASM
     else if t = ''tenant'' then ResourceTenant
     else ResourceTopic)"

fun ParseOperation :: "string \<Rightarrow> Operation" where
  "ParseOperation s = (let t = toLowerCase s in
     if t = ''read'' then OpRead else if t = ''write'' then OpWrite else if t = ''create'' then OpCreate
     else if t = ''delete'' then OpDelete else if t = ''alter'' then OpAlter else if t = ''describe'' then OpDescribe
     else if t = ''all'' then OpAll else OpRead)"

section \<open>The rate limiter\<close>

text \<open>Times in milliseconds; an absent list of attempts is the empty one.\<close>

record AuthRateLimiter =
  rl_attempts :: "string \<Rightarrow> nat list"
  rl_maxAttempts :: nat
  rl_window :: nat
  rl_banDuration :: nat
  rl_banned :: "string \<Rightarrow> nat option"

definition NewAuthRateLimiter :: "nat \<Rightarrow> nat \<Rightarrow> nat \<Rightarrow> AuthRateLimiter" where
  "NewAuthRateLimiter maxAttempts window banDuration =
     \<lparr>rl_attempts = (\<lambda>_. []), rl_maxAttempts = maxAttempts, rl_window = window, rl_banDuration = banDuration, rl_banned = (\<lambda>_. None)\<rparr>"

definition IsAllowed :: "nat \<Rightarrow> string \<Rightarrow> AuthRateLimiter \<Rightarrow> bool \<times> AuthRateLimiter" where
  "IsAllowed now addr r = (case rl_banned r addr of
     Some until \<Rightarrow>
       (if now < until then (False, r)
        else (True, r\<lparr>rl_banned := (rl_banned r)(addr := None), rl_attempts := (rl_attempts r)(addr := [])\<rparr>))
   | None \<Rightarrow>
       (let valid = filter (\<lambda>t. t + rl_window r > now) (rl_attempts r addr)
        in (length valid < rl_maxAttempts r, r\<lparr>rl_attempts := (rl_attempts r)(addr := valid)\<rparr>)))"

definition RecordFailed :: "nat \<Rightarrow> string \<Rightarrow> AuthRateLimiter \<Rightarrow> AuthRateLimiter" where
  "RecordFailed now addr r =
     (let r' = r\<lparr>rl_attempts := (rl_attempts r)(addr := rl_attempts r addr @ [now])\<rparr>
      in if length (rl_attempts r' addr) > rl_maxAttempts r'
         then r'\<lparr>rl_banned := (rl_banned r')(addr \<mapsto> now + rl_banDuration r')\<rparr> else r')"

definition RecordSuccess :: "string \<Rightarrow> AuthRateLimiter \<Rightarrow> AuthRateLimiter" where
  "RecordSuccess addr r = r\<lparr>rl_attempts := (rl_attempts r)(addr := []), rl_banned := (rl_banned r)(addr := None)\<rparr>"

section \<open>The middleware\<close>

record Credentials =
  cr_Username :: string
  cr_Password :: string
  cr_Token :: string

record http_request =
  rq_method :: string
  rq_path :: string
  rq_value :: "string \<Rightarrow> string" \<comment> \<open>\<open>PathValue\<close>, empty for a name the route does not have\<close>
  rq_authorization :: string
  rq_ip :: string

record auth_config =
  au_enabled :: bool
  au_provider :: "(Credentials \<Rightarrow> Identity option) option"
  au_acl :: "ACLEngine option"
  au_base64 :: "string \<Rightarrow> string option"

datatype auth_result = Refused nat string | Admitted "Identity option"

fun methodToOp :: "string \<Rightarrow> Operation" where
  "methodToOp m = (if m = ''GET'' then OpRead else if m = ''POST'' \<or> m = ''PUT'' then OpWrite else if m = ''DELETE'' then OpDelete else OpRead)"

definition credentials_of :: "(string \<Rightarrow> string option) \<Rightarrow> string \<Rightarrow> Credentials" where
  "credentials_of base64 header =
     (let none = \<lparr>cr_Username = '''', cr_Password = '''', cr_Token = ''''\<rparr>
      in if prefix ''Bearer '' header then none\<lparr>cr_Token := drop 7 header\<rparr>
         else if prefix ''Basic '' header then (case base64 (drop 6 header) of
             Some d \<Rightarrow> (if CHR '':'' \<in> set d
               then none\<lparr>cr_Username := takeWhile (\<lambda>c. c \<noteq> CHR '':'') d, cr_Password := tl (dropWhile (\<lambda>c. c \<noteq> CHR '':'') d)\<rparr> else none)
           | None \<Rightarrow> none)
         else none)"

text \<open>The resource a request is judged by: its type by parts of the path, its name by the first path value there is.\<close>

definition first_value :: "(string \<Rightarrow> string) \<Rightarrow> string list \<Rightarrow> string" where
  "first_value pv ks = (case filter (\<lambda>k. pv k \<noteq> '''') ks of [] \<Rightarrow> '''' | k # _ \<Rightarrow> pv k)"

definition or_star :: "string \<Rightarrow> string" where
  "or_star s = (if s = '''' then ''*'' else s)"

definition acl_resource :: "string \<Rightarrow> (string \<Rightarrow> string) \<Rightarrow> ResourceType \<times> string" where
  "acl_resource path pv =
     (let name = first_value pv [''topic'', ''name'', ''subject'', ''id'']
      in if path \<noteq> '''' \<and> str_includes path ''/schemas/'' then (ResourceSchema, or_star name)
         else if str_includes path ''/wasm/'' then (ResourceWASM, or_star name)
         else if str_includes path ''/consumers/'' then (ResourceConsumerGroup, or_star (pv ''group''))
         else if str_includes path ''/cluster/'' \<or> str_includes path ''/processors'' then (ResourceCluster, or_star name)
         else if str_includes path ''/tenants/'' then (ResourceTenant, or_star name)
         else (ResourceTopic, or_star name))"

definition auth :: "auth_config \<Rightarrow> nat \<Rightarrow> http_request \<Rightarrow> AuthRateLimiter option \<Rightarrow> auth_result \<times> AuthRateLimiter option" where
  "auth cfg now r lim =
     (case au_provider cfg of
        None \<Rightarrow> (Admitted None, lim)
      | Some authenticate \<Rightarrow>
         (if \<not> au_enabled cfg then (Admitted None, lim)
          else if rq_authorization r = '''' then (Refused 401 ''unauthorized'', lim)
          else
            let (allowed, lim1) = (case lim of None \<Rightarrow> (True, None) | Some l \<Rightarrow> (let (a, l') = IsAllowed now (rq_ip r) l in (a, Some l')))
            in if \<not> allowed then (Refused 429 ''authentication rate limited'', lim1)
               else case authenticate (credentials_of (au_base64 cfg) (rq_authorization r)) of
                 None \<Rightarrow> (Refused 401 ''unauthorized'', map_option (RecordFailed now (rq_ip r)) lim1)
               | Some identity \<Rightarrow>
                   let lim2 = map_option (RecordSuccess (rq_ip r)) lim1
                   in case au_acl cfg of
                        None \<Rightarrow> (Admitted (Some identity), lim2)
                      | Some acl \<Rightarrow>
                          let (rt, name) = acl_resource (rq_path r) (rq_value r)
                          in if Check acl (Some identity) rt name (methodToOp (rq_method r))
                             then (Admitted (Some identity), lim2) else (Refused 403 ''forbidden'', lim2)))"

definition hasClusterAdminRole :: "Identity \<Rightarrow> bool" where
  "hasClusterAdminRole ident = list_ex (\<lambda>role. role = ''admin'' \<or> role = ''cluster-admin'') (id_Roles ident)"

text \<open>The tenant check of \<open>handleGetConsumer\<close>.\<close>

definition tenant_blocked :: "Identity option \<Rightarrow> bool" where
  "tenant_blocked identity = (case identity of
     Some ident \<Rightarrow> id_TenantID ident \<noteq> '''' \<and> \<not> hasClusterAdminRole ident | None \<Rightarrow> False)"

section \<open>Access control lists\<close>

text \<open>What the comment of \<open>Check\<close> promises: a matching denial decides, then a matching permission, then the
  default.\<close>

definition acl_allows :: "ACLEngine \<Rightarrow> Identity \<Rightarrow> ResourceType \<Rightarrow> string \<Rightarrow> Operation \<Rightarrow> bool" where
  "acl_allows e ident rt name op \<longleftrightarrow>
     (\<forall>x\<in>set (acl_entries e). matchEntry x ident rt name op \<longrightarrow> acl_Permission x = PermissionAllow) \<and>
     ((\<exists>x\<in>set (acl_entries e). matchEntry x ident rt name op) \<or> acl_defaultPolicy e = PermissionAllow)"

lemma not_deny: "p \<noteq> PermissionDeny \<longleftrightarrow> p = PermissionAllow"
  by (cases p) simp_all

lemma check_loop_spec:
  "check_loop xs b d ident rt name op \<longleftrightarrow>
     (\<forall>x\<in>set xs. matchEntry x ident rt name op \<longrightarrow> acl_Permission x = PermissionAllow) \<and>
     (b \<or> (\<exists>x\<in>set xs. matchEntry x ident rt name op) \<or> d = PermissionAllow)"
  by (induction xs arbitrary: b) (auto simp: not_deny)

lemma Check_allows: "Check e (Some ident) rt name op \<longleftrightarrow> acl_allows e ident rt name op"
  by (auto simp: Check_def check_loop_spec acl_allows_def)

text \<open>\<open>filepath.Match\<close> separates at slashes, not at dots, so a wildcard after a dot matches several segments.\<close>

lemma glob_crosses_dots: "matchGlob ''public.*'' ''public.billing.cards''"
  by code_simp

lemma glob_needs_prefix: "\<not> matchGlob ''public.*'' ''private.events''"
  by code_simp

section \<open>The limiter behind the middleware\<close>

fun serve_all :: "auth_config \<Rightarrow> (nat \<times> http_request) list \<Rightarrow> AuthRateLimiter option \<Rightarrow> auth_result list \<times> AuthRateLimiter option" where
  "serve_all cfg [] lim = ([], lim)"
| "serve_all cfg ((now, r) # rs) lim =
     (let (res, lim1) = auth cfg now r lim; (ress, lim2) = serve_all cfg rs lim1 in (res # ress, lim2))"

text \<open>One request.  A request that fails was allowed, so the failure is at most the last permitted one.\<close>

definition unbanned :: "nat \<Rightarrow> AuthRateLimiter \<Rightarrow> bool" where
  "unbanned m l \<longleftrightarrow> rl_maxAttempts l = m \<and> rl_banned l = (\<lambda>_. None) \<and> (\<forall>a. length (rl_attempts l a) \<le> rl_maxAttempts l)"

lemma IsAllowed_unbanned:
  assumes "unbanned m l" "IsAllowed now addr l = (a, l')"
  shows "unbanned m l'" and "a \<Longrightarrow> unbanned m (RecordFailed now addr l')" and "unbanned m (RecordSuccess addr l')"
    and "IsAllowed now addr (l\<lparr>rl_banDuration := b\<rparr>) = (a, l'\<lparr>rl_banDuration := b\<rparr>)"
    and "a \<Longrightarrow> RecordFailed now addr (l'\<lparr>rl_banDuration := b\<rparr>) = (RecordFailed now addr l')\<lparr>rl_banDuration := b\<rparr>"
proof -
  have short: "length (filter P (rl_attempts l x)) \<le> rl_maxAttempts l" for P x
    using assms(1) length_filter_le [of P "rl_attempts l x"] unfolding unbanned_def by (meson order_trans)
  show "unbanned m l'" and "a \<Longrightarrow> unbanned m (RecordFailed now addr l')" and "unbanned m (RecordSuccess addr l')"
    and "IsAllowed now addr (l\<lparr>rl_banDuration := b\<rparr>) = (a, l'\<lparr>rl_banDuration := b\<rparr>)"
    and "a \<Longrightarrow> RecordFailed now addr (l'\<lparr>rl_banDuration := b\<rparr>) = (RecordFailed now addr l')\<lparr>rl_banDuration := b\<rparr>"
    using assms short by (auto simp: unbanned_def IsAllowed_def RecordFailed_def RecordSuccess_def Let_def)
qed

lemma auth_unbanned:
  assumes "unbanned m l" "auth cfg now r (Some l) = (res, lim)"
  shows "\<exists>l1. lim = Some l1 \<and> unbanned m l1 \<and> auth cfg now r (Some (l\<lparr>rl_banDuration := b\<rparr>)) = (res, Some (l1\<lparr>rl_banDuration := b\<rparr>))"
proof -
  obtain a l' where l': "IsAllowed now (rq_ip r) l = (a, l')"
    by fastforce
  note u = IsAllowed_unbanned [OF assms(1) l']
  have s: "RecordSuccess x (l'\<lparr>rl_banDuration := b\<rparr>) = (RecordSuccess x l')\<lparr>rl_banDuration := b\<rparr>" for x
    by (simp add: RecordSuccess_def)
  show ?thesis
    using assms u unfolding auth_def
    by (auto simp: l' Let_def s split: option.splits if_splits prod.splits)
qed

lemma serve_all_unbanned:
  "unbanned m l \<Longrightarrow> serve_all cfg rs (Some l) = (ress, lim) \<Longrightarrow>
   \<exists>l1. lim = Some l1 \<and> unbanned m l1 \<and> serve_all cfg rs (Some (l\<lparr>rl_banDuration := b\<rparr>)) = (ress, Some (l1\<lparr>rl_banDuration := b\<rparr>))"
proof (induction rs arbitrary: l ress)
  case (Cons x rs)
  obtain now r where x: "x = (now, r)"
    by fastforce
  obtain res lim1 where one: "auth cfg now r (Some l) = (res, lim1)"
    by fastforce
  obtain l1 where l1: "lim1 = Some l1" "unbanned m l1" "auth cfg now r (Some (l\<lparr>rl_banDuration := b\<rparr>)) = (res, Some (l1\<lparr>rl_banDuration := b\<rparr>))"
    using auth_unbanned [OF Cons.prems(1) one] by blast
  obtain ress' where "serve_all cfg rs (Some l1) = (ress', lim)" "ress = res # ress'"
    using Cons.prems(2) one l1(1) by (auto simp: x split: prod.splits)
  with Cons.IH [OF l1(2)] l1(3) show ?case
    by (fastforce simp: x)
next
  case Nil
  then show ?case by auto
qed

lemma new_unbanned: "unbanned m (NewAuthRateLimiter m w b)"
  by (simp add: unbanned_def NewAuthRateLimiter_def)

section \<open>Resources\<close>

lemma split_on_nonempty: "split_on d s \<noteq> []"
  by (induction s) (auto split: list.split)

lemma split_on_middle: "split_on d (p @ d # r) = split_on d p @ split_on d r"
proof (induction p)
  case (Cons c p)
  then show ?case
    using split_on_nonempty [of d p] by (auto split: list.split)
qed simp

lemma split_on_prefix: "d \<notin> set w \<Longrightarrow> split_on d (w @ q) = (w @ hd (split_on d q)) # tl (split_on d q)"
proof (induction w)
  case Nil
  then show ?case
    using split_on_nonempty [of d q] by simp
qed auto

lemma includes_segment:
  assumes "str_includes s (CHR ''/'' # w @ ''/'')" "CHR ''/'' \<notin> set w"
  shows "\<exists>xs ys. split_on CHR ''/'' s = xs @ w # ys \<and> xs \<noteq> [] \<and> ys \<noteq> []"
proof -
  obtain p q where "s = p @ CHR ''/'' # w @ CHR ''/'' # q"
    using assms(1) by (auto simp: str_includes_iff)
  then have "split_on CHR ''/'' s = split_on CHR ''/'' p @ w # split_on CHR ''/'' q"
    by (simp add: split_on_middle split_on_none assms(2))
  then show ?thesis
    using split_on_nonempty by blast
qed

lemma includes_start:
  assumes "str_includes s (CHR ''/'' # w)" "CHR ''/'' \<notin> set w"
  shows "\<exists>xs y ys. split_on CHR ''/'' s = xs @ (w @ y) # ys \<and> xs \<noteq> []"
proof -
  obtain p q where "s = p @ CHR ''/'' # w @ q"
    using assms(1) by (auto simp: str_includes_iff)
  then have "split_on CHR ''/'' s = split_on CHR ''/'' p @ (w @ hd (split_on CHR ''/'' q)) # tl (split_on CHR ''/'' q)"
    by (simp add: split_on_middle split_on_prefix [OF assms(2)])
  then show ?thesis
    using split_on_nonempty by blast
qed

definition replay_path :: "string \<Rightarrow> string" where
  "replay_path n = ''/v1/dlq/'' @ n @ ''/replay''"

lemma split_replay: "CHR ''/'' \<notin> set n \<Longrightarrow> split_on CHR ''/'' (replay_path n) = [[], ''v1'', ''dlq'', n, ''replay'']"
  by (simp add: replay_path_def split_on_append)

lemma middle_of_four: "[a, b, c, d, e] = xs @ w # ys \<Longrightarrow> xs \<noteq> [] \<Longrightarrow> ys \<noteq> [] \<Longrightarrow> w \<in> {b, c, d}"
  by (auto simp: Cons_eq_append_conv)

lemma replay_segment:
  assumes "CHR ''/'' \<notin> set n" "w \<in> {''schemas'', ''wasm'', ''consumers'', ''cluster'', ''tenants''}"
  shows "str_includes (replay_path n) (CHR ''/'' # w @ ''/'') \<longleftrightarrow> n = w"
proof
  assume "str_includes (replay_path n) (CHR ''/'' # w @ ''/'')"
  moreover have "CHR ''/'' \<notin> set w"
    using assms(2) by auto
  ultimately obtain xs ys where "[[], ''v1'', ''dlq'', n, ''replay''] = xs @ w # ys" "xs \<noteq> []" "ys \<noteq> []"
    using includes_segment split_replay [OF assms(1)] by metis
  from middle_of_four [OF this] assms(2) show "n = w"
    by auto
next
  assume "n = w"
  then have "replay_path n = ''/v1/dlq'' @ (CHR ''/'' # w @ ''/'') @ ''replay''"
    by (simp add: replay_path_def)
  then show "str_includes (replay_path n) (CHR ''/'' # w @ ''/'')"
    unfolding str_includes_iff by blast
qed

lemma replay_processors:
  assumes "CHR ''/'' \<notin> set n"
  shows "str_includes (replay_path n) ''/processors'' \<longleftrightarrow> prefix ''processors'' n"
proof
  assume "str_includes (replay_path n) ''/processors''"
  then obtain xs y ys where "[[], ''v1'', ''dlq'', n, ''replay''] = xs @ (''processors'' @ y) # ys" "xs \<noteq> []"
    using includes_start [of "replay_path n" "''processors''"] split_replay [OF assms] by auto
  then show "prefix ''processors'' n"
    by (auto simp: Cons_eq_append_conv)
next
  assume "prefix ''processors'' n"
  then obtain y where "n = ''processors'' @ y"
    by (auto simp: prefix_def)
  then have "replay_path n = ''/v1/dlq'' @ ''/processors'' @ (y @ ''/replay'')"
    by (simp add: replay_path_def)
  then show "str_includes (replay_path n) ''/processors''"
    unfolding str_includes_iff by blast
qed

section \<open>Properties\<close>

text \<open>C7: Exactly which requests the middleware lets through when authentication is on: those with an
  \<open>Authorization\<close> header, from an address the limiter allows, with credentials the provider accepts, and, where there is an access
  control list, allowed by it for the resource and operation of the request; they are handed on with the identity the provider gave.
  Everything else is refused.\<close>

theorem auth_admits_exactly:
  assumes "au_enabled cfg" "au_provider cfg = Some authenticate"
  shows "fst (auth cfg now r lim) = Admitted i \<longleftrightarrow>
    rq_authorization r \<noteq> '''' \<and>
    (\<forall>l. lim = Some l \<longrightarrow> fst (IsAllowed now (rq_ip r) l)) \<and>
    (\<exists>ident. i = Some ident \<and> authenticate (credentials_of (au_base64 cfg) (rq_authorization r)) = Some ident \<and>
      (\<forall>acl. au_acl cfg = Some acl \<longrightarrow>
        acl_allows acl ident (fst (acl_resource (rq_path r) (rq_value r))) (snd (acl_resource (rq_path r) (rq_value r)))
          (methodToOp (rq_method r))))"
proof -
  obtain rt name where res: "acl_resource (rq_path r) (rq_value r) = (rt, name)"
    by fastforce
  obtain a l' where lim: "\<And>l. lim = Some l \<Longrightarrow> IsAllowed now (rq_ip r) l = (a, l')"
    by (cases lim) (auto, metis surj_pair)
  show ?thesis
    using assms lim
    by (cases lim; cases "authenticate (credentials_of (au_base64 cfg) (rq_authorization r))"; cases "au_acl cfg")
      (auto simp: auth_def res Let_def Check_allows simp del: methodToOp.simps)
qed

definition acl_ex :: ACLEngine where
  "acl_ex = AddEntry \<lparr>acl_Principal = ''ops'', acl_ResourceType = ResourceTopic, acl_ResourceName = ''*'', acl_Operation = OpAll,
     acl_Permission = PermissionAllow\<rparr> (NewACLEngine PermissionDeny)"

definition auth_ex :: auth_config where
  "auth_ex = \<lparr>au_enabled = True,
     au_provider = Some (\<lambda>c. if cr_Token c = ''t1'' then Some \<lparr>id_UserID = ''ops'', id_TenantID = '''', id_Roles = []\<rparr> else None),
     au_acl = Some acl_ex, au_base64 = (\<lambda>_. None)\<rparr>"

definition replay_request :: "string \<Rightarrow> http_request" where
  "replay_request n = \<lparr>rq_method = ''POST'', rq_path = replay_path n, rq_value = (\<lambda>k. if k = ''topic'' then n else ''''),
     rq_authorization = ''Bearer t1'', rq_ip = ''10.0.0.1''\<rparr>"

theorem auth_admits_exactly_witness:
  "fst (auth auth_ex 0 (replay_request ''orders'') None) = Admitted (Some \<lparr>id_UserID = ''ops'', id_TenantID = '''', id_Roles = []\<rparr>)"
proof -
  have "acl_resource (rq_path (replay_request ''orders'')) (rq_value (replay_request ''orders'')) = (ResourceTopic, ''orders'')"
    by code_simp
  then show ?thesis
    using auth_admits_exactly [of auth_ex _ 0 "replay_request ''orders''" None]
    by (simp add: auth_ex_def credentials_of_def replay_request_def Let_def acl_allows_def acl_ex_def AddEntry_def NewACLEngine_def matchEntry_def)
qed

text \<open>C18: \<open>Check\<close> keeps its promise: a matching denial always wins, wherever it stands in the list; without one a matching
  permission decides, and without any match the default policy.  The order of the entries is irrelevant.\<close>

theorem acl_deny_wins:
  "(Check e (Some ident) rt name op \<longleftrightarrow> acl_allows e ident rt name op) \<and>
   (set xs = set (acl_entries e) \<longrightarrow> Check (SetEntries xs e) (Some ident) rt name op = Check e (Some ident) rt name op)"
  by (auto simp: Check_allows acl_allows_def SetEntries_def)

definition deny_all_ex :: ACLEntry where
  "deny_all_ex = \<lparr>acl_Principal = ''*'', acl_ResourceType = ResourceTopic, acl_ResourceName = ''*'', acl_Operation = OpAll,
     acl_Permission = PermissionDeny\<rparr>"

theorem acl_deny_wins_witness:
  "\<not> Check (SetEntries (rev (acl_entries (AddEntry deny_all_ex acl_ex))) (AddEntry deny_all_ex acl_ex))
     (Some \<lparr>id_UserID = ''ops'', id_TenantID = '''', id_Roles = []\<rparr>) ResourceTopic ''orders'' OpRead"
  using acl_deny_wins [of "AddEntry deny_all_ex acl_ex" "\<lparr>id_UserID = ''ops'', id_TenantID = '''', id_Roles = []\<rparr>" ResourceTopic
      "''orders''" OpRead "rev (acl_entries (AddEntry deny_all_ex acl_ex))"]
  by (simp add: acl_allows_def AddEntry_def acl_ex_def deny_all_ex_def matchEntry_def NewACLEngine_def insert_commute)

text \<open>An address is never banned by requests that are handled one after the other: the middleware counts a failure only after
  the limiter has allowed the attempt, so that the number of failures never exceeds the maximum, which is
  what a ban takes.  The answers to any sequence of requests are the same for every duration of a ban.\<close>

theorem ban_never_imposed:
  "\<exists>l. snd (serve_all cfg rs (Some (NewAuthRateLimiter m w b))) = Some l \<and>
     (\<forall>addr. rl_banned l addr = None \<and> length (rl_attempts l addr) \<le> m) \<and>
     fst (serve_all cfg rs (Some (NewAuthRateLimiter m w b'))) = fst (serve_all cfg rs (Some (NewAuthRateLimiter m w b)))"
proof -
  obtain ress lim where "serve_all cfg rs (Some (NewAuthRateLimiter m w b)) = (ress, lim)"
    by fastforce
  from serve_all_unbanned [OF new_unbanned this, of b'] this show ?thesis
    by (auto simp: unbanned_def NewAuthRateLimiter_def)
qed

text \<open>The resource a replay of dead letters is judged by depends on the name of the topic: for topics called
  schemas, wasm, consumers, cluster or tenants, and for every topic whose name starts with processors, it is not the topic, so that
  permissions and denials for the topic have no effect there.  Creating and listing tenants, on the other
  hand, is judged as access to all topics.\<close>

theorem replay_resource_by_name:
  assumes "CHR ''/'' \<notin> set n" "n \<noteq> ''''"
  shows "acl_resource (rq_path (replay_request n)) (rq_value (replay_request n)) =
    (if n = ''schemas'' then (ResourceSchema, n) else if n = ''wasm'' then (ResourceWASM, n)
     else if n = ''consumers'' then (ResourceConsumerGroup, ''*'')
     else if n = ''cluster'' \<or> prefix ''processors'' n then (ResourceCluster, n)
     else if n = ''tenants'' then (ResourceTenant, n) else (ResourceTopic, n)) \<and>
    acl_resource ''/v1/tenants'' (\<lambda>_. '''') = (ResourceTopic, ''*'')"
proof -
  note seg = replay_segment [OF assms(1), of "''schemas''", simplified] replay_segment [OF assms(1), of "''wasm''", simplified]
    replay_segment [OF assms(1), of "''consumers''", simplified] replay_segment [OF assms(1), of "''cluster''", simplified]
    replay_segment [OF assms(1), of "''tenants''", simplified] replay_processors [OF assms(1), simplified]
  have "replay_path n \<noteq> []"
    by (simp add: replay_path_def)
  then show ?thesis
    using assms(2) by (simp add: acl_resource_def replay_request_def Let_def seg first_value_def or_star_def)
qed

theorem replay_resource_by_name_witness:
  "acl_resource (rq_path (replay_request ''processors-dead'')) (rq_value (replay_request ''processors-dead'')) = (ResourceCluster, ''processors-dead'')"
  using replay_resource_by_name [of "''processors-dead''"] by simp

end
