(* ===== verification/Spec2Isabelle.thy ===== *)
theory Spec2Isabelle
  imports Dlq_Store Exchanges Dedup Priority_Dispatch Delay_Queue Schemas_Page Wasm_Page Processors_Page Consumers_Page Overview_Page App_Shell Variants Server_Auth
begin

text \<open>
  Verification of the ChimeraMQ dashboard (\<^verbatim>\<open>src/frontend\<close>), the browser application with which an
  operator inspects and administers a ChimeraMQ broker, against the part of the broker's admin HTTP
  server (\<^verbatim>\<open>src/internal/protocol/http/server.go\<close>) that it talks to, with the access control of that server
  (\<^verbatim>\<open>src/internal/auth\<close>), and of the core of the broker behind it: topics and publishing
  (\<^verbatim>\<open>src/internal/broker\<close>), the message format (\<^verbatim>\<open>src/internal/message\<close>), the segmented log
  (\<^verbatim>\<open>src/internal/storage/hot\<close>), the engines for streams, consumer groups, queues, exchanges and dead letters
  (\<^verbatim>\<open>src/internal/engine\<close>), and the deduplication (\<^verbatim>\<open>src/internal/idempotent\<close>).

  \<^bold>\<open>How the program is put together.\<close>  \<^verbatim>\<open>App.tsx\<close> maps locations to pages inside a layout and behind a
  guard that asks the auth store for a signed-in user.  A page keeps its state in React state cells,
  loads data with queries and changes the broker with mutations; both go through the typed functions
  of \<^verbatim>\<open>lib/api.ts\<close>, which take the bearer token from the auth store (\<^verbatim>\<open>stores/auth-store.ts\<close>).  Hooks
  give the pages debounced values, settings kept in the local storage, the theme, and prefetching of
  page chunks.

  \<^bold>\<open>How it is modelled.\<close>  Each component has a theory.  Its state is a record with the source's state
  cells; what third-party hooks return in a render is a second record, the environment; its handlers
  are a datatype of actions with a function that applies them; queries and mutations are functions
  to API calls, new states and effects; its view is a function to a tree (\<open>Dom\<close>) that carries keys,
  labels, flags and handlers and leaves styling out.  Exceptions are values: \<open>None\<close> for a storage
  access or a rendering that throws, \<open>rejection\<close> for a rejected request.

  \<^item> \<open>Prelude\<close>, \<open>Json\<close>, \<open>Web\<close>: what the source uses of JavaScript and of the browser.  JSON values with
    \<open>JSON.stringify\<close> and \<open>JSON.parse\<close> (a parser with fuel \<open>2 * length + 2\<close>; the lemma
    \<open>JSON_parse_stringify\<close> shows that it is enough to read back every printed value), template strings,
    \<open>toLowerCase\<close> (on Latin-1), \<open>includes\<close>, object spread; Web Storage that can be blocked or full, with
    the locale \<open>web_store\<close> as its contract; \<open>fetch\<close> as a function to its outcome.
  \<^item> \<open>Auth_Store\<close>: \<^verbatim>\<open>stores/*.ts\<close>.  Sessions are sequences of logins, logouts and reloads; the lemmas
    show that store and storage agree throughout, that logins survive and logouts last.
  \<^item> \<open>Http_Api\<close>, \<open>Responses\<close>: \<^verbatim>\<open>lib/api.ts\<close>.  \<open>request\<close> with all its outcomes, the verbs, the typed functions,
    the response interfaces with their shape checks.
  \<^item> \<open>Dom\<close>, \<open>Forms\<close>: trees, effects and the locale \<open>two_layouts\<close> for lists rendered twice; \<^verbatim>\<open>zod\<close> schemas as
    data, the validator as a parameter with the hypothesis \<open>zod_ok\<close> (met by \<open>zod_doc\<close>), and the locale
    \<open>confirm_delete\<close> for the delete dialogs.  Each page that has them interprets these locales.
  \<^item> \<open>Hooks\<close>: \<^verbatim>\<open>hooks/*.ts\<close> and the inline script of \<^verbatim>\<open>index.html\<close>, as state machines over events and time.
  \<^item> \<open>Topics_Page\<close>, \<open>DLQ_Page\<close>, \<open>Schemas_Page\<close>, \<open>Wasm_Page\<close>, \<open>Processors_Page\<close>, \<open>Consumers_Page\<close>, \<open>Cluster_Page\<close>,
    \<open>Overview_Page\<close>, \<open>Login_Page\<close>: \<^verbatim>\<open>pages/*.tsx\<close>.  The lemmas show what each form lets through, what each
    list shows and offers, and what each mutation asks for.  \<open>DLQ_Page\<close> also has the page with its
    requests in flight as a step relation.
  \<^item> \<open>App_Shell\<close>: \<^verbatim>\<open>App.tsx\<close>, \<^verbatim>\<open>components/layout\<close> and \<^verbatim>\<open>components/shared\<close>, with the matching of routes as a
    parameter.
  \<^item> \<open>Ui\<close>: \<^verbatim>\<open>components/ui/*.tsx\<close>, \<^verbatim>\<open>lib/utils.ts\<close> and \<^verbatim>\<open>main.tsx\<close>.  Each wrapper is a function from ref, properties and
    children to the element it renders, with the classes of the source; the lemmas show that no wrapper swallows
    properties, classes or children.  \<open>Variants\<close> shows that every tree of the pages uses only variants
    that the tables of \<open>Ui\<close> have.
  \<^item> \<open>Consumer_Group\<close>: \<^verbatim>\<open>consumer_group.go\<close> and \<^verbatim>\<open>offset.go\<close>.  The members and assignments of a group, the three
    strategies, each an instance of the locale \<open>assignor\<close> (every partition to one member), rebalancing, expiry,
    offsets; the critical sections of concurrent calls interleave in \<open>group_step\<close>.  The loop of the
    sticky strategy is a recursive function whose termination proof is the sum of the squares of the counts, with
    the number of partitions as an explicit bound on its rounds.
  \<^item> \<open>Server\<close>: the routes of the admin server, the matching of request paths, and the handlers the
    contract theorems below are about.
  \<^item> \<open>Server_Auth\<close>: \<^verbatim>\<open>acl.go\<close>, \<^verbatim>\<open>rate_limiter.go\<close> and the middleware \<open>auth\<close>.  The lemmas show exactly which requests
    pass, that the access control list is deny-wins, and where resource names and bans go wrong.  Reading a
    glob pattern takes fuel, one more than its length, which every term of the pattern consumes.
  \<^item> \<open>Bytes\<close>, \<open>Message\<close>: byte slices, big-endian words and panics as values; envelopes and their encoding.  The lemmas
    show that decoding undoes encoding, up to the fields the format has no room for, and never panics.
  \<^item> \<open>Hot_Log\<close>: segments, sparse index and partitions over files as byte lists.  \<open>part_holds p start ms\<close> relates a
    partition to the log \<open>ms\<close> it implements; appending, reading, trimming and reopening are shown against it.
  \<^item> \<open>Topic_Manager\<close>: topics with their metadata file, the choice of partitions, and the handler that creates topics, up to
    the list the dashboard loads.
  \<^item> \<open>Broker_Publish\<close>: publishing and fetching.  \<open>logs_ok\<close> relates all partitions to their logs; the lemmas follow a message
    from its publisher to the consumers.
  \<^item> \<open>Dlq_Store\<close>: the dead letter queues, their files and their replay, with the handlers behind the dead letter page.
    Files are lists of entries; a replay is shown equal to a single pass, and followed through publication and restart.
  \<^item> \<open>Exchanges\<close>: exchanges with their bindings, the registry, and the handlers of the admin server that publish through them.  Topic
    patterns are compared with an inductive reference, and a publication is followed into the logs of the destinations.
  \<^item> \<open>Dedup\<close>: the windows of the deduplication, put in the place of the parameter that \<open>Publish\<close> has for them, and compared with
    a reference that remembers every accepted number.
  \<^item> \<open>Queue_Engine\<close>: consumers of a queue, the round-robin dispatch and the acknowledgements, as runs of operations.
  \<^item> \<open>Priority_Dispatch\<close>: the dispatcher with priorities, as an ordered queue; the locale \<open>dispatching\<close> is the interface of dispatchers and is
    interpreted on both.
  \<^item> \<open>Delay_Queue\<close>: the heap of delayed messages, its ticks, and the loop that dispatches what is due.

  This theory holds the properties that span components: the contract between dashboard and server,
  and those that hold of all pages alike.

  \<^bold>\<open>Parameters and their hypotheses.\<close>  Packages that are not part of the repository are parameters: the
  validator (\<open>zod_ok\<close>), the router (\<open>matches_static\<close>), the class functions (\<open>lib_ok\<close>, met by \<open>lib_doc\<close>), the closure a mutation function runs with (the
  argument of the \<open>confirm\<close> functions), the indices of a virtualised list, the answers of unmodelled
  handlers, the order in which Go visits a map (\<open>iterates\<close>).  So are values the language leaves open: locale-dependent dates and numbers, and the
  integer part of the quotient of two \<open>Math.log\<close> (\<open>log_exact\<close>).

  \<^bold>\<open>Not modelled.\<close>  The caching and refetching inside the query library; the Radix primitives, which are
  element names; the generated bundle under \<^verbatim>\<open>internal/ui\<close>; of the broker: clustering and replication, tiered storage, WASM, the
  schema registry, tenants, the wire protocols other than the delivery loop of NATS;
  the providers that check credentials; characters beyond Latin-1; object keys inherited from
  \<open>Object.prototype\<close> in look-ups of object literals; lock contention in the broker, whose critical sections are taken as
  single steps.
\<close>

section \<open>Lemmas\<close>

lemma cluster_layouts: "buttons_on Mobile (cluster_view e) = buttons_on Desktop (cluster_view e)"
  using member_layout.lists_agree [of Mobile _ Desktop]
  by (cases "cluster e") (simp_all add: cluster_view_def cluster_loading_def cluster_cards_def single_node_card_def guard_def)

section \<open>The dashboard and the server\<close>

text \<open>C17: Every request the pages make for a name that the forms accept, other than the two dot names, is
  matched by the route meant for it, with that very name as its path value, and so is every
  request without a name except those for the lists of dead letter topics and of subjects.\<close>

theorem requests_reach_their_routes:
  assumes "name_regex n" and "n \<notin> {''.'', ''..''}"
  shows "route_of (getTopicDetail n) = Some (''/v1/topics/{name}'', [n]) \<and>
    route_of (deleteTopic n) = Some (''/v1/topics/{name}'', [n]) \<and>
    route_of (getConsumerGroupDetail n) = Some (''/v1/consumers/{group}'', [n]) \<and>
    route_of (getSchemas n) = Some (''/v1/schemas/{subject}'', [n]) \<and>
    route_of (registerSchema n ty d) = Some (''/v1/schemas/{subject}'', [n]) \<and>
    route_of (deleteSchema n) = Some (''/v1/schemas/{subject}'', [n]) \<and>
    route_of (getDLQ n l) = Some (''/v1/dlq/{topic}'', [n]) \<and>
    route_of (clearDLQ n) = Some (''/v1/dlq/{topic}'', [n]) \<and>
    route_of (replayDLQ n opts) = Some (''/v1/dlq/{topic}/replay'', [n]) \<and>
    route_of (deleteWASMModule n) = Some (''/v1/wasm/modules/{name}'', [n]) \<and>
    route_of (getProcessor n) = Some (''/v1/processors/{name}'', [n]) \<and>
    route_of (deleteProcessor n) = Some (''/v1/processors/{name}'', [n]) \<and>
    route_of (startProcessor n) = Some (''/v1/processors/{name}/start'', [n]) \<and>
    route_of (stopProcessor n) = Some (''/v1/processors/{name}/stop'', [n]) \<and>
    route_of getHealth = Some (''/v1/health'', []) \<and> route_of (getTopics k off) = Some (''/v1/topics'', []) \<and>
    route_of (createTopic n m v) = Some (''/v1/topics'', []) \<and> route_of getConsumers = Some (''/v1/consumers'', []) \<and>
    route_of getCluster = Some (''/v1/cluster/members'', []) \<and> route_of listWASMModules = Some (''/v1/wasm/modules'', []) \<and>
    route_of listProcessors = Some (''/v1/processors'', [])"
  using named_routes [OF name_plain_seg [OF assms]] fixed_routes by simp

theorem requests_reach_their_routes_witness:
  "name_regex ''my-topic'' \<and> route_of (deleteTopic ''my-topic'') = Some (''/v1/topics/{name}'', [''my-topic''])"
proof -
  have "name_regex ''my-topic''" by code_simp
  with requests_reach_their_routes [OF this] show ?thesis by simp
qed

text \<open>The lists of dead letter topics and of schema subjects have no route on the server; whatever the
  broker holds and whatever its handlers answer, the two pages list nothing.\<close>

theorem dlq_and_subject_lists_empty:
  "listDLQ st (serve handle) = JArr [] \<and> loadSubjects st (serve handle) = JArr []"
proof -
  obtain a b where "perform st (serve handle) listDLQTopics = Inl a" "perform st (serve handle) listSchemaSubjects = Inl b"
    using perform_unrouted missing_routes by (meson typed_verb_calls)
  then show ?thesis by (simp add: listDLQ_def loadSubjects_def listed_def)
qed

text \<open>When the broker has removed the object, the request of the topics page succeeds, while those of
  the schema, module and processor pages are rejected as a syntax error, because their handlers
  answer without a body: the pages report a failure and do not refresh their lists.\<close>

theorem delete_answers:
  assumes "plain_seg n" and "bv_delete b = (\<lambda>_ _. True)" and "bv_topics b \<noteq> None" "bv_registry b" "bv_wasm b" "bv_processor b"
  shows "perform st (serve (admin b other)) (deleteTopic n) = Inr (JObj [(''status'', JStr ''deleted'')]) \<and>
    perform st (serve (admin b other)) (deleteSchema n) = Inl RSyntax \<and>
    perform st (serve (admin b other)) (deleteWASMModule n) = Inl RSyntax \<and>
    perform st (serve (admin b other)) (deleteProcessor n) = Inl RSyntax"
proof -
  have m: "init_method (call_init (deleteTopic n)) = ''DELETE''" "init_method (call_init (deleteSchema n)) = ''DELETE''"
    "init_method (call_init (deleteWASMModule n)) = ''DELETE''" "init_method (call_init (deleteProcessor n)) = ''DELETE''"
    by (simp_all add: init_method_def call_defs verb_defs)
  note handlers = handleDeleteTopic_def handleDeleteSubject_def handleDeleteWASM_def handleDeleteTopology_def
    writeJSON_def no_content_def admin_def m assms
  show ?thesis
    using perform_serve [OF _ route_deleteTopic [OF assms(1)], of "admin b other"]
      perform_serve [OF _ route_deleteSchema [OF assms(1)], of "admin b other"]
      perform_serve [OF _ route_deleteWASMModule [OF assms(1)], of "admin b other"]
      perform_serve [OF _ route_deleteProcessor [OF assms(1)], of "admin b other"]
    by (simp add: handlers res_ok_def)
qed

definition broker_ex :: broker_view where
  "broker_ex = \<lparr>bv_topics = Some [\<lparr>bt_name = ''orders'', bt_mode = ModeQueue, bt_partitions = 2, bt_created_at = ''2026-01-01T00:00:00Z''\<rparr>],
     bv_storage = True, bv_partition = (\<lambda>n i. Some (10, 4)), bv_registry = True, bv_wasm = True, bv_processor = True,
     bv_delete = (\<lambda>_ _. True), bv_error = '''', bv_stream = True, bv_tenant = False, bv_group_names = [''g''],
     bv_groups = (\<lambda>_. None), bv_members = Members, bv_assignments = (\<lambda>_. [])\<rparr>"

theorem delete_answers_witness:
  "plain_seg ''orders'' \<and>
   perform (ses_auth full_session) (serve (admin broker_ex (\<lambda>m p v u i. Network_error))) (deleteSchema ''orders'') = Inl RSyntax"
proof -
  have p: "plain_seg ''orders''" by (simp add: plain_seg_def)
  have "bv_delete broker_ex = (\<lambda>_ _. True)" "bv_topics broker_ex \<noteq> None" "bv_registry broker_ex" "bv_wasm broker_ex" "bv_processor broker_ex"
    by (simp_all add: broker_ex_def)
  from delete_answers [OF p this] p show ?thesis by blast
qed

text \<open>The topic list the pages load is of the declared shape and holds the first thousand topics of the
  broker, in its order, with their names, modes, partition counts and creation times.\<close>

theorem topic_list_contract:
  assumes "bv_topics b = Some ts"
  shows "\<exists>v. perform st (serve (admin b other)) topics_queryFn = Inr v \<and>
    as_arr decode_TopicInfo v = Some (map (\<lambda>t. \<lparr>ti_name = bt_name t, ti_mode = mode_str (bt_mode t),
      ti_partitions = int (bt_partitions t), ti_created_at = bt_created_at t\<rparr>) (take 1000 ts))"
  using topic_list_answer [OF assms] decode_topic_list by blast

theorem topic_list_contract_witness:
  "bv_topics broker_ex = Some (the (bv_topics broker_ex)) \<and>
   (\<exists>v. perform (ses_auth full_session) (serve (admin broker_ex (\<lambda>m p v u i. Network_error))) topics_queryFn = Inr v)"
proof -
  have t: "bv_topics broker_ex = Some (the (bv_topics broker_ex))" by (simp add: broker_ex_def)
  from topic_list_contract [OF t] t show ?thesis by blast
qed

text \<open>The details of an existing topic never have the declared shape: the server sends the list of
  partitions where the page expects their number, and neither a mode nor the list under the name
  the page reads.\<close>

theorem topic_detail_contract_broken:
  assumes "plain_seg n" and "bv_topics b = Some ts" and "n \<in> bt_name ` set ts" and "bv_storage b"
  shows "\<exists>v. perform st (serve (admin b other)) (getTopicDetail n) = Inr v \<and> decode_TopicDetail v = None \<and>
    get_prop v ''mode'' = Some None \<and> get_prop v ''partitions_detail'' = Some None"
proof -
  have m: "init_method (call_init (getTopicDetail n)) = ''GET''"
    by (simp add: init_method_def call_defs verb_defs)
  obtain t where t: "find (\<lambda>t. bt_name t = n) ts = Some t"
    using assms(3) by (cases "find (\<lambda>t. bt_name t = n) ts") (auto simp: find_None_iff)
  define v where "v = JObj [(''name'', JStr (bt_name t)), (''partitions'', JArr (map (\<lambda>i. part_stat_json
    (case bv_partition b n i of Some (h, l) \<Rightarrow> \<lparr>ps_id = i, ps_high = h, ps_low = l\<rparr> | None \<Rightarrow> \<lparr>ps_id = 0, ps_high = 0, ps_low = 0\<rparr>))
      [0..<bt_partitions t]))]"
  have "perform st (serve (admin b other)) (getTopicDetail n) = Inr v"
    using perform_serve [OF _ route_getTopicDetail [OF assms(1)], of "admin b other"] assms t
    by (simp add: admin_def m handleGetTopic_def writeJSON_def res_ok_def v_def)
  moreover have "decode_TopicDetail v = None"
    by (simp add: decode_TopicDetail_def decode_TopicInfo_def field_def v_def)
  ultimately show ?thesis by (simp add: v_def)
qed

theorem topic_detail_contract_broken_witness:
  "\<exists>v. perform (ses_auth full_session) (serve (admin broker_ex (\<lambda>m p v u i. Network_error))) (getTopicDetail ''orders'') = Inr v \<and>
     decode_TopicDetail v = None"
proof -
  have "plain_seg ''orders''" by (simp add: plain_seg_def)
  moreover have "bv_topics broker_ex = Some (the (bv_topics broker_ex))" "bv_storage broker_ex"
    "''orders'' \<in> bt_name ` set (the (bv_topics broker_ex))"
    by (simp_all add: broker_ex_def)
  ultimately show ?thesis using topic_detail_contract_broken by blast
qed

text \<open>No state a member can be in is coloured as the pages intend: the server spells the states in
  lower case, so that the overview shows every member, alive or not, as failed, and the cluster
  page shows all of them in the neutral colour.\<close>

theorem member_states_miscoloured:
  "overviewColors (member_state_str ms) = VDestructive \<and> memberColors (member_state_str ms) = VDefault \<and>
   overviewColors ''Alive'' = VSuccess \<and> memberColors ''Alive'' = VSuccess"
  by (cases ms) (simp_all add: overviewColors_def memberColors_def)

section \<open>Across the pages\<close>

text \<open>On every list page the phone layout and the wide layout offer the same labelled buttons, in the
  same order and with the same handlers, in every state of the page.\<close>

theorem layouts_agree:
  "buttons_on Mobile (topics_view s1 e1) = buttons_on Desktop (topics_view s1 e1) \<and>
   buttons_on Mobile (dlq_view s2 e2) = buttons_on Desktop (dlq_view s2 e2) \<and>
   buttons_on Mobile (schemas_view s3 e3) = buttons_on Desktop (schemas_view s3 e3) \<and>
   buttons_on Mobile (wasm_view s4 e4) = buttons_on Desktop (wasm_view s4 e4) \<and>
   buttons_on Mobile (processors_view s5 e5) = buttons_on Desktop (processors_view s5 e5) \<and>
   map_option (buttons_on Mobile) (consumers_view s6 e6) = map_option (buttons_on Desktop) (consumers_view s6 e6) \<and>
   buttons_on Mobile (cluster_view e7) = buttons_on Desktop (cluster_view e7)"
  using consumers_layouts [of s6 e6]
  by (cases "consumers_view s6 e6")
    (simp_all add: topics_layouts dlq_layouts schemas_layouts wasm_layouts processors_layouts cluster_layouts)

text \<open>On the four pages with a delete dialog, confirming closes the dialog and sends exactly one
  request.  It deletes the confirmed object if the mutation function of the render the user
  clicked in runs; if that of the next render runs, in which the dialog is closed already, it asks
  for the deletion of an object called \<open>null\<close>.\<close>

theorem confirm_deletes_target:
  assumes "deleteTarget s1 = Some t" "schemaTarget s2 = Some t" "wasmTarget s3 = Some t" "processorTarget s4 = Some t"
  shows "(deleteTarget (fst (confirm_delete_topic p1 s1)) = None \<and>
      snd (confirm_delete_topic (\<lambda>clicked next. clicked) s1) = [Call (deleteTopic t)] \<and>
      snd (confirm_delete_topic (\<lambda>clicked next. next) s1) = [Call (deleteTopic ''null'')]) \<and>
    (schemaTarget (fst (confirm_delete_schema p2 s2)) = None \<and>
      snd (confirm_delete_schema (\<lambda>clicked next. clicked) s2) = [Call (deleteSchema t)] \<and>
      snd (confirm_delete_schema (\<lambda>clicked next. next) s2) = [Call (deleteSchema ''null'')]) \<and>
    (wasmTarget (fst (confirm_delete_module p3 s3)) = None \<and>
      snd (confirm_delete_module (\<lambda>clicked next. clicked) s3) = [Call (deleteWASMModule t)] \<and>
      snd (confirm_delete_module (\<lambda>clicked next. next) s3) = [Call (deleteWASMModule ''null'')]) \<and>
    (processorTarget (fst (confirm_delete_processor p4 s4)) = None \<and>
      snd (confirm_delete_processor (\<lambda>clicked next. clicked) s4) = [Call (deleteProcessor t)] \<and>
      snd (confirm_delete_processor (\<lambda>clicked next. next) s4) = [Call (deleteProcessor ''null'')])"
  using topic_delete.confirm_click_closure [OF assms(1)] schema_delete.confirm_click_closure [OF assms(2)]
    wasm_delete.confirm_click_closure [OF assms(3)] processor_delete.confirm_click_closure [OF assms(4)]
  by (simp add: topic_delete.confirm_closes schema_delete.confirm_closes wasm_delete.confirm_closes
      processor_delete.confirm_closes topic_delete.confirm_latest_closure schema_delete.confirm_latest_closure
      wasm_delete.confirm_latest_closure processor_delete.confirm_latest_closure)

theorem confirm_deletes_target_witness:
  "snd (confirm_delete_schema (\<lambda>clicked next. clicked) (schemas_init\<lparr>schemaTarget := Some ''x''\<rparr>)) = [Call (deleteSchema ''x'')]"
  using confirm_deletes_target [of "topics_init\<lparr>deleteTarget := Some ''x''\<rparr>" "''x''" "schemas_init\<lparr>schemaTarget := Some ''x''\<rparr>"
      "wasm_init\<lparr>wasmTarget := Some ''x''\<rparr>" "processors_init\<lparr>processorTarget := Some ''x''\<rparr>"]
  by simp



lemma those_Some_map [simp]: "those (map (\<lambda>x. Some (f x)) xs) = Some (map f xs)"
  by (induction xs) simp_all











end
